(* ===== verification/Prelude.thy ===== *)
theory Prelude
  imports Main "HOL-Library.Word" "HOL-Library.AList"
begin

section \<open>Shared vocabulary of the development\<close>

text \<open>
  What every component theory builds on: the machine integers of Go, Go's maps as
  association lists with their laws, the order in which a \<open>range\<close> loop visits a map,
  the errors the package returns, channels that may be closed once, and the contracts
  (locales) that several components share: a registry, a component that can be closed,
  operations that a closed component ignores, and machines that keep an invariant.
\<close>

subsection \<open>Machine integers\<close>

type_synonym u8 = "8 word"
type_synonym u16 = "16 word"
type_synonym u32 = "32 word"
type_synonym u64 = "64 word"

subsection \<open>Collections of facts\<close>

named_theorems go_defs \<open>definitions that unfold an operation of the model\<close>
named_theorems inv_intros \<open>preservation of the components' invariants\<close>

subsection \<open>Errors\<close>

text \<open>
  The package has two error values of its own (\<open>sfu.go\<close>); every other error comes from
  a library call and carries that library's text.
\<close>

datatype go_error = ErrSessionNotFound | ErrPeerNotFound | ErrExternal string

fun errorText :: "go_error \<Rightarrow> string" where
  "errorText ErrSessionNotFound = ''session not found''"
| "errorText ErrPeerNotFound = ''peer not found''"
| "errorText (ErrExternal msg) = msg"

type_synonym 'a result = "go_error + 'a"

subsection \<open>Go maps\<close>

text \<open>
  A Go map is an association list with distinct keys (\<open>gm_ok\<close>). Its order has no
  meaning in Go; loops over a map go through \<open>range_order\<close> below.
\<close>

type_synonym ('k, 'v) gomap = "('k \<times> 'v) list"

definition gm_get :: "('k, 'v) gomap \<Rightarrow> 'k \<Rightarrow> 'v option" where
  "gm_get m k = map_of m k"

definition gm_put :: "'k \<Rightarrow> 'v \<Rightarrow> ('k, 'v) gomap \<Rightarrow> ('k, 'v) gomap" where
  "gm_put k v m = AList.update k v m"

definition gm_del :: "'k \<Rightarrow> ('k, 'v) gomap \<Rightarrow> ('k, 'v) gomap" where
  "gm_del k m = filter (\<lambda>e. fst e \<noteq> k) m"

definition gm_keys :: "('k, 'v) gomap \<Rightarrow> 'k list" where
  "gm_keys m = map fst m"

definition gm_vals :: "('k, 'v) gomap \<Rightarrow> 'v list" where
  "gm_vals m = map snd m"

definition gm_ok :: "('k, 'v) gomap \<Rightarrow> bool" where
  "gm_ok m \<longleftrightarrow> distinct (gm_keys m)"

text \<open>The contract of a keyed table, and what follows from it.\<close>

locale registry =
  fixes get :: "'m \<Rightarrow> 'k \<Rightarrow> 'v option"
    and put :: "'k \<Rightarrow> 'v \<Rightarrow> 'm \<Rightarrow> 'm"
    and del :: "'k \<Rightarrow> 'm \<Rightarrow> 'm"
    and ok :: "'m \<Rightarrow> bool"
  assumes get_put: "get (put k v m) j = (if j = k then Some v else get m j)"
    and get_del: "get (del k m) j = (if j = k then None else get m j)"
    and ok_put: "ok m \<Longrightarrow> ok (put k v m)"
    and ok_del: "ok m \<Longrightarrow> ok (del k m)"
begin

lemma get_put_same: "get (put k v m) k = Some v"
  by (simp add: get_put)

lemma get_put_other: "j \<noteq> k \<Longrightarrow> get (put k v m) j = get m j"
  by (simp add: get_put)

lemma get_del_same: "get (del k m) k = None"
  by (simp add: get_del)

lemma get_del_other: "j \<noteq> k \<Longrightarrow> get (del k m) j = get m j"
  by (simp add: get_del)

lemma get_del_Some: "get (del k m) j = Some v \<longleftrightarrow> j \<noteq> k \<and> get m j = Some v"
  by (simp add: get_del)

lemma ok_fold_put: "ok m \<Longrightarrow> ok (fold (\<lambda>(k, v). put k v) kvs m)"
  by (induction kvs arbitrary: m) (auto simp: ok_put)

end

lemma gm_get_put: "gm_get (gm_put k v m) j = (if j = k then Some v else gm_get m j)"
  by (simp add: gm_get_def gm_put_def update_conv)

lemma gm_get_del: "gm_get (gm_del k m) j = (if j = k then None else gm_get m j)"
  by (induction m) (auto simp: gm_get_def gm_del_def)

lemma gm_ok_put: "gm_ok m \<Longrightarrow> gm_ok (gm_put k v m)"
  by (simp add: gm_ok_def gm_keys_def gm_put_def distinct_update)

lemma gm_ok_del: "gm_ok m \<Longrightarrow> gm_ok (gm_del k m)"
  by (induction m) (auto simp: gm_ok_def gm_keys_def gm_del_def)

interpretation gm: registry gm_get gm_put gm_del gm_ok
  by unfold_locales (simp_all add: gm_get_put gm_get_del gm_ok_put gm_ok_del)

declare gm.get_put [simp] gm.get_del [simp]
declare gm.ok_put [simp, intro] gm.ok_del [simp, intro]

lemma gm_ok_Nil [simp]: "gm_ok []"
  by (simp add: gm_ok_def gm_keys_def)

lemma gm_get_Nil [simp]: "gm_get [] k = None"
  by (simp add: gm_get_def)

lemma set_gm_keys: "set (gm_keys m) = {k. gm_get m k \<noteq> None}"
  by (simp add: gm_keys_def gm_get_def map_of_eq_None_iff)

lemma gm_get_in_keys [dest]: "gm_get m k = Some v \<Longrightarrow> k \<in> set (gm_keys m)"
  by (simp add: set_gm_keys)

lemma gm_get_iff_mem: "gm_ok m \<Longrightarrow> gm_get m k = Some v \<longleftrightarrow> (k, v) \<in> set m"
  by (simp add: gm_ok_def gm_keys_def gm_get_def)

lemma gm_get_mem: "gm_get m k = Some v \<Longrightarrow> (k, v) \<in> set m"
  by (simp add: gm_get_def map_of_SomeD)

lemma gm_vals_iff: "gm_ok m \<Longrightarrow> v \<in> set (gm_vals m) \<longleftrightarrow> (\<exists>k. gm_get m k = Some v)"
  by (force simp: gm_vals_def gm_get_iff_mem)

lemma length_gm_put:
  "length (gm_put k v m) = (if gm_get m k = None then Suc (length m) else length m)"
  by (induction m) (auto simp: gm_put_def gm_get_def)

lemma gm_put_fresh: "gm_get m k = None \<Longrightarrow> gm_put k v m = m @ [(k, v)]"
  by (induction m) (auto simp: gm_put_def gm_get_def split: if_splits)

lemma gm_keys_put:
  "gm_keys (gm_put k v m) = (if gm_get m k = None then gm_keys m @ [k] else gm_keys m)"
  by (induction m) (auto simp: gm_put_def gm_get_def gm_keys_def)

lemma gm_ok_filter: "gm_ok m \<Longrightarrow> gm_ok (filter P m)"
  by (induction m) (auto simp: gm_ok_def gm_keys_def)

subsection \<open>The order of a range loop\<close>

text \<open>
  Go visits the entries of a map in an unspecified order, another one in each loop. The
  model lets the environment choose: \<open>f\<close> proposes an order for the keys, and a proposal
  that is not an enumeration of exactly these keys counts as the stored order. Every
  enumeration can be chosen, and nothing else can.
\<close>

definition range_order :: "('k list \<Rightarrow> 'k list) \<Rightarrow> 'k list \<Rightarrow> 'k list" where
  "range_order f ks = (if distinct (f ks) \<and> set (f ks) = set ks then f ks else ks)"

lemma set_range_order [simp]: "set (range_order f ks) = set ks"
  by (simp add: range_order_def)

lemma distinct_range_order [simp]: "distinct ks \<Longrightarrow> distinct (range_order f ks)"
  by (simp add: range_order_def)

lemma range_order_any:
  "distinct ks' \<Longrightarrow> set ks' = set ks \<Longrightarrow> range_order (\<lambda>_. ks') ks = ks'"
  by (simp add: range_order_def)

lemma range_order_Nil [simp]: "range_order f [] = []"
  by (simp add: range_order_def)

lemma in_set_tlD: "x \<in> set (tl xs) \<Longrightarrow> x \<in> set xs"
  by (cases xs) auto

subsection \<open>Sets of references (Go's \<open>map[*T]struct\<close>)\<close>

definition ref_add :: "'r \<Rightarrow> 'r list \<Rightarrow> 'r list" where
  "ref_add r rs = (if r \<in> set rs then rs else rs @ [r])"

lemma set_ref_add [simp]: "set (ref_add r rs) = insert r (set rs)"
  by (auto simp: ref_add_def)

lemma distinct_ref_add [simp]: "distinct rs \<Longrightarrow> distinct (ref_add r rs)"
  by (simp add: ref_add_def)

definition ref_del :: "'r \<Rightarrow> 'r list \<Rightarrow> 'r list" where
  "ref_del r rs = removeAll r rs"

lemma set_ref_del [simp]: "set (ref_del r rs) = set rs - {r}"
  by (simp add: ref_del_def)

lemma distinct_ref_del [simp]: "distinct rs \<Longrightarrow> distinct (ref_del r rs)"
  by (simp add: ref_del_def distinct_removeAll)

subsection \<open>Channels used as a close signal\<close>

text \<open>
  \<open>closeCh\<close> fields are only ever closed and selected on. Closing a closed channel is a
  run-time panic, which is the value \<open>None\<close>.
\<close>

datatype chan = ChOpen | ChClosed

fun close_chan :: "chan \<Rightarrow> chan option" where
  "close_chan ChOpen = Some ChClosed"
| "close_chan ChClosed = None"

fun closeTimes :: "('s \<Rightarrow> 's option) \<Rightarrow> nat \<Rightarrow> 's \<Rightarrow> 's option" where
  "closeTimes cls 0 s = Some s"
| "closeTimes cls (Suc n) s = Option.bind (cls s) (closeTimes cls n)"

text \<open>
  The contract of \<open>Close\<close> methods guarded by a \<open>closed\<close> flag: on a state that
  satisfies the invariant the call does not panic, leaves a closed state that satisfies
  the invariant, and does nothing on a closed state.
\<close>

locale closable =
  fixes cls :: "'s \<Rightarrow> 's option"
    and closed :: "'s \<Rightarrow> bool"
    and inv :: "'s \<Rightarrow> bool"
  assumes cls_total: "inv s \<Longrightarrow> \<exists>t. cls s = Some t \<and> inv t \<and> closed t"
    and cls_closed: "inv s \<Longrightarrow> closed s \<Longrightarrow> cls s = Some s"
begin

lemma cls_twice: "inv s \<Longrightarrow> Option.bind (cls s) cls = cls s"
  using cls_total cls_closed by fastforce

lemma closed_closeTimes: "inv s \<Longrightarrow> closed s \<Longrightarrow> closeTimes cls n s = Some s"
  by (induction n) (simp_all add: cls_closed)

lemma closeTimes_once: "inv s \<Longrightarrow> closeTimes cls (Suc n) s = cls s"
  using cls_total [of s] by (auto simp: closed_closeTimes)

end

text \<open>The same contract for a \<open>Close\<close> that returns the new state itself, a panic being part
  of what the invariant excludes.\<close>

locale closer =
  fixes cls :: "'s \<Rightarrow> 's" and closed :: "'s \<Rightarrow> bool" and inv :: "'s \<Rightarrow> bool"
  assumes cls_inv: "inv s \<Longrightarrow> inv (cls s)"
    and cls_closes: "closed (cls s)"
    and cls_again: "closed s \<Longrightarrow> cls s = s"
begin

lemma cls_iterated: "(cls ^^ Suc n) s = cls s"
  by (induction n) (simp_all add: cls_closes cls_again)

end

sublocale closer \<subseteq> opt: closable "\<lambda>s. Some (cls s)" closed inv
  by unfold_locales (auto simp: cls_inv cls_closes cls_again)

text \<open>Closing a family of components one after the other closes all of them.\<close>

locale closing_family =
  fixes cls :: "'k \<Rightarrow> 's \<Rightarrow> 's" and closed :: "'k \<Rightarrow> 's \<Rightarrow> bool"
  assumes closes: "closed k (cls k s)" and stays: "closed j s \<Longrightarrow> closed j (cls k s)"
begin

lemma fold_stays: "closed j s \<Longrightarrow> closed j (fold cls ks s)"
  by (induction ks arbitrary: s) (simp_all add: stays)

lemma fold_closes: "j \<in> set ks \<Longrightarrow> closed j (fold cls ks s)"
  by (induction ks arbitrary: s) (auto simp: closes fold_stays)

end

text \<open>A closable component whose other operations do nothing once it is closed.\<close>

locale guarded = closable cls closed inv
  for cls :: "'s \<Rightarrow> 's option" and closed :: "'s \<Rightarrow> bool" and inv :: "'s \<Rightarrow> bool" +
  fixes act :: "'a \<Rightarrow> 's \<Rightarrow> 's"
  assumes act_closed: "closed s \<Longrightarrow> act a s = s"
    and act_inv: "inv s \<Longrightarrow> inv (act a s)"
begin

lemma acts_closed: "closed s \<Longrightarrow> fold act xs s = s"
  by (induction xs) (simp_all add: act_closed)

lemma acts_inv: "inv s \<Longrightarrow> inv (fold act xs s)"
  by (induction xs arbitrary: s) (simp_all add: act_inv)

lemma cls_final: "inv s \<Longrightarrow> cls s = Some t \<Longrightarrow> fold act xs t = t"
  using cls_total [of s] by (auto simp: acts_closed)

end

subsection \<open>Machines and invariants\<close>

text \<open>A deterministic machine is run over the list of its events.\<close>

definition run :: "('s \<Rightarrow> 'e \<Rightarrow> 's) \<Rightarrow> 's \<Rightarrow> 'e list \<Rightarrow> 's" where
  "run stp s es = foldl stp s es"

lemma run_Nil [simp]: "run stp s [] = s"
  by (simp add: run_def)

lemma run_Cons [simp]: "run stp s (e # es) = run stp (stp s e) es"
  by (simp add: run_def)

lemma run_append [simp]: "run stp s (es @ fs) = run stp (run stp s es) fs"
  by (simp add: run_def)

locale machine =
  fixes stp :: "'s \<Rightarrow> 'e \<Rightarrow> 's"
    and inv :: "'s \<Rightarrow> bool"
  assumes step_inv: "inv s \<Longrightarrow> inv (stp s e)"
begin

lemma run_inv: "inv s \<Longrightarrow> inv (run stp s es)"
  by (induction es arbitrary: s) (simp_all add: step_inv)

end

text \<open>A machine with choice is a step relation; its reachable states are the least set
  that holds the initial states and is closed under steps.\<close>

inductive reach :: "('s \<Rightarrow> bool) \<Rightarrow> ('s \<Rightarrow> 's \<Rightarrow> bool) \<Rightarrow> 's \<Rightarrow> bool"
  for init :: "'s \<Rightarrow> bool" and stp :: "'s \<Rightarrow> 's \<Rightarrow> bool" where
  reach_init: "init s \<Longrightarrow> reach init stp s"
| reach_step: "reach init stp s \<Longrightarrow> stp s t \<Longrightarrow> reach init stp t"

lemma reach_run: "reach init stp x \<Longrightarrow> stp\<^sup>*\<^sup>* x y \<Longrightarrow> reach init stp y"
  by (rotate_tac, induction rule: rtranclp_induct) (auto intro: reach_step)

locale invariant_system =
  fixes init :: "'s \<Rightarrow> bool"
    and stp :: "'s \<Rightarrow> 's \<Rightarrow> bool"
    and inv :: "'s \<Rightarrow> bool"
  assumes init_inv: "init s \<Longrightarrow> inv s"
    and stp_inv: "inv s \<Longrightarrow> stp s t \<Longrightarrow> inv t"
begin

lemma reach_inv: "reach init stp s \<Longrightarrow> inv s"
  by (induction rule: reach.induct) (auto intro: init_inv stp_inv)

end

subsection \<open>Frames\<close>

text \<open>
  What an operation leaves alone is a reflexive and transitive relation between the states
  before and after; a loop over such operations leaves it alone too.
\<close>

locale frame =
  fixes R :: "'s \<Rightarrow> 's \<Rightarrow> bool"
  assumes frame_refl: "R s s"
    and frame_trans: "R s t \<Longrightarrow> R t u \<Longrightarrow> R s u"
begin

lemma frame_fold: "(\<And>x t. x \<in> set xs \<Longrightarrow> R t (f x t)) \<Longrightarrow> R s (fold f xs s)"
  by (induction xs arbitrary: s) (auto intro: frame_refl frame_trans)

lemma frame_pow: "(\<And>t. R t (f t)) \<Longrightarrow> R s ((f ^^ n) s)"
  by (induction n) (auto intro: frame_refl frame_trans)

end

text \<open>The frame of one part of the state.\<close>

interpretation same: frame "\<lambda>s t. part t = part s" for part
  by unfold_locales auto

lemmas same_fold = same.frame_fold

end
