(* ===== verification/GoFloat.thy ===== *)
theory GoFloat
  imports Complex_Main Prelude
begin

section \<open>Go's \<open>float64\<close> where the estimator uses it\<close>

text \<open>
  The bandwidth estimator converts bit rates to \<open>float64\<close>, multiplies or divides, and
  converts back. A finite float is modelled by the rational number it stands for, and each
  operation rounds its exact result to 53 bits, ties to even (\<open>f64\<close>), as IEEE 754 binary64
  does for results in its normal range. The estimator's values stay in that range: they
  are zero or between \<open>10 ^ -9\<close> (one nanosecond in seconds) and \<open>2 ^ 64 * 10 ^ 10\<close>, far from
  overflow and from the subnormal numbers. Loss rates come from the caller and may be any
  \<open>float64\<close>, so they have the special values as well.
\<close>

subsection \<open>Rounding\<close>

text \<open>The integer nearest to a rational, ties to even.\<close>

definition roundEven :: "rat \<Rightarrow> int" where
  "roundEven x =
     (let f = \<lfloor>x\<rfloor>; d = x - of_int f
      in if d < 1/2 then f else if 1/2 < d then f + 1 else if even f then f else f + 1)"

fun ilog2 :: "nat \<Rightarrow> nat" where
  "ilog2 n = (if n < 2 then 0 else Suc (ilog2 (n div 2)))"

declare ilog2.simps [simp del]

text \<open>\<open>2 ^ e\<close> for any integer \<open>e\<close>.\<close>

definition pow2 :: "int \<Rightarrow> rat" where
  "pow2 e = (if 0 \<le> e then 2 ^ nat e else 1 / 2 ^ nat (- e))"

text \<open>The binary exponent of a positive rational: \<open>2 ^ e \<le> x < 2 ^ (e + 1)\<close>.\<close>

definition exponentOf :: "rat \<Rightarrow> int" where
  "exponentOf x =
     (case quotient_of x of (p, q) \<Rightarrow>
       let k = int (ilog2 (nat p)) - int (ilog2 (nat q))
       in if x < pow2 k then k - 1 else k)"

definition f64pos :: "rat \<Rightarrow> rat" where
  "f64pos x = (let e = exponentOf x in of_int (roundEven (x * pow2 (52 - e))) * pow2 (e - 52))"

definition f64 :: "rat \<Rightarrow> rat" where
  "f64 x = (if x = 0 then 0 else if 0 < x then f64pos x else - f64pos (- x))"

subsection \<open>Rounding is close\<close>

lemma roundEven_close: "\<bar>of_int (roundEven x) - x\<bar> \<le> 1 / 2"
proof -
  define d where "d = x - of_int \<lfloor>x\<rfloor>"
  have "0 \<le> d" "d < 1" and x: "x = of_int \<lfloor>x\<rfloor> + d"
    using floor_correct [of x] by (simp_all add: d_def)
  moreover have "of_int (roundEven x) - x = (if d < 1/2 then - d else if 1/2 < d then 1 - d
      else if even \<lfloor>x\<rfloor> then - d else 1 - d)"
    by (simp add: roundEven_def Let_def d_def)
  ultimately show ?thesis by (simp add: abs_if)
qed

lemma roundEven_int [simp]: "roundEven (of_int i) = i"
  by (simp add: roundEven_def)

lemma ilog2_bounds: "0 < n \<Longrightarrow> 2 ^ ilog2 n \<le> n \<and> n < 2 ^ Suc (ilog2 n)"
proof (induction n rule: ilog2.induct)
  case (1 n)
  show ?case
  proof (cases "n < 2")
    case True
    with "1.prems" show ?thesis by (simp add: ilog2.simps [of n])
  next
    case False
    with "1.IH" have "2 ^ ilog2 (n div 2) \<le> n div 2 \<and> n div 2 < 2 ^ Suc (ilog2 (n div 2))"
      by simp
    with False show ?thesis by (auto simp: ilog2.simps [of n])
  qed
qed

lemma ilog2_bounds_int:
  assumes "0 < (p::int)"
  shows "2 ^ ilog2 (nat p) \<le> p \<and> p < 2 ^ Suc (ilog2 (nat p))"
proof -
  have "int (2 ^ ilog2 (nat p)) \<le> int (nat p) \<and> int (nat p) < int (2 ^ Suc (ilog2 (nat p)))"
    using ilog2_bounds [of "nat p"] assms by (simp only: of_nat_le_iff of_nat_less_iff)
  then show ?thesis using assms by simp
qed

lemma pow2_pos [simp]: "0 < pow2 e"
  by (simp add: pow2_def)

lemma pow2_powi: "pow2 e = 2 powi e"
  by (simp add: pow2_def power_int_def inverse_eq_divide power_one_over)

lemma pow2_add: "pow2 (a + b) = pow2 a * pow2 b"
  by (simp add: pow2_powi power_int_add)

lemma pow2_diff: "pow2 (a - b) = pow2 a / pow2 b"
  by (simp add: pow2_powi power_int_diff)

lemma pow2_nat: "pow2 (int n) = 2 ^ n"
  by (simp add: pow2_def)

lemma pow2_Suc: "pow2 (e + 1) = 2 * pow2 e"
  by (simp add: pow2_add) (simp add: pow2_def)

text \<open>A quotient of two numbers lies in the interval that their lengths give.\<close>

lemma quotient_bounds:
  fixes p q A B :: rat
  assumes P: "A \<le> p" "p < 2 * A" and Q: "B \<le> q" "q < 2 * B" and pos: "0 < A" "0 < B"
  shows "A / B / 2 \<le> p / q" "p / q < 2 * (A / B)"
proof -
  have "p / q < (2 * A) / q"
    using P(2) Q(1) pos by (intro divide_strict_right_mono) simp_all
  also have "\<dots> \<le> (2 * A) / B"
    using Q(1) pos by (intro divide_left_mono) simp_all
  finally show "p / q < 2 * (A / B)" by simp
  have "A / (2 * B) \<le> A / q"
    using Q pos by (intro divide_left_mono) simp_all
  also have "\<dots> \<le> p / q"
    using P(1) Q(1) pos by (intro divide_right_mono) simp_all
  finally show "A / B / 2 \<le> p / q" by simp
qed

lemma exponentOf_bounds:
  assumes "0 < x"
  shows "pow2 (exponentOf x) \<le> x \<and> x < pow2 (exponentOf x + 1)"
proof -
  obtain p q where pq: "quotient_of x = (p, q)" by fastforce
  from quotient_of_div [OF pq] quotient_of_denom_pos [OF pq]
  have x: "x = of_int p / of_int q" and q: "0 < q" by simp_all
  with assms have p: "0 < p" by (simp add: zero_less_divide_iff)
  define a b where "a = ilog2 (nat p)" and "b = ilog2 (nat q)"
  have "(2::int) ^ a \<le> p \<and> p < 2 ^ Suc a" and "(2::int) ^ b \<le> q \<and> q < 2 ^ Suc b"
    unfolding a_def b_def by (rule ilog2_bounds_int [OF p], rule ilog2_bounds_int [OF q])
  then have "(of_int (2 ^ a) :: rat) \<le> of_int p \<and> (of_int p :: rat) < of_int (2 ^ Suc a)"
    and "(of_int (2 ^ b) :: rat) \<le> of_int q \<and> (of_int q :: rat) < of_int (2 ^ Suc b)"
    by (simp_all only: of_int_le_iff of_int_less_iff)
  then have P: "2 ^ a \<le> (of_int p :: rat)" "(of_int p :: rat) < 2 * 2 ^ a"
    and Q: "2 ^ b \<le> (of_int q :: rat)" "(of_int q :: rat) < 2 * 2 ^ b"
    by simp_all
  define k where "k = int a - int b"
  have pk: "pow2 k = 2 ^ a / 2 ^ b"
    by (simp add: k_def pow2_diff pow2_nat)
  have "pow2 k / 2 \<le> x" "x < 2 * pow2 k"
    unfolding x pk using quotient_bounds [OF P Q] by simp_all
  moreover have "exponentOf x = (if x < pow2 k then k - 1 else k)"
    by (simp add: exponentOf_def pq k_def a_def b_def Let_def)
  moreover have "pow2 (k - 1) = pow2 k / 2"
    by (simp add: pow2_diff) (simp add: pow2_def)
  ultimately show ?thesis
    using pow2_Suc [of k] by auto
qed

lemma f64pos_close:
  assumes "0 < x"
  shows "\<bar>f64pos x - x\<bar> \<le> x / 2 ^ 53"
proof -
  define e where "e = exponentOf x"
  define y where "y = x * pow2 (52 - e)"
  have e: "pow2 e \<le> x" using exponentOf_bounds [OF assms] by (simp add: e_def)
  have inv: "pow2 (52 - e) * pow2 (e - 52) = 1"
    by (simp flip: pow2_add) (simp add: pow2_def)
  have "f64pos x - x = (of_int (roundEven y) - y) * pow2 (e - 52)"
    using inv by (simp add: f64pos_def Let_def y_def e_def algebra_simps)
  then have "\<bar>f64pos x - x\<bar> = \<bar>of_int (roundEven y) - y\<bar> * pow2 (e - 52)"
    by (simp add: abs_mult less_imp_le)
  also have "\<dots> \<le> 1 / 2 * pow2 (e - 52)"
    by (intro mult_right_mono roundEven_close) (simp add: less_imp_le)
  also have "\<dots> = pow2 e / 2 ^ 53"
    by (simp add: pow2_diff) (simp add: pow2_def)
  also have "\<dots> \<le> x / 2 ^ 53"
    using e by (intro divide_right_mono) simp_all
  finally show ?thesis .
qed

lemma f64_close: "0 \<le> x \<Longrightarrow> \<bar>f64 x - x\<bar> \<le> x / 2 ^ 53"
  using f64pos_close [of x] by (simp add: f64_def)

lemma f64_upper: "0 \<le> x \<Longrightarrow> f64 x \<le> x * (1 + 1 / 2 ^ 53)"
  using f64_close [of x, THEN abs_le_D1] by (simp add: algebra_simps)

lemma f64_lower: "0 \<le> x \<Longrightarrow> x * (1 - 1 / 2 ^ 53) \<le> f64 x"
  using f64_close [of x, THEN abs_le_D2] by (simp add: algebra_simps)

lemma f64_nonneg: "0 \<le> x \<Longrightarrow> 0 \<le> f64 x"
proof -
  assume x: "0 \<le> x"
  have "0 \<le> x * (1 - 1 / 2 ^ 53)" using x by simp
  also have "\<dots> \<le> f64 x" by (rule f64_lower [OF x])
  finally show ?thesis .
qed

text \<open>Integers below \<open>2 ^ 53\<close> are exact.\<close>

lemma f64_exact:
  assumes "0 \<le> i" "i < 2 ^ 53"
  shows "f64 (of_int i) = of_int i"
proof (cases "i = 0")
  case True
  then show ?thesis by (simp add: f64_def)
next
  case False
  with assms have pos: "0 < (of_int i :: rat)" by simp
  define e where "e = exponentOf (of_int i)"
  have "pow2 e \<le> of_int i" "of_int i < pow2 (e + 1)"
    using exponentOf_bounds [OF pos] by (simp_all add: e_def)
  have "pow2 e < pow2 53"
  proof -
    have "(of_int i :: rat) < of_int (2 ^ 53)" using assms(2) by (simp only: of_int_less_iff)
    with \<open>pow2 e \<le> of_int i\<close> show ?thesis by (simp add: pow2_def)
  qed
  then have "\<not> 53 \<le> e"
    using power_int_increasing [of 53 e "2 :: rat"] by (auto simp: pow2_powi)
  then have "e < 53" by simp
  then have "pow2 (52 - e) = of_int (2 ^ nat (52 - e))" by (simp add: pow2_def)
  then have "f64pos (of_int i) = of_int (i * 2 ^ nat (52 - e)) * pow2 (e - 52)"
    unfolding f64pos_def e_def [symmetric] Let_def
    by (metis of_int_mult roundEven_int)
  also have "\<dots> = of_int i * (pow2 (52 - e) * pow2 (e - 52))"
    using \<open>pow2 (52 - e) = _\<close> by simp
  also have "\<dots> = of_int i"
    by (simp flip: pow2_add) (simp add: pow2_def)
  finally show ?thesis using pos by (simp add: f64_def)
qed

subsection \<open>Operations\<close>

definition f64mul :: "rat \<Rightarrow> rat \<Rightarrow> rat" where "f64mul x y = f64 (x * y)"
definition f64div :: "rat \<Rightarrow> rat \<Rightarrow> rat" where "f64div x y = f64 (x / y)"
definition f64add :: "rat \<Rightarrow> rat \<Rightarrow> rat" where "f64add x y = f64 (x + y)"

definition f64_of_u64 :: "u64 \<Rightarrow> rat" where
  "f64_of_u64 w = f64 (of_int (uint w))"

text \<open>
  \<open>uint64(x)\<close> truncates; when the result does not fit, Go leaves the value to the
  implementation, so it is the parameter \<open>conv\<close>.
\<close>

definition u64_of_f64 :: "(rat \<Rightarrow> u64) \<Rightarrow> rat \<Rightarrow> u64" where
  "u64_of_f64 conv x =
     (if - 1 < x \<and> x < 2 ^ 64 then word_of_int (if x < 0 then 0 else \<lfloor>x\<rfloor>) else conv x)"

lemma u64_of_f64_uint:
  assumes "0 \<le> x" "x < 2 ^ 64"
  shows "uint (u64_of_f64 conv x) = \<lfloor>x\<rfloor>"
proof -
  have "0 \<le> \<lfloor>x\<rfloor>" "\<lfloor>x\<rfloor> < 2 ^ 64"
    using assms by (simp_all add: floor_less_iff)
  then show ?thesis using assms by (simp add: u64_of_f64_def uint_word_of_int)
qed

text \<open>A \<open>float64\<close> as a caller may pass it, with Go's comparisons (false on a NaN).\<close>

datatype float64 = NaN | PosInf | NegInf | Fin rat

fun f64lt :: "float64 \<Rightarrow> float64 \<Rightarrow> bool" where
  "f64lt NaN _ = False"
| "f64lt _ NaN = False"
| "f64lt NegInf y = (y \<noteq> NegInf)"
| "f64lt _ NegInf = False"
| "f64lt PosInf _ = False"
| "f64lt (Fin _) PosInf = True"
| "f64lt (Fin x) (Fin y) = (x < y)"

end
