(* ===== verification/Layers.thy ===== *)
theory Layers
  imports Prelude
begin

section \<open>Layer names and their ranking (\<open>layer.go\<close>)\<close>

text \<open>
  The four layer names, \<open>LayerPriority\<close>, and the ranking it stands for: a linear order
  of qualities in which a name the code does not know is the lowest. The \<open>Layer\<close> objects
  themselves live in the store (theory \<open>World\<close>), because other objects point to them.
\<close>

definition LayerHigh :: string where "LayerHigh = ''high''"
definition LayerMid :: string where "LayerMid = ''mid''"
definition LayerLow :: string where "LayerLow = ''low''"
definition LayerDefault :: string where "LayerDefault = ''default''"

lemmas layer_names = LayerHigh_def LayerMid_def LayerLow_def LayerDefault_def

definition LayerPriority :: "string \<Rightarrow> int" where
  "LayerPriority name =
     (if name = LayerHigh then 3
      else if name = LayerMid then 2
      else if name = LayerLow then 1
      else if name = LayerDefault then 1
      else 0)"

lemma LayerPriority_names [simp]:
  "LayerPriority LayerHigh = 3" "LayerPriority LayerMid = 2"
  "LayerPriority LayerLow = 1" "LayerPriority LayerDefault = 1"
  by (simp_all add: LayerPriority_def layer_names)

lemma LayerPriority_bounds: "0 \<le> LayerPriority n" "LayerPriority n \<le> 3"
  by (simp_all add: LayerPriority_def)

lemma layer_names_distinct [simp]:
  "LayerHigh \<noteq> LayerMid" "LayerHigh \<noteq> LayerLow" "LayerHigh \<noteq> LayerDefault"
  "LayerMid \<noteq> LayerHigh" "LayerMid \<noteq> LayerLow" "LayerMid \<noteq> LayerDefault"
  "LayerLow \<noteq> LayerHigh" "LayerLow \<noteq> LayerMid" "LayerLow \<noteq> LayerDefault"
  "LayerDefault \<noteq> LayerHigh" "LayerDefault \<noteq> LayerMid" "LayerDefault \<noteq> LayerLow"
  by (simp_all add: layer_names)

definition knownLayer :: "string \<Rightarrow> bool" where
  "knownLayer n \<longleftrightarrow> n = LayerHigh \<or> n = LayerMid \<or> n = LayerLow \<or> n = LayerDefault"

lemma LayerPriority_known: "1 \<le> LayerPriority n \<longleftrightarrow> knownLayer n"
  by (auto simp: LayerPriority_def knownLayer_def)

subsection \<open>The ranking as an order\<close>

datatype quality = QUnknown | QLow | QMid | QHigh

fun qualityRank :: "quality \<Rightarrow> nat" where
  "qualityRank QUnknown = 0"
| "qualityRank QLow = 1"
| "qualityRank QMid = 2"
| "qualityRank QHigh = 3"

lemma qualityRank_inj: "qualityRank a = qualityRank b \<Longrightarrow> a = b"
  by (cases a; cases b) simp_all

instantiation quality :: linorder
begin

definition less_eq_quality :: "quality \<Rightarrow> quality \<Rightarrow> bool" where
  "less_eq_quality a b \<longleftrightarrow> qualityRank a \<le> qualityRank b"

definition less_quality :: "quality \<Rightarrow> quality \<Rightarrow> bool" where
  "less_quality a b \<longleftrightarrow> qualityRank a < qualityRank b"

instance
  by intro_classes (auto simp: less_eq_quality_def less_quality_def dest: qualityRank_inj)

end

definition layerQuality :: "string \<Rightarrow> quality" where
  "layerQuality n =
     (if n = LayerHigh then QHigh else if n = LayerMid then QMid
      else if n = LayerLow \<or> n = LayerDefault then QLow else QUnknown)"

lemma LayerPriority_rank: "LayerPriority n = int (qualityRank (layerQuality n))"
  by (simp add: LayerPriority_def layerQuality_def)

lemma LayerPriority_le_iff: "LayerPriority a \<le> LayerPriority b \<longleftrightarrow> layerQuality a \<le> layerQuality b"
  by (simp add: LayerPriority_rank less_eq_quality_def)

end
