(* ===== verification/Selector.thy ===== *)
theory Selector
  imports Layers
begin

section \<open>Layer selection for one subscriber (\<open>LayerSelector\<close> in \<open>bandwidth.go\<close>)\<close>

text \<open>
  A selector remembers which layer a downtrack sends now and which one it should send. A
  switch waits for a keyframe and for a cooldown of two seconds after the last switch;
  a forced switch waits for neither. Time is a number of nanoseconds since Go's zero
  \<open>time.Time\<close>; every reading of the clock is an argument of the operation that makes it.
\<close>

subsection \<open>Time\<close>

type_synonym gotime = int  \<comment> \<open>nanoseconds since the zero time\<close>
type_synonym duration = int  \<comment> \<open>nanoseconds, an \<open>int64\<close> in the source\<close>

definition maxDuration :: duration where "maxDuration = 2 ^ 63 - 1"
definition minDuration :: duration where "minDuration = - (2 ^ 63)"

text \<open>\<open>Time.Sub\<close> saturates at the bounds of a duration; \<open>time.Since(t)\<close> is \<open>now.Sub(t)\<close>.\<close>

definition timeSub :: "gotime \<Rightarrow> gotime \<Rightarrow> duration" where
  "timeSub t u = max minDuration (min maxDuration (t - u))"

definition second :: duration where "second = 1000000000"

lemma timeSub_ge: "d \<le> timeSub t u \<Longrightarrow> minDuration < d \<Longrightarrow> d \<le> t - u"
  by (auto simp: timeSub_def)

lemma timeSub_exact: "minDuration \<le> t - u \<Longrightarrow> t - u \<le> maxDuration \<Longrightarrow> timeSub t u = t - u"
  by (simp add: timeSub_def)

subsection \<open>State and operations\<close>

text \<open>
  The callback \<open>onSwitch\<close> is a closure of the caller; the selector only starts it in a
  goroutine. An operation that does so returns the started calls, the callback with its
  argument.
\<close>

record 'cb LayerSelector =
  ls_trackID :: string
  currentLayer :: string
  targetLayer :: string
  pendingSwitch :: bool
  lastSwitchTime :: gotime
  switchCooldown :: duration
  onSwitch :: "'cb option"

definition NewLayerSelector :: "string \<Rightarrow> string \<Rightarrow> 'cb LayerSelector" where
  "NewLayerSelector trackID initialLayer =
     (let initial = (if initialLayer = '''' then LayerHigh else initialLayer)
      in \<lparr>ls_trackID = trackID, currentLayer = initial, targetLayer = initial,
          pendingSwitch = False, lastSwitchTime = 0, switchCooldown = 2 * second,
          onSwitch = None\<rparr>)"

definition SetTargetLayer :: "string \<Rightarrow> 'cb LayerSelector \<Rightarrow> 'cb LayerSelector" where
  "SetTargetLayer layer ls =
     (if layer \<noteq> targetLayer ls then ls\<lparr>targetLayer := layer, pendingSwitch := True\<rparr> else ls)"

definition GetCurrentLayer :: "'cb LayerSelector \<Rightarrow> string" where
  "GetCurrentLayer ls = currentLayer ls"

definition GetTargetLayer :: "'cb LayerSelector \<Rightarrow> string" where
  "GetTargetLayer ls = targetLayer ls"

definition NeedsSwitch :: "'cb LayerSelector \<Rightarrow> bool" where
  "NeedsSwitch ls \<longleftrightarrow> pendingSwitch ls \<and> currentLayer ls \<noteq> targetLayer ls"

definition CanSwitch :: "gotime \<Rightarrow> 'cb LayerSelector \<Rightarrow> bool" where
  "CanSwitch now ls \<longleftrightarrow> timeSub now (lastSwitchTime ls) \<ge> switchCooldown ls"

definition OnSwitch :: "'cb \<Rightarrow> 'cb LayerSelector \<Rightarrow> 'cb LayerSelector" where
  "OnSwitch cb ls = ls\<lparr>onSwitch := Some cb\<rparr>"

text \<open>\<open>now\<close> is the reading of \<open>time.Since\<close>, \<open>stamp\<close> the later one of \<open>time.Now\<close>.\<close>

definition SwitchToTarget ::
  "gotime \<Rightarrow> gotime \<Rightarrow> 'cb LayerSelector \<Rightarrow> bool \<times> 'cb LayerSelector \<times> ('cb \<times> string) list" where
  "SwitchToTarget now stamp ls =
     (if \<not> pendingSwitch ls \<or> currentLayer ls = targetLayer ls then (False, ls, [])
      else if timeSub now (lastSwitchTime ls) < switchCooldown ls then (False, ls, [])
      else (let ls' = ls\<lparr>currentLayer := targetLayer ls, pendingSwitch := False,
                          lastSwitchTime := stamp\<rparr>
            in (True, ls', case onSwitch ls' of None \<Rightarrow> [] | Some cb \<Rightarrow> [(cb, currentLayer ls')])))"

definition ForceSwitch :: "gotime \<Rightarrow> string \<Rightarrow> 'cb LayerSelector \<Rightarrow> 'cb LayerSelector" where
  "ForceSwitch stamp layer ls =
     ls\<lparr>currentLayer := layer, targetLayer := layer, pendingSwitch := False,
        lastSwitchTime := stamp\<rparr>"

lemmas selector_defs =
  NewLayerSelector_def SetTargetLayer_def GetCurrentLayer_def GetTargetLayer_def
  NeedsSwitch_def CanSwitch_def OnSwitch_def SwitchToTarget_def ForceSwitch_def Let_def

subsection \<open>The selector as a machine\<close>

datatype 'cb sel_event =
    SetTarget string
  | Callback 'cb
  | Switch gotime gotime
  | Force gotime string

fun selStep :: "'cb LayerSelector \<Rightarrow> 'cb sel_event \<Rightarrow> 'cb LayerSelector" where
  "selStep ls (SetTarget l) = SetTargetLayer l ls"
| "selStep ls (Callback cb) = OnSwitch cb ls"
| "selStep ls (Switch now stamp) = fst (snd (SwitchToTarget now stamp ls))"
| "selStep ls (Force stamp l) = ForceSwitch stamp l ls"

text \<open>A selector with no pending switch sends the layer it should send.\<close>

definition sel_inv :: "'cb LayerSelector \<Rightarrow> bool" where
  "sel_inv ls \<longleftrightarrow> (pendingSwitch ls \<or> currentLayer ls = targetLayer ls)
                 \<and> switchCooldown ls = 2 * second"

lemma sel_inv_New [intro]: "sel_inv (NewLayerSelector t l)"
  by (simp add: sel_inv_def selector_defs)

lemma selStep_inv: "sel_inv ls \<Longrightarrow> sel_inv (selStep ls e)"
  by (cases e) (auto simp: sel_inv_def selector_defs)

interpretation sel: machine selStep sel_inv
  by unfold_locales (rule selStep_inv)

subsection \<open>The interface a downtrack relies on\<close>

text \<open>
  What \<open>downtrack.go\<close> needs of a selector: that a switch is needed exactly when the
  layer sent and the layer wanted differ, that retargeting does not change what is sent,
  that a switch leads to the target or does nothing, and that forcing sets both.
\<close>

locale switcher =
  fixes cur :: "'s \<Rightarrow> string" and tgt :: "'s \<Rightarrow> string" and needs :: "'s \<Rightarrow> bool"
    and retarget :: "string \<Rightarrow> 's \<Rightarrow> 's" and switch :: "'t \<Rightarrow> 's \<Rightarrow> 's"
    and force :: "'u \<Rightarrow> string \<Rightarrow> 's \<Rightarrow> 's" and inv :: "'s \<Rightarrow> bool"
  assumes needs_iff: "inv s \<Longrightarrow> needs s \<longleftrightarrow> cur s \<noteq> tgt s"
    and retarget_cur: "cur (retarget l s) = cur s"
    and retarget_tgt: "tgt (retarget l s) = l"
    and switch_cur: "cur (switch t s) = tgt s \<or> switch t s = s"
    and switch_tgt: "tgt (switch t s) = tgt s"
    and force_cur: "cur (force u l s) = l"
    and force_tgt: "tgt (force u l s) = l"
    and inv_retarget: "inv s \<Longrightarrow> inv (retarget l s)"
    and inv_switch: "inv s \<Longrightarrow> inv (switch t s)"
    and inv_force: "inv s \<Longrightarrow> inv (force u l s)"
begin

lemma settled: "inv s \<Longrightarrow> \<not> needs s \<Longrightarrow> cur (switch t s) = cur s"
  using switch_cur [of t s] by (auto simp: needs_iff)

lemma force_settles: "inv s \<Longrightarrow> \<not> needs (force u l s)"
  by (simp add: needs_iff inv_force force_cur force_tgt)

lemma retarget_needs: "inv s \<Longrightarrow> needs (retarget l s) \<longleftrightarrow> cur s \<noteq> l"
  by (simp add: needs_iff inv_retarget retarget_cur retarget_tgt)

lemma cancel: "inv s \<Longrightarrow> \<not> needs (retarget (cur s) s)"
  by (simp add: retarget_needs)

text \<open>Whatever is retargeted and switched, the layer sent is the first one or one asked for.\<close>

lemma cur_origin:
  "cur (fold (\<lambda>(l, t) s. switch t (retarget l s)) xs s) \<in> insert (cur s) (fst ` set xs)"
proof (induction xs arbitrary: s)
  case Nil
  then show ?case by simp
next
  case (Cons x xs)
  obtain l t where x: "x = (l, t)" by (cases x)
  have "cur (switch t (retarget l s)) \<in> {cur s, l}"
    using switch_cur [of t "retarget l s"] by (auto simp: retarget_cur retarget_tgt)
  with Cons.IH [of "switch t (retarget l s)"] show ?case
    by (auto simp: x)
qed

end

interpretation selsw: switcher GetCurrentLayer GetTargetLayer NeedsSwitch SetTargetLayer
  "\<lambda>(now, stamp) ls. fst (snd (SwitchToTarget now stamp ls))" ForceSwitch sel_inv
  by unfold_locales (auto simp: sel_inv_def selector_defs split: prod.splits)


subsection \<open>The switches of a run\<close>

text \<open>
  The log of a run holds its effective switches with the clock readings they made: the
  cooldown check and the new \<open>lastSwitchTime\<close> of an ordinary switch, the latter only of
  a forced one.
\<close>

datatype switch_entry = Switched gotime gotime | Forced gotime

fun stampOf :: "switch_entry \<Rightarrow> gotime" where
  "stampOf (Switched now stamp) = stamp"
| "stampOf (Forced stamp) = stamp"

fun logOf :: "'cb LayerSelector \<Rightarrow> 'cb sel_event \<Rightarrow> switch_entry list" where
  "logOf ls (Switch now stamp) =
     (if fst (SwitchToTarget now stamp ls) then [Switched now stamp] else [])"
| "logOf ls (Force stamp l) = [Forced stamp]"
| "logOf ls e = []"

fun selLog :: "'cb LayerSelector \<Rightarrow> 'cb sel_event list \<Rightarrow> switch_entry list" where
  "selLog ls [] = []"
| "selLog ls (e # es) = logOf ls e @ selLog (selStep ls e) es"

text \<open>Every ordinary switch of a log comes at least the cooldown after the entry before it.\<close>

fun cooledLog :: "gotime \<Rightarrow> switch_entry list \<Rightarrow> bool" where
  "cooledLog prev [] = True"
| "cooledLog prev (e # es) =
     ((case e of Switched now _ \<Rightarrow> 2 * second \<le> now - prev | Forced _ \<Rightarrow> True)
      \<and> cooledLog (stampOf e) es)"

lemma SwitchToTarget_result:
  "fst (SwitchToTarget now stamp ls) \<longleftrightarrow> NeedsSwitch ls \<and> CanSwitch now ls"
  by (auto simp: selector_defs)

lemma logOf_cooled:
  assumes "sel_inv ls"
  shows "logOf ls e = [] \<and> lastSwitchTime (selStep ls e) = lastSwitchTime ls
       \<or> (\<exists>x. logOf ls e = [x] \<and> cooledLog (lastSwitchTime ls) [x]
              \<and> lastSwitchTime (selStep ls e) = stampOf x)"
proof (cases e)
  case (Switch now stamp)
  then show ?thesis
    using assms timeSub_ge [of "2 * second" now "lastSwitchTime ls"]
    by (auto simp: SwitchToTarget_result)
       (auto simp: selector_defs sel_inv_def second_def minDuration_def)
qed (auto simp: selector_defs)

lemma selLog_cooled: "sel_inv ls \<Longrightarrow> cooledLog (lastSwitchTime ls) (selLog ls es)"
proof (induction es arbitrary: ls)
  case Nil
  then show ?case by simp
next
  case (Cons e es)
  from Cons.IH [OF sel.step_inv [OF Cons.prems, of e]] logOf_cooled [OF Cons.prems, of e]
  show ?case by auto
qed

subsection \<open>Properties\<close>

text \<open>C34: Layer changes do not flap. Over any sequence of target changes, switch attempts
  and forced switches on a new selector, with any clock, each ordinary switch happens at
  least two seconds after the switch (ordinary or forced) before it.\<close>

theorem selector_cooldown:
  "cooledLog 0 (selLog (NewLayerSelector trackID layer) es)"
  using selLog_cooled [OF sel_inv_New, of trackID layer es]
  by (simp add: NewLayerSelector_def Let_def)

text \<open>What a switch attempt does, on every branch: it succeeds exactly when a switch
  is needed and the cooldown has passed; then the target becomes the current layer, nothing
  is pending, the clock reading is stored and the callback is started once with the new
  layer; otherwise nothing changes and nothing is started.\<close>

theorem SwitchToTarget_spec:
  "SwitchToTarget now stamp ls =
     (if NeedsSwitch ls \<and> CanSwitch now ls
      then (True, ls\<lparr>currentLayer := GetTargetLayer ls, pendingSwitch := False,
                     lastSwitchTime := stamp\<rparr>,
            case onSwitch ls of None \<Rightarrow> [] | Some cb \<Rightarrow> [(cb, GetTargetLayer ls)])
      else (False, ls, []))"
  by (auto simp: selector_defs split: option.splits)

text \<open>In every state a selector can get into, a switch is needed exactly when the layer
  it sends is not the layer it should send; in particular a request that is taken back
  before the switch (the target set to the current layer again) leaves nothing to do.\<close>

theorem selector_needs_iff:
  fixes es :: "'cb sel_event list" and trackID layer :: string
  defines "ls \<equiv> run selStep (NewLayerSelector trackID layer) es"
  shows "(NeedsSwitch ls \<longleftrightarrow> GetCurrentLayer ls \<noteq> GetTargetLayer ls)
    \<and> \<not> NeedsSwitch (SetTargetLayer (GetCurrentLayer ls) ls)
    \<and> \<not> NeedsSwitch (ForceSwitch stamp l ls)"
  using selsw.needs_iff selsw.cancel selsw.force_settles sel.run_inv [OF sel_inv_New]
  unfolding ls_def by blast

end
