(* ===== verification/Twcc.thy ===== *)
theory Twcc
  imports GoFloat Selector
begin

section \<open>Transport-wide congestion control (\<open>twcc.go\<close>)\<close>

text \<open>
  The receiver's record of arrived packets and the sender's feedback messages. Callbacks are closures of the caller (type \<open>'cb\<close>): an operation that calls
  one, or starts it in a goroutine, returns the calls it makes. A reading of the clock is
  an argument of the operation that makes it.
\<close>

subsection \<open>Configuration and packets\<close>

record TWCCConfig =
  InitialBitrate :: u64
  MinBitrate :: u64
  MaxBitrate :: u64
  FeedbackInterval :: duration

definition millisecond :: duration where "millisecond = 1000000"

definition DefaultTWCCConfig :: TWCCConfig where
  "DefaultTWCCConfig =
     \<lparr>InitialBitrate = 1000000, MinBitrate = 100000, MaxBitrate = 5000000,
      FeedbackInterval = 100 * millisecond\<rparr>"

record PacketInfo =
  pi_SequenceNumber :: u16
  pi_ArrivalTime :: gotime
  pi_Size :: int

subsection \<open>The receiver\<close>

record 'cb TWCCReceiver =
  tr_config :: TWCCConfig
  tr_packets :: "(u16, PacketInfo) gomap"
  tr_estimatedBitrate :: u64
  tr_lossRate :: float64
  tr_rtt :: duration
  tr_onBitrateChange :: "'cb option"
  tr_closed :: bool
  tr_closeCh :: chan

definition NewTWCCReceiver :: "TWCCConfig \<Rightarrow> 'cb TWCCReceiver" where
  "NewTWCCReceiver config =
     \<lparr>tr_config = config, tr_packets = [], tr_estimatedBitrate = InitialBitrate config,
      tr_lossRate = Fin 0, tr_rtt = 0, tr_onBitrateChange = None,
      tr_closed = False, tr_closeCh = ChOpen\<rparr>"

definition TWCCReceiver_OnBitrateChange :: "'cb \<Rightarrow> 'cb TWCCReceiver \<Rightarrow> 'cb TWCCReceiver" where
  "TWCCReceiver_OnBitrateChange cb t = t\<lparr>tr_onBitrateChange := Some cb\<rparr>"

text \<open>Packets that arrived before \<open>now\<close> less five seconds are dropped.\<close>

definition cleanupOldPackets :: "gotime \<Rightarrow> 'cb TWCCReceiver \<Rightarrow> 'cb TWCCReceiver" where
  "cleanupOldPackets now t =
     (let threshold = now - 5 * second
      in t\<lparr>tr_packets := filter (\<lambda>e. \<not> pi_ArrivalTime (snd e) < threshold) (tr_packets t)\<rparr>)"

text \<open>\<open>now\<close> is the arrival time, \<open>now'\<close> the clock reading of the clean-up.\<close>

definition TWCCReceiver_RecordPacket ::
  "gotime \<Rightarrow> gotime \<Rightarrow> u16 \<Rightarrow> int \<Rightarrow> 'cb TWCCReceiver \<Rightarrow> 'cb TWCCReceiver" where
  "TWCCReceiver_RecordPacket now now' seqNum sz t =
     (if tr_closed t then t
      else (let t' = t\<lparr>tr_packets := gm_put seqNum
                        \<lparr>pi_SequenceNumber = seqNum, pi_ArrivalTime = now, pi_Size = sz\<rparr>
                        (tr_packets t)\<rparr>
            in if length (tr_packets t') > 1000 then cleanupOldPackets now' t' else t'))"

definition TWCCReceiver_GetEstimatedBitrate :: "'cb TWCCReceiver \<Rightarrow> u64" where
  "TWCCReceiver_GetEstimatedBitrate t = tr_estimatedBitrate t"

definition TWCCReceiver_GetLossRate :: "'cb TWCCReceiver \<Rightarrow> float64" where
  "TWCCReceiver_GetLossRate t = tr_lossRate t"

definition TWCCReceiver_GetRTT :: "'cb TWCCReceiver \<Rightarrow> duration" where
  "TWCCReceiver_GetRTT t = tr_rtt t"

definition TWCCReceiver_Close :: "'cb TWCCReceiver \<Rightarrow> 'cb TWCCReceiver option" where
  "TWCCReceiver_Close t =
     (if tr_closed t then Some t
      else (case close_chan (tr_closeCh t) of
              None \<Rightarrow> None
            | Some ch \<Rightarrow> Some (t\<lparr>tr_closed := True, tr_closeCh := ch\<rparr>)))"

subsection \<open>The sender\<close>

text \<open>
  Symbolic names stand for the constants of \<open>pion/rtcp\<close>, whose numeric values the code
  only passes on. A \<open>Delta\<close> is an \<open>int64\<close>.
\<close>

datatype rtcp_const = FormatTCC | TypeTransportSpecificFeedback | TypeTCCPacketReceivedSmallDelta

record RecvDelta =
  rd_Type :: rtcp_const
  rd_Delta :: "64 word"

record TransportLayerCC =
  hdr_Count :: rtcp_const
  hdr_Type :: rtcp_const
  hdr_Length :: u16
  MediaSSRC :: u32
  BaseSequenceNumber :: u16
  PacketStatusCount :: u16
  ReferenceTime :: u32
  FbPktCount :: u8
  RecvDeltas :: "RecvDelta list"

record 'cb TWCCSender =
  ts_config :: TWCCConfig
  ts_referenceTime :: gotime
  ts_packets :: "PacketInfo list"
  ts_feedbackCount :: u8
  ts_onFeedback :: "'cb option"
  ts_closed :: bool
  ts_closeCh :: chan

definition NewTWCCSender :: "TWCCConfig \<Rightarrow> gotime \<Rightarrow> 'cb TWCCSender" where
  "NewTWCCSender config now =
     \<lparr>ts_config = config, ts_referenceTime = now, ts_packets = [], ts_feedbackCount = 0,
      ts_onFeedback = None, ts_closed = False, ts_closeCh = ChOpen\<rparr>"

definition TWCCSender_OnFeedback :: "'cb \<Rightarrow> 'cb TWCCSender \<Rightarrow> 'cb TWCCSender" where
  "TWCCSender_OnFeedback cb t = t\<lparr>ts_onFeedback := Some cb\<rparr>"

definition TWCCSender_RecordPacket ::
  "gotime \<Rightarrow> u16 \<Rightarrow> int \<Rightarrow> 'cb TWCCSender \<Rightarrow> 'cb TWCCSender" where
  "TWCCSender_RecordPacket now seqNum sz t =
     (if ts_closed t then t
      else t\<lparr>ts_packets := ts_packets t @
             [\<lparr>pi_SequenceNumber = seqNum, pi_ArrivalTime = now, pi_Size = sz\<rparr>]\<rparr>)"

text \<open>Go's integer division truncates towards zero; \<open>%\<close> takes the sign of the dividend.\<close>

definition godiv :: "int \<Rightarrow> int \<Rightarrow> int" where
  "godiv a b = sgn a * sgn b * (\<bar>a\<bar> div \<bar>b\<bar>)"

definition gomod :: "int \<Rightarrow> int \<Rightarrow> int" where
  "gomod a b = a - godiv a b * b"

lemma godiv_nonneg: "0 \<le> a \<Longrightarrow> 0 < b \<Longrightarrow> godiv a b = a div b"
  by (cases "a = 0") (simp_all add: godiv_def)

text \<open>Nanoseconds from Go's zero time (January 1, year 1) to the Unix epoch.\<close>

definition unixEpoch :: gotime where "unixEpoch = 62135596800 * second"

definition UnixNano :: "gotime \<Rightarrow> 64 word" where
  "UnixNano t = word_of_int (t - unixEpoch)"

definition recvDelta :: "gotime \<Rightarrow> PacketInfo \<Rightarrow> RecvDelta" where
  "recvDelta referenceTime p =
     (let delta = timeSub (pi_ArrivalTime p) referenceTime
      in \<lparr>rd_Type = TypeTCCPacketReceivedSmallDelta,
          rd_Delta = word_of_int (godiv delta 1000) * 250\<rparr>)"

definition baseSequence :: "u16 \<Rightarrow> PacketInfo list \<Rightarrow> u16" where
  "baseSequence b packets =
     foldl (\<lambda>b p. if pi_SequenceNumber p < b then pi_SequenceNumber p else b) b packets"

definition buildFeedback :: "'cb TWCCSender \<Rightarrow> PacketInfo list \<Rightarrow> TransportLayerCC option" where
  "buildFeedback t packets =
     (case packets of
        [] \<Rightarrow> None
      | p0 # _ \<Rightarrow> Some
         \<lparr>hdr_Count = FormatTCC, hdr_Type = TypeTransportSpecificFeedback, hdr_Length = 0,
          MediaSSRC = 0,
          BaseSequenceNumber = baseSequence (pi_SequenceNumber p0) packets,
          PacketStatusCount = of_nat (length packets),
          ReferenceTime = word_of_int (godiv (sint (UnixNano (ts_referenceTime t))) 64000),
          FbPktCount = ts_feedbackCount t,
          RecvDeltas = map (recvDelta (ts_referenceTime t)) packets\<rparr>)"

text \<open>The second component is the call of \<open>onFeedback\<close>, if there is one.\<close>

definition sendFeedback :: "'cb TWCCSender \<Rightarrow> 'cb TWCCSender \<times> ('cb \<times> TransportLayerCC list) list" where
  "sendFeedback t =
     (if ts_closed t \<or> length (ts_packets t) = 0 then (t, [])
      else (let packets = ts_packets t;
                t' = t\<lparr>ts_packets := [], ts_feedbackCount := ts_feedbackCount t + 1\<rparr>
            in case ts_onFeedback t' of
                 None \<Rightarrow> (t', [])
               | Some callback \<Rightarrow>
                   (case buildFeedback t' packets of
                      None \<Rightarrow> (t', [])
                    | Some feedback \<Rightarrow> (t', [(callback, [feedback])]))))"

definition TWCCSender_Close :: "'cb TWCCSender \<Rightarrow> 'cb TWCCSender option" where
  "TWCCSender_Close t =
     (if ts_closed t then Some t
      else (case close_chan (ts_closeCh t) of
              None \<Rightarrow> None
            | Some ch \<Rightarrow> Some (t\<lparr>ts_closed := True, ts_closeCh := ch\<rparr>)))"

text \<open>
  The goroutine of \<open>Start\<close>: each round of \<open>feedbackLoop\<close> ends the loop when the close
  channel is closed, and otherwise may serve a tick. When both are ready the \<open>select\<close>
  picks either, which \<open>pickClose\<close> decides. \<open>None\<close> is the end of the loop.
\<close>

definition feedbackLoop_round ::
  "bool \<Rightarrow> 'cb TWCCSender \<Rightarrow> ('cb TWCCSender \<times> ('cb \<times> TransportLayerCC list) list) option" where
  "feedbackLoop_round pickClose t =
     (if ts_closeCh t = ChClosed \<and> pickClose then None else Some (sendFeedback t))"


subsection \<open>The receiver: what its operations keep\<close>

definition tr_inv :: "'cb TWCCReceiver \<Rightarrow> bool" where
  "tr_inv t \<longleftrightarrow> gm_ok (tr_packets t) \<and> (tr_closeCh t = ChClosed \<longleftrightarrow> tr_closed t)"

lemma tr_inv_New [intro]: "tr_inv (NewTWCCReceiver config)"
  by (simp add: tr_inv_def NewTWCCReceiver_def)

lemma tr_inv_Record: "tr_inv t \<Longrightarrow> tr_inv (TWCCReceiver_RecordPacket now now' q sz t)"
  by (simp add: tr_inv_def TWCCReceiver_RecordPacket_def cleanupOldPackets_def Let_def gm_ok_filter)

interpretation twccReceiver: guarded TWCCReceiver_Close tr_closed tr_inv
  "\<lambda>(now, now', q, sz). TWCCReceiver_RecordPacket now now' q sz"
proof unfold_locales
  show "tr_inv t \<Longrightarrow> \<exists>t'. TWCCReceiver_Close t = Some t' \<and> tr_inv t' \<and> tr_closed t'"
    for t :: "'a TWCCReceiver"
    by (cases "tr_closeCh t") (auto simp: tr_inv_def TWCCReceiver_Close_def)
  show "tr_closed t \<Longrightarrow> TWCCReceiver_Close t = Some t" for t :: "'a TWCCReceiver"
    by (simp add: TWCCReceiver_Close_def)
qed (auto simp: TWCCReceiver_RecordPacket_def [of _ _ _ _ _] intro: tr_inv_Record)

datatype 'cb tr_event = TR_Record gotime gotime u16 int | TR_Callback 'cb

fun trStep :: "'cb TWCCReceiver \<Rightarrow> 'cb tr_event \<Rightarrow> 'cb TWCCReceiver" where
  "trStep t (TR_Record now now' q sz) = TWCCReceiver_RecordPacket now now' q sz t"
| "trStep t (TR_Callback cb) = TWCCReceiver_OnBitrateChange cb t"

lemma trStep_estimates:
  "tr_estimatedBitrate (trStep t e) = tr_estimatedBitrate t
   \<and> tr_lossRate (trStep t e) = tr_lossRate t \<and> tr_rtt (trStep t e) = tr_rtt t"
  by (cases e) (simp_all add: TWCCReceiver_RecordPacket_def TWCCReceiver_OnBitrateChange_def
      cleanupOldPackets_def Let_def)

lemma trRun_estimates:
  "tr_estimatedBitrate (run trStep t es) = tr_estimatedBitrate t
   \<and> tr_lossRate (run trStep t es) = tr_lossRate t \<and> tr_rtt (run trStep t es) = tr_rtt t"
  by (induction es arbitrary: t) (simp_all add: trStep_estimates)

lemma trRun_open:
  "tr_inv t \<Longrightarrow> \<not> tr_closed t \<Longrightarrow>
   tr_inv (run trStep t es) \<and> \<not> tr_closed (run trStep t es) \<and> tr_closeCh (run trStep t es) = ChOpen"
proof (induction es arbitrary: t)
  case Nil
  then show ?case by (cases "tr_closeCh t") (auto simp: tr_inv_def)
next
  case (Cons e es)
  have "tr_inv (trStep t e)" and "\<not> tr_closed (trStep t e)"
    using Cons.prems tr_inv_Record
    by (cases e; auto simp: TWCCReceiver_OnBitrateChange_def tr_inv_def
        TWCCReceiver_RecordPacket_def cleanupOldPackets_def Let_def gm_ok_filter)+
  then show ?case using Cons.IH by simp
qed

lemma Record_fresh:
  assumes "\<not> tr_closed t" "gm_get (tr_packets t) q = None"
    and "\<forall>e \<in> set (tr_packets t). now' - 5 * second \<le> pi_ArrivalTime (snd e)"
    and "now' - 5 * second \<le> now"
  shows "TWCCReceiver_RecordPacket now now' q sz t =
         t\<lparr>tr_packets := tr_packets t @
            [(q, \<lparr>pi_SequenceNumber = q, pi_ArrivalTime = now, pi_Size = sz\<rparr>)]\<rparr>"
proof -
  have "filter (\<lambda>e. \<not> pi_ArrivalTime (snd e) < now' - 5 * second) (tr_packets t) = tr_packets t"
    using assms(3) by (intro filter_True) auto
  then show ?thesis
    using assms(1,2,4) by (simp add: TWCCReceiver_RecordPacket_def cleanupOldPackets_def
        Let_def gm_put_fresh)
qed

lemma Record_burst:
  assumes "\<not> tr_closed t" "distinct qs" "\<forall>q \<in> set qs. gm_get (tr_packets t) q = None"
    and "\<forall>e \<in> set (tr_packets t). now - 5 * second \<le> pi_ArrivalTime (snd e)"
  shows "tr_packets (fold (\<lambda>q. TWCCReceiver_RecordPacket now now q sz) qs t) = tr_packets t @
           map (\<lambda>q. (q, \<lparr>pi_SequenceNumber = q, pi_ArrivalTime = now, pi_Size = sz\<rparr>)) qs"
  using assms
proof (induction qs arbitrary: t)
  case Nil
  then show ?case by simp
next
  case (Cons q qs)
  let ?x = "(q, \<lparr>pi_SequenceNumber = q, pi_ArrivalTime = now, pi_Size = sz\<rparr>)"
  have now: "now - 5 * second \<le> now" by (simp add: second_def)
  have r: "TWCCReceiver_RecordPacket now now q sz t = t\<lparr>tr_packets := tr_packets t @ [?x]\<rparr>"
    using Cons.prems now by (intro Record_fresh) auto
  have "tr_packets (fold (\<lambda>q. TWCCReceiver_RecordPacket now now q sz) qs
          (t\<lparr>tr_packets := tr_packets t @ [?x]\<rparr>)) = (tr_packets t @ [?x]) @
           map (\<lambda>q. (q, \<lparr>pi_SequenceNumber = q, pi_ArrivalTime = now, pi_Size = sz\<rparr>)) qs"
    using Cons.prems now by (subst Cons.IH) (auto simp: gm_get_def map_add_def)
  then show ?case by (simp add: r)
qed

lemma distinct_seqs: "n \<le> 65536 \<Longrightarrow> distinct (map (\<lambda>i. of_nat i :: u16) [0..<n])"
  by (auto simp: distinct_map inj_on_def word_of_nat_eq_iff take_bit_nat_eq_self)

subsection \<open>The sender: what its operations keep\<close>

definition ts_inv :: "'cb TWCCSender \<Rightarrow> bool" where
  "ts_inv t \<longleftrightarrow> (ts_closeCh t = ChClosed \<longleftrightarrow> ts_closed t)"

lemma ts_inv_Record: "ts_inv t \<Longrightarrow> ts_inv (TWCCSender_RecordPacket now q sz t)"
  by (simp add: ts_inv_def TWCCSender_RecordPacket_def)

interpretation twccSender: guarded TWCCSender_Close ts_closed ts_inv
  "\<lambda>(now, q, sz). TWCCSender_RecordPacket now q sz"
proof unfold_locales
  show "ts_inv t \<Longrightarrow> \<exists>t'. TWCCSender_Close t = Some t' \<and> ts_inv t' \<and> ts_closed t'"
    for t :: "'a TWCCSender"
    by (cases "ts_closeCh t") (auto simp: ts_inv_def TWCCSender_Close_def)
  show "ts_closed t \<Longrightarrow> TWCCSender_Close t = Some t" for t :: "'a TWCCSender"
    by (simp add: TWCCSender_Close_def)
qed (auto simp: TWCCSender_RecordPacket_def ts_inv_def)

lemma ts_Record_flags:
  "ts_closed (TWCCSender_RecordPacket now q sz t) = ts_closed t"
  "ts_closeCh (TWCCSender_RecordPacket now q sz t) = ts_closeCh t"
  by (simp_all add: TWCCSender_RecordPacket_def)

lemma tsRecords_open:
  "ts_closed (fold (\<lambda>(now, q, sz). TWCCSender_RecordPacket now q sz) ps t) = ts_closed t
   \<and> ts_closeCh (fold (\<lambda>(now, q, sz). TWCCSender_RecordPacket now q sz) ps t) = ts_closeCh t"
  by (induction ps arbitrary: t) (simp_all add: ts_Record_flags split: prod.splits)

datatype 'cb ts_event = TS_Record gotime u16 int | TS_Tick | TS_Callback 'cb

fun tsStep :: "'cb TWCCSender \<Rightarrow> 'cb ts_event \<Rightarrow> 'cb TWCCSender \<times> ('cb \<times> TransportLayerCC list) list" where
  "tsStep t (TS_Record now q sz) = (TWCCSender_RecordPacket now q sz t, [])"
| "tsStep t TS_Tick = sendFeedback t"
| "tsStep t (TS_Callback cb) = (TWCCSender_OnFeedback cb t, [])"

text \<open>A run returns the feedback calls in the order they are made.\<close>

fun tsRun :: "'cb TWCCSender \<Rightarrow> 'cb ts_event list \<Rightarrow> 'cb TWCCSender \<times> ('cb \<times> TransportLayerCC list) list" where
  "tsRun t [] = (t, [])"
| "tsRun t (e # es) = (let (t', calls) = tsStep t e; (t'', calls') = tsRun t' es
                        in (t'', calls @ calls'))"

fun recordedOf :: "'cb ts_event list \<Rightarrow> PacketInfo list" where
  "recordedOf [] = []"
| "recordedOf (TS_Record now q sz # es) =
     \<lparr>pi_SequenceNumber = q, pi_ArrivalTime = now, pi_Size = sz\<rparr> # recordedOf es"
| "recordedOf (e # es) = recordedOf es"

definition deltasOf :: "('cb \<times> TransportLayerCC list) list \<Rightarrow> RecvDelta list" where
  "deltasOf calls = concat (map (\<lambda>(cb, pkts). concat (map RecvDeltas pkts)) calls)"

lemma deltasOf_simps [simp]:
  "deltasOf [] = []" "deltasOf (xs @ ys) = deltasOf xs @ deltasOf ys"
  by (simp_all add: deltasOf_def)

lemma sendFeedback_accounts:
  assumes "ts_onFeedback t \<noteq> None" "\<not> ts_closed t" "sendFeedback t = (t', calls)"
  shows "deltasOf calls @ map (recvDelta (ts_referenceTime t)) (ts_packets t')
           = map (recvDelta (ts_referenceTime t)) (ts_packets t)
       \<and> ts_referenceTime t' = ts_referenceTime t \<and> ts_onFeedback t' = ts_onFeedback t
       \<and> ts_closed t' = ts_closed t"
  using assms
  by (cases "ts_packets t") (auto simp: sendFeedback_def buildFeedback_def Let_def deltasOf_def)

lemma tsStep_accounts:
  assumes "ts_onFeedback t \<noteq> None" "\<not> ts_closed t" "tsStep t e = (t', calls)"
  shows "deltasOf calls @ map (recvDelta (ts_referenceTime t)) (ts_packets t')
           = map (recvDelta (ts_referenceTime t)) (ts_packets t @ recordedOf [e])
       \<and> ts_referenceTime t' = ts_referenceTime t \<and> ts_onFeedback t' \<noteq> None
       \<and> \<not> ts_closed t'"
proof (cases e)
  case TS_Tick
  with assms sendFeedback_accounts [of t t' calls] show ?thesis by auto
qed (use assms in \<open>auto simp: TWCCSender_RecordPacket_def TWCCSender_OnFeedback_def\<close>)

lemma recordedOf_Cons: "recordedOf (e # es) = recordedOf [e] @ recordedOf es"
  by (cases e) simp_all

lemma tsRun_accounts:
  assumes "ts_onFeedback t \<noteq> None" "\<not> ts_closed t" "tsRun t es = (t', calls)"
  shows "deltasOf calls @ map (recvDelta (ts_referenceTime t)) (ts_packets t')
           = map (recvDelta (ts_referenceTime t)) (ts_packets t @ recordedOf es)"
  using assms
proof (induction es arbitrary: t calls)
  case Nil
  then show ?case by simp
next
  case (Cons e es)
  obtain t1 c1 where 1: "tsStep t e = (t1, c1)" by fastforce
  obtain t2 c2 where 2: "tsRun t1 es = (t2, c2)" by fastforce
  from Cons.prems 1 2 have res: "t' = t2" "calls = c1 @ c2" by simp_all
  note s = tsStep_accounts [OF Cons.prems(1,2) 1]
  from Cons.IH [OF _ _ 2 [folded res(1)]] s
  have "deltasOf c2 @ map (recvDelta (ts_referenceTime t)) (ts_packets t')
      = map (recvDelta (ts_referenceTime t)) (ts_packets t1 @ recordedOf es)"
    by simp
  then have "deltasOf calls @ map (recvDelta (ts_referenceTime t)) (ts_packets t')
      = (deltasOf c1 @ map (recvDelta (ts_referenceTime t)) (ts_packets t1))
        @ map (recvDelta (ts_referenceTime t)) (recordedOf es)"
    by (simp add: res)
  then show ?case using s by (simp add: recordedOf_Cons [of e es])
qed

lemma baseSequence_le:
  "baseSequence b ps \<le> b \<and> (\<forall>p \<in> set ps. baseSequence b ps \<le> pi_SequenceNumber p)
   \<and> baseSequence b ps \<in> insert b (pi_SequenceNumber ` set ps)"
proof (induction ps arbitrary: b)
  case Nil
  then show ?case by (simp add: baseSequence_def)
next
  case (Cons p ps)
  define c where "c = (if pi_SequenceNumber p < b then pi_SequenceNumber p else b)"
  have "baseSequence b (p # ps) = baseSequence c ps"
    by (simp add: baseSequence_def c_def)
  then show ?case using Cons.IH [of c] by (auto simp: c_def split: if_splits)
qed


subsection \<open>Properties\<close>



text \<open>What one tick reports: nothing from a closed sender or without packets;
  otherwise the waiting packets are taken, the feedback count goes up by one (modulo 256),
  and, if there is a callback, it gets one message with the new count, the number of
  packets modulo \<open>2 ^ 16\<close>, one delta per packet, and as base the least of their sequence
  numbers. Without a callback the taken packets are dropped.\<close>

theorem sendFeedback_spec:
  "sendFeedback t =
     (if ts_closed t \<or> ts_packets t = [] then (t, [])
      else (t\<lparr>ts_packets := [], ts_feedbackCount := ts_feedbackCount t + 1\<rparr>,
            case ts_onFeedback t of
              None \<Rightarrow> []
            | Some cb \<Rightarrow> [(cb, [\<lparr>hdr_Count = FormatTCC, hdr_Type = TypeTransportSpecificFeedback,
                hdr_Length = 0, MediaSSRC = 0,
                BaseSequenceNumber = Min (pi_SequenceNumber ` set (ts_packets t)),
                PacketStatusCount = of_nat (length (ts_packets t)),
                ReferenceTime = word_of_int (godiv (sint (UnixNano (ts_referenceTime t))) 64000),
                FbPktCount = ts_feedbackCount t + 1,
                RecvDeltas = map (recvDelta (ts_referenceTime t)) (ts_packets t)\<rparr>])]))"
proof (cases "ts_packets t")
  case Nil
  then show ?thesis by (simp add: sendFeedback_def)
next
  case (Cons p ps)
  have "Min (pi_SequenceNumber ` set (p # ps)) = baseSequence (pi_SequenceNumber p) (p # ps)"
    using baseSequence_le [of "pi_SequenceNumber p" "p # ps"] by (intro Min_eqI) auto
  then show ?thesis
    using Cons by (auto simp: sendFeedback_def buildFeedback_def Let_def split: option.splits)
qed

text \<open>The units of a feedback message are not the ones its comments name. A reference
  time of 64 ms after the epoch is reported as 1000 (the divisor 64000 makes units of 64
  microseconds), and a packet that arrives one millisecond after it is given the delta
  250000, where the comment's unit of 250 microseconds would give 4; and a base sequence
  number is the least number even across a wrap, so packets 65535 and 0 get base 0.\<close>

theorem feedback_units:
  "map_option (\<lambda>f. (ReferenceTime f, map rd_Delta (RecvDeltas f), BaseSequenceNumber f))
     (buildFeedback (NewTWCCSender DefaultTWCCConfig (unixEpoch + 64 * millisecond))
       [\<lparr>pi_SequenceNumber = 65535, pi_ArrivalTime = unixEpoch + 65 * millisecond, pi_Size = 9\<rparr>,
        \<lparr>pi_SequenceNumber = 0, pi_ArrivalTime = unixEpoch + 65 * millisecond, pi_Size = 9\<rparr>])
   = Some (1000, [250000, 250000], 0)"
  by (simp add: buildFeedback_def NewTWCCSender_def recvDelta_def timeSub_def UnixNano_def
      unixEpoch_def millisecond_def second_def maxDuration_def minDuration_def godiv_def
      baseSequence_def)

text \<open>The receiver never estimates anything. Whatever packets are recorded and whatever
  callback is set, the bit rate it reports is the configured initial one, the loss rate is
  zero and the round-trip time is zero.\<close>

theorem receiver_never_estimates:
  fixes es :: "'cb tr_event list" and config :: TWCCConfig
  defines "t \<equiv> run trStep (NewTWCCReceiver config) es"
  shows "TWCCReceiver_GetEstimatedBitrate t = InitialBitrate config
    \<and> TWCCReceiver_GetLossRate t = Fin 0 \<and> TWCCReceiver_GetRTT t = 0"
  unfolding t_def
  by (simp add: trRun_estimates TWCCReceiver_GetEstimatedBitrate_def
      TWCCReceiver_GetLossRate_def TWCCReceiver_GetRTT_def NewTWCCReceiver_def)

text \<open>The clean-up does not keep the last 1000 packets: it removes by age only, so any
  number of packets with different sequence numbers that arrive at once, up to all 65536,
  are all kept.\<close>

theorem receiver_keeps_burst:
  assumes "n \<le> 65536"
  shows "length (tr_packets (fold (\<lambda>q. TWCCReceiver_RecordPacket now now q sz)
           (map of_nat [0..<n]) (NewTWCCReceiver config))) = n"
  using distinct_seqs [OF assms]
  by (subst Record_burst) (simp_all add: NewTWCCReceiver_def)

theorem receiver_keeps_burst_witness:
  "length (tr_packets (fold (\<lambda>q. TWCCReceiver_RecordPacket 0 0 q 1200)
     (map of_nat [0..<1500]) (NewTWCCReceiver DefaultTWCCConfig :: unit TWCCReceiver))) = 1500"
  by (rule receiver_keeps_burst) simp

text \<open>Whatever was recorded before, closing a receiver or a sender any positive number
  of times closes its channel exactly once (no panic on a closed channel), keeps its data,
  and leaves it in a state in which recording a packet changes nothing.\<close>

theorem twcc_close_once:
  fixes es :: "'cb tr_event list" and ps :: "(gotime \<times> u16 \<times> int) list" and config :: TWCCConfig
    and start :: gotime
  defines "r \<equiv> run trStep (NewTWCCReceiver config) es"
    and "s \<equiv> fold (\<lambda>(now, q, sz). TWCCSender_RecordPacket now q sz) ps
               (NewTWCCSender config start :: 'cb TWCCSender)"
  defines "r' \<equiv> r\<lparr>tr_closed := True, tr_closeCh := ChClosed\<rparr>"
    and "s' \<equiv> s\<lparr>ts_closed := True, ts_closeCh := ChClosed\<rparr>"
  shows "closeTimes TWCCReceiver_Close (Suc n) r = Some r'
    \<and> closeTimes TWCCSender_Close (Suc n) s = Some s'
    \<and> TWCCReceiver_RecordPacket now now' q sz r' = r'
    \<and> TWCCSender_RecordPacket now q sz s' = s'"
proof -
  have inv: "tr_inv r" "\<not> tr_closed r" "tr_closeCh r = ChOpen"
    using trRun_open [of "NewTWCCReceiver config" es]
    by (auto simp: r_def NewTWCCReceiver_def tr_inv_def)
  have "ts_inv (NewTWCCSender config start :: 'cb TWCCSender)"
    by (simp add: ts_inv_def NewTWCCSender_def)
  then have inv': "ts_inv s" "\<not> ts_closed s" "ts_closeCh s = ChOpen"
    using tsRecords_open [of ps "NewTWCCSender config start :: 'cb TWCCSender"]
    by (auto simp: s_def NewTWCCSender_def twccSender.acts_inv)
  show ?thesis
    using inv inv'
    by (simp add: twccReceiver.closeTimes_once twccSender.closeTimes_once r'_def s'_def
        TWCCReceiver_Close_def TWCCSender_Close_def TWCCReceiver_RecordPacket_def
        TWCCSender_RecordPacket_def del: closeTimes.simps)
qed

end
