(* ===== verification/Estimator.thy ===== *)
theory Estimator
  imports Twcc
begin

section \<open>The bandwidth estimator (\<open>twcc.go\<close>)\<close>

text \<open>
  \<open>BandwidthEstimator\<close>, which turns throughput and loss into a bit rate, and
  \<open>CongestionController\<close>, which wraps pion's estimator.
\<close>

subsection \<open>The bandwidth estimator\<close>

record bitratePoint =
  bp_timestamp :: gotime
  bp_bitrate :: u64
  bp_lossRate :: float64

record 'cb BandwidthEstimator =
  be_config :: TWCCConfig
  be_estimatedBitrate :: u64
  be_targetBitrate :: u64
  be_lossBasedEstimate :: u64
  be_delayBasedEstimate :: u64
  be_lastUpdate :: gotime
  be_history :: "bitratePoint list"
  be_onEstimate :: "'cb option"

definition NewBandwidthEstimator :: "TWCCConfig \<Rightarrow> 'cb BandwidthEstimator" where
  "NewBandwidthEstimator config =
     \<lparr>be_config = config, be_estimatedBitrate = InitialBitrate config,
      be_targetBitrate = InitialBitrate config, be_lossBasedEstimate = 0,
      be_delayBasedEstimate = 0, be_lastUpdate = 0, be_history = [], be_onEstimate = None\<rparr>"

definition OnEstimate :: "'cb \<Rightarrow> 'cb BandwidthEstimator \<Rightarrow> 'cb BandwidthEstimator" where
  "OnEstimate cb b = b\<lparr>be_onEstimate := Some cb\<rparr>"

text \<open>\<open>Duration.Seconds\<close>: whole seconds plus the nanoseconds divided by \<open>10 ^ 9\<close>.\<close>

definition Seconds :: "duration \<Rightarrow> rat" where
  "Seconds d = f64add (f64 (of_int (godiv d second)))
                      (f64div (f64 (of_int (gomod d second))) (f64 1000000000))"

text \<open>The constants are the \<open>float64\<close> values nearest to the decimal literals.\<close>

definition calculateLossBasedEstimate :: "(rat \<Rightarrow> u64) \<Rightarrow> u64 \<Rightarrow> float64 \<Rightarrow> u64" where
  "calculateLossBasedEstimate conv currentBitrate lossRate =
     (if f64lt (Fin (f64 (1/10))) lossRate
      then u64_of_f64 conv (f64mul (f64_of_u64 currentBitrate) (f64 (1/2)))
      else if f64lt (Fin (f64 (2/100))) lossRate
      then u64_of_f64 conv (f64mul (f64_of_u64 currentBitrate) (f64 (85/100)))
      else if f64lt lossRate (Fin (f64 (1/100)))
      then u64_of_f64 conv (f64mul (f64_of_u64 currentBitrate) (f64 (105/100)))
      else currentBitrate)"

definition combineEstimates :: "'cb BandwidthEstimator \<Rightarrow> u64" where
  "combineEstimates b =
     (if be_delayBasedEstimate b > 0 \<and> be_lossBasedEstimate b > 0
      then (if be_delayBasedEstimate b < be_lossBasedEstimate b
            then be_delayBasedEstimate b else be_lossBasedEstimate b)
      else if be_lossBasedEstimate b > 0 then be_lossBasedEstimate b
      else be_estimatedBitrate b)"

definition clampBitrate :: "u64 \<Rightarrow> u64 \<Rightarrow> u64 \<Rightarrow> u64" where
  "clampBitrate bitrate mn mx =
     (if bitrate < mn then mn else if bitrate > mx then mx else bitrate)"

definition instantBitrate :: "(rat \<Rightarrow> u64) \<Rightarrow> u64 \<Rightarrow> duration \<Rightarrow> u64" where
  "instantBitrate conv receivedBytes dur =
     u64_of_f64 conv (f64div (f64_of_u64 (receivedBytes * 8)) (Seconds dur))"

text \<open>
  \<open>Update\<close> also returns the calls of \<open>onEstimate\<close> it starts in a goroutine, each with the
  estimate at that moment.
\<close>

definition Update ::
  "(rat \<Rightarrow> u64) \<Rightarrow> gotime \<Rightarrow> u64 \<Rightarrow> duration \<Rightarrow> float64 \<Rightarrow> 'cb BandwidthEstimator
   \<Rightarrow> 'cb BandwidthEstimator \<times> ('cb \<times> u64) list" where
  "Update conv now receivedBytes dur lossRate b =
     (let b' =
        (if dur > 0
         then (let b1 = b\<lparr>be_lossBasedEstimate :=
                     calculateLossBasedEstimate conv (instantBitrate conv receivedBytes dur) lossRate\<rparr>;
                   b2 = b1\<lparr>be_estimatedBitrate := combineEstimates b1\<rparr>;
                   b3 = b2\<lparr>be_estimatedBitrate :=
                     clampBitrate (be_estimatedBitrate b2) (MinBitrate (be_config b2))
                                  (MaxBitrate (be_config b2))\<rparr>;
                   h = be_history b3 @ [\<lparr>bp_timestamp = now, bp_bitrate = be_estimatedBitrate b3,
                                         bp_lossRate = lossRate\<rparr>]
               in b3\<lparr>be_history := (if length h > 100 then tl h else h), be_lastUpdate := now\<rparr>)
         else b)
      in (b', case be_onEstimate b' of None \<Rightarrow> [] | Some cb \<Rightarrow> [(cb, be_estimatedBitrate b')]))"

definition GetEstimate :: "'cb BandwidthEstimator \<Rightarrow> u64" where
  "GetEstimate b = be_estimatedBitrate b"

definition SetDelayBasedEstimate :: "u64 \<Rightarrow> 'cb BandwidthEstimator \<Rightarrow> 'cb BandwidthEstimator" where
  "SetDelayBasedEstimate bitrate b = b\<lparr>be_delayBasedEstimate := bitrate\<rparr>"

subsection \<open>The congestion controller\<close>

text \<open>
  \<open>estimator\<close> is an object of pion's \<open>cc\<close> package behind an interface; its method
  \<open>GetTargetBitrate\<close> is the parameter \<open>targetOf\<close>. \<open>int(x)\<close> of a \<open>uint64\<close> keeps the bits.
\<close>

record 'e CongestionController =
  cc_estimator :: "'e option"
  cc_config :: TWCCConfig

definition NewCongestionController :: "TWCCConfig \<Rightarrow> 'e CongestionController" where
  "NewCongestionController config = \<lparr>cc_estimator = None, cc_config = config\<rparr>"

definition SetEstimator :: "'e option \<Rightarrow> 'e CongestionController \<Rightarrow> 'e CongestionController" where
  "SetEstimator estimator c = c\<lparr>cc_estimator := estimator\<rparr>"

definition CongestionController_GetTargetBitrate ::
  "('e \<Rightarrow> int) \<Rightarrow> 'e CongestionController \<Rightarrow> int" where
  "CongestionController_GetTargetBitrate targetOf c =
     (case cc_estimator c of
        None \<Rightarrow> sint (InitialBitrate (cc_config c))
      | Some e \<Rightarrow> targetOf e)"


subsection \<open>The bounds of the loss-based estimate\<close>

lemma unsigned_rat_nonneg [simp]: "0 \<le> (unsigned (w :: u64) :: rat)"
proof -
  have "0 \<le> (of_int (uint w) :: rat)" by (simp only: of_int_0_le_iff uint_ge_0)
  then show ?thesis by simp
qed

lemma f64_of_u64_bounds:
  "0 \<le> f64_of_u64 w" "f64_of_u64 w \<le> of_int (uint w) * (1 + 1 / 2 ^ 53)"
  "of_int (uint w) * (1 - 1 / 2 ^ 53) \<le> f64_of_u64 w"
  unfolding f64_of_u64_def by (simp_all only: f64_nonneg f64_upper f64_lower of_int_0_le_iff uint_ge_0)

text \<open>Scaling a bit rate by a decimal constant: three roundings, so three error factors.\<close>

lemma scale_upper:
  assumes "0 \<le> k" "k * (1 + 1 / 2 ^ 53) ^ 3 \<le> hi"
  shows "f64mul (f64_of_u64 w) (f64 k) \<le> of_int (uint w) * hi"
proof -
  let ?e = "1 + 1 / 2 ^ 53 :: rat"
  have "f64mul (f64_of_u64 w) (f64 k) \<le> f64_of_u64 w * f64 k * ?e"
    unfolding f64mul_def using assms(1) by (intro f64_upper mult_nonneg_nonneg f64_of_u64_bounds f64_nonneg)
  also have "\<dots> \<le> (of_int (uint w) * ?e) * (k * ?e) * ?e"
    using assms(1) by (intro mult_right_mono mult_mono f64_of_u64_bounds f64_upper)
      (simp_all add: f64_nonneg)
  also have "\<dots> = of_int (uint w) * (k * ?e ^ 3)"
    by (simp add: power3_eq_cube)
  also have "\<dots> \<le> of_int (uint w) * hi"
    using assms(2) by (intro mult_left_mono) simp_all
  finally show ?thesis .
qed

lemma scale_lower:
  assumes "0 \<le> k" "lo \<le> k * (1 - 1 / 2 ^ 53) ^ 3"
  shows "of_int (uint w) * lo \<le> f64mul (f64_of_u64 w) (f64 k)"
proof -
  let ?e = "1 - 1 / 2 ^ 53 :: rat"
  have "of_int (uint w) * lo \<le> of_int (uint w) * (k * ?e ^ 3)"
    using assms(2) by (intro mult_left_mono) simp_all
  also have "\<dots> = (of_int (uint w) * ?e) * (k * ?e) * ?e"
    by (simp add: power3_eq_cube)
  also have "\<dots> \<le> f64_of_u64 w * f64 k * ?e"
    using assms(1) by (intro mult_right_mono mult_mono f64_of_u64_bounds f64_lower) simp_all
  also have "\<dots> \<le> f64mul (f64_of_u64 w) (f64 k)"
    unfolding f64mul_def using assms(1) by (intro f64_lower mult_nonneg_nonneg f64_of_u64_bounds f64_nonneg)
  finally show ?thesis .
qed

lemma scaled_rate:
  fixes lo hi :: int and conv :: "rat \<Rightarrow> u64" and k :: rat and w :: u64
  assumes k: "0 \<le> k" "of_int lo / 100 \<le> k * (1 - 1 / 2 ^ 53) ^ 3"
    "k * (1 + 1 / 2 ^ 53) ^ 3 \<le> of_int hi / 100"
    and fits: "uint w * hi < 100 * 2 ^ 64"
  defines "e \<equiv> uint (u64_of_f64 conv (f64mul (f64_of_u64 w) (f64 k)))"
  shows "lo * uint w < 100 * e + 100 \<and> 100 * e \<le> hi * uint w"
proof -
  let ?x = "f64mul (f64_of_u64 w) (f64 k)"
  have up: "?x \<le> of_int (uint w) * (of_int hi / 100)" by (rule scale_upper [OF k(1,3)])
  have low: "of_int (uint w) * (of_int lo / 100) \<le> ?x" by (rule scale_lower [OF k(1,2)])
  have nonneg: "0 \<le> ?x"
    unfolding f64mul_def using k(1) by (intro f64_nonneg mult_nonneg_nonneg f64_of_u64_bounds)
  have "of_int (uint w * hi) < (of_int (100 * 2 ^ 64) :: rat)"
    using fits by (simp only: of_int_less_iff)
  with up have lt: "?x < 2 ^ 64" by simp
  have e: "e = \<lfloor>?x\<rfloor>" unfolding e_def by (rule u64_of_f64_uint [OF nonneg lt])
  then have "of_int e \<le> ?x" "?x < of_int e + 1" using floor_correct [of ?x] by simp_all
  with up low have "(of_int (lo * uint w) :: rat) < of_int (100 * e + 100)"
    and "(of_int (100 * e) :: rat) \<le> of_int (hi * uint w)"
    by (simp_all add: field_simps)
  then show ?thesis by (simp only: of_int_less_iff of_int_le_iff)
qed

lemma u64_lt: "uint (w :: u64) < 2 ^ 64"
  using uint_lt2p [of w] by simp

lemma calculateLossBased_zero: "calculateLossBasedEstimate conv 0 lossRate = 0"
  by (simp add: calculateLossBasedEstimate_def f64_of_u64_def f64mul_def f64_def u64_of_f64_def)

lemma instantBitrate_zero: "instantBitrate conv 0 dur = 0"
  by (simp add: instantBitrate_def f64_of_u64_def f64div_def f64_def u64_of_f64_def)

subsection \<open>The bounds of the estimate\<close>

definition rateOK :: "TWCCConfig \<Rightarrow> u64 \<Rightarrow> bool" where
  "rateOK cfg r \<longleftrightarrow> r = InitialBitrate cfg \<or> MinBitrate cfg \<le> r \<and> r \<le> MaxBitrate cfg"

definition be_inv :: "TWCCConfig \<Rightarrow> 'cb BandwidthEstimator \<Rightarrow> bool" where
  "be_inv cfg b \<longleftrightarrow> be_config b = cfg \<and> MinBitrate cfg \<le> MaxBitrate cfg
     \<and> rateOK cfg (be_estimatedBitrate b) \<and> length (be_history b) \<le> 100
     \<and> (\<forall>h \<in> set (be_history b). MinBitrate cfg \<le> bp_bitrate h \<and> bp_bitrate h \<le> MaxBitrate cfg)"

lemma clampBitrate_bounds:
  "mn \<le> mx \<Longrightarrow> mn \<le> clampBitrate r mn mx \<and> clampBitrate r mn mx \<le> mx"
  by (auto simp: clampBitrate_def)

lemma clampBitrate_id: "mn \<le> r \<Longrightarrow> r \<le> mx \<Longrightarrow> clampBitrate r mn mx = r"
  by (auto simp: clampBitrate_def)

lemma be_inv_New:
  "MinBitrate cfg \<le> MaxBitrate cfg \<Longrightarrow> be_inv cfg (NewBandwidthEstimator cfg)"
  by (simp add: be_inv_def rateOK_def NewBandwidthEstimator_def)

lemma be_inv_OnEstimate: "be_inv cfg b \<Longrightarrow> be_inv cfg (OnEstimate cb b)"
  by (simp add: be_inv_def OnEstimate_def)

lemma be_inv_SetDelay: "be_inv cfg b \<Longrightarrow> be_inv cfg (SetDelayBasedEstimate r b)"
  by (simp add: be_inv_def SetDelayBasedEstimate_def)

lemma be_inv_Update:
  assumes "be_inv cfg b"
  shows "be_inv cfg (fst (Update conv now bytes dur loss b))"
proof (cases "dur > 0")
  case False
  then show ?thesis using assms by (simp add: Update_def)
next
  case True
  then show ?thesis
    using assms clampBitrate_bounds
    by (auto simp: Update_def Let_def be_inv_def rateOK_def dest!: in_set_tlD)
qed

lemma be_inv_rate: "be_inv cfg b \<Longrightarrow> rateOK cfg (be_estimatedBitrate b)"
  by (simp add: be_inv_def)

lemma Update_calls:
  "snd (Update conv now bytes dur loss b) =
     (case be_onEstimate b of None \<Rightarrow> []
      | Some cb \<Rightarrow> [(cb, be_estimatedBitrate (fst (Update conv now bytes dur loss b)))])"
  by (simp add: Update_def Let_def split: option.splits)

lemma Update_frame:
  "be_config (fst (Update conv now bytes dur loss b)) = be_config b"
  "be_onEstimate (fst (Update conv now bytes dur loss b)) = be_onEstimate b"
  "be_delayBasedEstimate (fst (Update conv now bytes dur loss b)) = be_delayBasedEstimate b"
  by (simp_all add: Update_def Let_def)

text \<open>
  What the bandwidth controller needs of its estimator: an update keeps the estimate
  acceptable and notifies the callback, if there is one, once and with the new estimate.
\<close>

locale rate_source =
  fixes upd :: "'u \<Rightarrow> 'b \<Rightarrow> 'b \<times> ('c \<times> u64) list"
    and est :: "'b \<Rightarrow> u64"
    and callback :: "'b \<Rightarrow> 'c option"
    and inv :: "'b \<Rightarrow> bool"
    and ok :: "u64 \<Rightarrow> bool"
  assumes upd_inv: "inv b \<Longrightarrow> inv (fst (upd u b))"
    and est_ok: "inv b \<Longrightarrow> ok (est b)"
    and upd_calls: "snd (upd u b) =
          (case callback b of None \<Rightarrow> [] | Some c \<Rightarrow> [(c, est (fst (upd u b)))])"
    and upd_callback: "callback (fst (upd u b)) = callback b"
begin

lemma calls_ok: "inv b \<Longrightarrow> (c, r) \<in> set (snd (upd u b)) \<Longrightarrow> ok r"
  using upd_inv est_ok by (fastforce simp: upd_calls split: option.splits)

lemma one_call: "length (snd (upd u b)) = (if callback b = None then 0 else 1)"
  by (simp add: upd_calls split: option.splits)

end

interpretation estimator: rate_source
  "\<lambda>(conv, now, bytes, dur, loss). Update conv now bytes dur loss"
  GetEstimate be_onEstimate "be_inv cfg" "rateOK cfg" for cfg
  by unfold_locales
    (auto simp: be_inv_Update Update_calls Update_frame GetEstimate_def intro: be_inv_rate
      split: option.splits)

datatype 'cb be_event =
    BE_Update gotime u64 duration float64
  | BE_SetDelay u64
  | BE_Callback 'cb

fun beStep :: "(rat \<Rightarrow> u64) \<Rightarrow> 'cb BandwidthEstimator \<Rightarrow> 'cb be_event \<Rightarrow> 'cb BandwidthEstimator" where
  "beStep conv b (BE_Update now bytes dur loss) = fst (Update conv now bytes dur loss b)"
| "beStep conv b (BE_SetDelay r) = SetDelayBasedEstimate r b"
| "beStep conv b (BE_Callback cb) = OnEstimate cb b"

interpretation beMachine: machine "beStep conv" "be_inv cfg" for conv cfg
proof unfold_locales
  show "be_inv cfg (beStep conv b e)" if "be_inv cfg b" for b :: "'a BandwidthEstimator" and e
    using that by (cases e) (simp_all add: be_inv_Update be_inv_SetDelay be_inv_OnEstimate)
qed


subsection \<open>Properties\<close>



text \<open>C40: How loss moves the rate, in exact numbers although the code computes in floating
  point: above 10 percent loss the result is the current rate halved, above 2 percent it
  is 85 percent of it, below 1 percent 105 percent, each up to one percent of the rate and
  one bit per second; between 1 and 2 percent, and for a loss rate that is not a number,
  it is the current rate itself. The rate must be below \<open>2 ^ 63\<close>, so that the increase fits.\<close>

theorem loss_moves_rate:
  fixes cur :: u64 and loss :: float64 and conv :: "rat \<Rightarrow> u64"
  assumes "uint cur < 2 ^ 63"
  defines "e \<equiv> uint (calculateLossBasedEstimate conv cur loss)"
  shows "if f64lt (Fin (f64 (1/10))) loss
         then 49 * uint cur < 100 * e + 100 \<and> 100 * e \<le> 51 * uint cur
         else if f64lt (Fin (f64 (2/100))) loss
         then 84 * uint cur < 100 * e + 100 \<and> 100 * e \<le> 86 * uint cur
         else if f64lt loss (Fin (f64 (1/100)))
         then 104 * uint cur < 100 * e + 100 \<and> 100 * e \<le> 106 * uint cur
         else e = uint cur"
proof -
  note s = scaled_rate [of _ _ _ cur conv]
  have "49 * uint cur < 100 * uint (u64_of_f64 conv (f64mul (f64_of_u64 cur) (f64 (1/2)))) + 100
      \<and> 100 * uint (u64_of_f64 conv (f64mul (f64_of_u64 cur) (f64 (1/2)))) \<le> 51 * uint cur"
    by (rule s) (use assms(1) in \<open>simp_all add: power3_eq_cube\<close>)
  moreover have "84 * uint cur < 100 * uint (u64_of_f64 conv (f64mul (f64_of_u64 cur) (f64 (85/100)))) + 100
      \<and> 100 * uint (u64_of_f64 conv (f64mul (f64_of_u64 cur) (f64 (85/100)))) \<le> 86 * uint cur"
    by (rule s) (use assms(1) in \<open>simp_all add: power3_eq_cube\<close>)
  moreover have "104 * uint cur < 100 * uint (u64_of_f64 conv (f64mul (f64_of_u64 cur) (f64 (105/100)))) + 100
      \<and> 100 * uint (u64_of_f64 conv (f64mul (f64_of_u64 cur) (f64 (105/100)))) \<le> 106 * uint cur"
    by (rule s) (use assms(1) in \<open>simp_all add: power3_eq_cube\<close>)
  ultimately show ?thesis by (simp add: e_def calculateLossBasedEstimate_def)
qed

theorem loss_moves_rate_witness:
  "100 * uint (calculateLossBasedEstimate (\<lambda>_. 0) 1000000 PosInf) \<le> 51 * uint (1000000 :: u64)"
  using loss_moves_rate [where cur = 1000000 and conv = "\<lambda>_. 0" and loss = PosInf] by simp

text \<open>One update, on every branch: with a duration that is not positive the estimator
  is unchanged; otherwise the new estimate is the loss-based estimate, or the smaller of it
  and the delay-based one when that is set, clamped to the bounds. In both cases the
  callback, if set, is started once with the estimate.\<close>

theorem Update_spec:
  fixes b :: "'cb BandwidthEstimator" and now dur :: int and conv :: "rat \<Rightarrow> u64"
    and bytes :: u64 and loss :: float64
  defines "loss_est \<equiv> calculateLossBasedEstimate conv (instantBitrate conv bytes dur) loss"
    and "b' \<equiv> fst (Update conv now bytes dur loss b)"
  shows "(if 0 < dur
          then GetEstimate b' = clampBitrate
                 (if loss_est = 0 then GetEstimate b
                  else if be_delayBasedEstimate b = 0 then loss_est
                  else min loss_est (be_delayBasedEstimate b))
                 (MinBitrate (be_config b)) (MaxBitrate (be_config b))
               \<and> be_lossBasedEstimate b' = loss_est \<and> be_lastUpdate b' = now
          else b' = b)
    \<and> snd (Update conv now bytes dur loss b) =
        (case be_onEstimate b of None \<Rightarrow> [] | Some cb \<Rightarrow> [(cb, GetEstimate b')])"
  unfolding b'_def loss_est_def
  by (auto simp: Update_def Let_def GetEstimate_def combineEstimates_def word_neq_0_conv min_def
      split: option.splits)

text \<open>A stream that stops keeps its estimate. An interval in which nothing arrives has
  loss-based estimate 0, which the code takes for "not set": the estimate stays what it was
  (within the bounds), whatever the loss rate and even when the delay-based estimate is
  lower.\<close>

theorem silence_keeps_estimate:
  assumes "MinBitrate (be_config b) \<le> GetEstimate b" and "GetEstimate b \<le> MaxBitrate (be_config b)"
  shows "GetEstimate (fst (Update conv now 0 dur loss (SetDelayBasedEstimate low b))) = GetEstimate b"
  using assms
  by (simp add: Update_def Let_def instantBitrate_zero calculateLossBased_zero
      combineEstimates_def SetDelayBasedEstimate_def GetEstimate_def clampBitrate_id)

theorem silence_keeps_estimate_witness:
  "GetEstimate (fst (Update (\<lambda>_. 0) 0 0 second PosInf (SetDelayBasedEstimate 100000
     (NewBandwidthEstimator DefaultTWCCConfig :: unit BandwidthEstimator)))) = 1000000"
  using silence_keeps_estimate [of "NewBandwidthEstimator DefaultTWCCConfig :: unit BandwidthEstimator"
      "\<lambda>_. 0" 0 second PosInf 100000]
  by (simp add: NewBandwidthEstimator_def DefaultTWCCConfig_def GetEstimate_def)

end
