(* ===== verification/Bandwidth.thy ===== *)
theory Bandwidth
  imports Estimator
begin

section \<open>Bandwidth allocation (\<open>BandwidthController\<close> in \<open>bandwidth.go\<close>)\<close>

text \<open>
  The controller owns an estimator and a table of layer allocations, one per track. The
  estimator's callback is the controller's own \<open>onBitrateUpdate\<close>, started in a goroutine,
  so an update returns the bit rates that are on their way to \<open>onBitrateUpdate\<close>; the
  machine at the end delivers them in any order. \<open>onLayerChange\<close> is a closure of the
  caller, also started in goroutines: the operations return the started calls.
\<close>

subsection \<open>State and operations\<close>

record LayerAllocation =
  TrackID :: string
  TargetLayer :: string
  CurrentLayer :: string
  MaxLayer :: string
  Paused :: bool

record 'cb BandwidthController =
  bc_config :: TWCCConfig
  bc_estimator :: "unit BandwidthEstimator"
  bc_allocations :: "(string, LayerAllocation) gomap"
  bc_availableBitrate :: u64
  bc_onLayerChange :: "'cb option"
  bc_closed :: bool
  bc_closeCh :: chan

definition NewBandwidthController :: "TWCCConfig \<Rightarrow> 'cb BandwidthController" where
  "NewBandwidthController config =
     \<lparr>bc_config = config, bc_estimator = OnEstimate () (NewBandwidthEstimator config),
      bc_allocations = [], bc_availableBitrate = InitialBitrate config,
      bc_onLayerChange = None, bc_closed = False, bc_closeCh = ChOpen\<rparr>"

definition OnLayerChange :: "'cb \<Rightarrow> 'cb BandwidthController \<Rightarrow> 'cb BandwidthController" where
  "OnLayerChange cb bc = bc\<lparr>bc_onLayerChange := Some cb\<rparr>"

definition BC_AddTrack :: "string \<Rightarrow> string \<Rightarrow> 'cb BandwidthController \<Rightarrow> 'cb BandwidthController" where
  "BC_AddTrack trackID initialLayer bc =
     bc\<lparr>bc_allocations := gm_put trackID
          \<lparr>TrackID = trackID, TargetLayer = initialLayer, CurrentLayer = initialLayer,
           MaxLayer = LayerHigh, Paused = False\<rparr> (bc_allocations bc)\<rparr>"

definition BC_RemoveTrack :: "string \<Rightarrow> 'cb BandwidthController \<Rightarrow> 'cb BandwidthController" where
  "BC_RemoveTrack trackID bc = bc\<lparr>bc_allocations := gm_del trackID (bc_allocations bc)\<rparr>"

definition SetMaxLayer :: "string \<Rightarrow> string \<Rightarrow> 'cb BandwidthController \<Rightarrow> 'cb BandwidthController" where
  "SetMaxLayer trackID maxLayer bc =
     (case gm_get (bc_allocations bc) trackID of
        None \<Rightarrow> bc
      | Some alloc \<Rightarrow>
          (let alloc1 = alloc\<lparr>MaxLayer := maxLayer\<rparr>;
               alloc2 = (if LayerPriority (TargetLayer alloc1) > LayerPriority maxLayer
                         then alloc1\<lparr>TargetLayer := maxLayer\<rparr> else alloc1)
           in bc\<lparr>bc_allocations := gm_put trackID alloc2 (bc_allocations bc)\<rparr>))"

definition RequestLayer :: "string \<Rightarrow> string \<Rightarrow> 'cb BandwidthController \<Rightarrow> 'cb BandwidthController" where
  "RequestLayer trackID layer bc =
     (case gm_get (bc_allocations bc) trackID of
        None \<Rightarrow> bc
      | Some alloc \<Rightarrow>
          (let layer' = (if LayerPriority layer > LayerPriority (MaxLayer alloc)
                         then MaxLayer alloc else layer)
           in bc\<lparr>bc_allocations := gm_put trackID (alloc\<lparr>TargetLayer := layer'\<rparr>)
                                     (bc_allocations bc)\<rparr>))"

definition BC_GetTargetLayer :: "string \<Rightarrow> 'cb BandwidthController \<Rightarrow> string" where
  "BC_GetTargetLayer trackID bc =
     (case gm_get (bc_allocations bc) trackID of
        Some alloc \<Rightarrow> TargetLayer alloc | None \<Rightarrow> LayerHigh)"

definition UpdateBitrate ::
  "(rat \<Rightarrow> u64) \<Rightarrow> gotime \<Rightarrow> u64 \<Rightarrow> duration \<Rightarrow> float64 \<Rightarrow> 'cb BandwidthController
   \<Rightarrow> 'cb BandwidthController \<times> u64 list" where
  "UpdateBitrate conv now receivedBytes dur lossRate bc =
     (case Update conv now receivedBytes dur lossRate (bc_estimator bc) of
        (est, calls) \<Rightarrow> (bc\<lparr>bc_estimator := est\<rparr>, map snd calls))"

definition layerBitrates :: "(string, u64) gomap" where
  "layerBitrates = [(LayerHigh, 2500000), (LayerMid, 500000), (LayerLow, 150000)]"

fun selectFrom :: "u64 \<Rightarrow> int \<Rightarrow> string list \<Rightarrow> string" where
  "selectFrom budget maxPriority [] = LayerLow"
| "selectFrom budget maxPriority (layer # layers) =
     (if LayerPriority layer > maxPriority then selectFrom budget maxPriority layers
      else (case gm_get layerBitrates layer of
              Some bitrate \<Rightarrow> (if bitrate \<le> budget then layer
                               else selectFrom budget maxPriority layers)
            | None \<Rightarrow> selectFrom budget maxPriority layers))"

definition selectLayerForBudget :: "u64 \<Rightarrow> string \<Rightarrow> string" where
  "selectLayerForBudget budget maxLayer =
     selectFrom budget (LayerPriority maxLayer) [LayerHigh, LayerMid, LayerLow]"

text \<open>One round of the loop over the allocations; the second component collects the started
  \<open>onLayerChange\<close> calls.\<close>

definition recalculateOne ::
  "u64 \<Rightarrow> 'cb BandwidthController \<times> ('cb \<times> string \<times> string) list \<Rightarrow> string
   \<Rightarrow> 'cb BandwidthController \<times> ('cb \<times> string \<times> string) list" where
  "recalculateOne perTrackBudget st trackID =
     (case st of (bc, calls) \<Rightarrow>
       (case gm_get (bc_allocations bc) trackID of
          None \<Rightarrow> (bc, calls)
        | Some alloc \<Rightarrow>
            (if Paused alloc then (bc, calls)
             else (let newLayer = selectLayerForBudget perTrackBudget (MaxLayer alloc)
                   in if newLayer \<noteq> TargetLayer alloc
                      then (bc\<lparr>bc_allocations := gm_put trackID (alloc\<lparr>TargetLayer := newLayer\<rparr>)
                                                  (bc_allocations bc)\<rparr>,
                            case bc_onLayerChange bc of
                              None \<Rightarrow> calls
                            | Some cb \<Rightarrow> calls @ [(cb, trackID, newLayer)])
                      else (bc, calls)))))"

definition perTrack :: "'cb BandwidthController \<Rightarrow> u64" where
  "perTrack bc = bc_availableBitrate bc div of_nat (length (bc_allocations bc))"

text \<open>\<open>ord\<close> is the order in which the \<open>range\<close> loop visits the allocations.\<close>

definition recalculateAllocations ::
  "(string list \<Rightarrow> string list) \<Rightarrow> 'cb BandwidthController
   \<Rightarrow> 'cb BandwidthController \<times> ('cb \<times> string \<times> string) list" where
  "recalculateAllocations ord bc =
     (if bc_closed bc then (bc, [])
      else if length (bc_allocations bc) = 0 then (bc, [])
      else foldl (recalculateOne (perTrack bc)) (bc, [])
                 (range_order ord (gm_keys (bc_allocations bc))))"

definition onBitrateUpdate ::
  "(string list \<Rightarrow> string list) \<Rightarrow> u64 \<Rightarrow> 'cb BandwidthController
   \<Rightarrow> 'cb BandwidthController \<times> ('cb \<times> string \<times> string) list" where
  "onBitrateUpdate ord bitrate bc =
     recalculateAllocations ord (bc\<lparr>bc_availableBitrate := bitrate\<rparr>)"

definition GetAvailableBitrate :: "'cb BandwidthController \<Rightarrow> u64" where
  "GetAvailableBitrate bc = bc_availableBitrate bc"

definition BC_Close :: "'cb BandwidthController \<Rightarrow> 'cb BandwidthController option" where
  "BC_Close bc =
     (if bc_closed bc then Some bc
      else (case close_chan (bc_closeCh bc) of
              None \<Rightarrow> None
            | Some ch \<Rightarrow> Some (bc\<lparr>bc_closed := True, bc_closeCh := ch\<rparr>)))"

text \<open>
  A round of the goroutine of \<open>Start\<close>: the loop ends when the close channel is closed and
  the \<open>select\<close> picks it (\<open>pickClose\<close>), which is the value \<open>None\<close>; otherwise a tick
  recalculates.
\<close>

definition allocationLoop_round ::
  "bool \<Rightarrow> (string list \<Rightarrow> string list) \<Rightarrow> 'cb BandwidthController
   \<Rightarrow> ('cb BandwidthController \<times> ('cb \<times> string \<times> string) list) option" where
  "allocationLoop_round pickClose ord bc =
     (if bc_closeCh bc = ChClosed \<and> pickClose then None
      else Some (recalculateAllocations ord bc))"


subsection \<open>The layer chosen for a budget\<close>

lemma layerBitrates_get [simp]:
  "gm_get layerBitrates LayerHigh = Some 2500000"
  "gm_get layerBitrates LayerMid = Some 500000"
  "gm_get layerBitrates LayerLow = Some 150000"
  by (simp_all add: layerBitrates_def gm_get_def)

lemma selectLayer_cases:
  "selectLayerForBudget budget maxLayer =
     (if 3 \<le> LayerPriority maxLayer \<and> 2500000 \<le> budget then LayerHigh
      else if 2 \<le> LayerPriority maxLayer \<and> 500000 \<le> budget then LayerMid
      else LayerLow)"
  by (auto simp: selectLayerForBudget_def)

definition layerRate :: "string \<Rightarrow> u64" where
  "layerRate l = (case gm_get layerBitrates l of Some r \<Rightarrow> r | None \<Rightarrow> 0)"

lemma layerRate_simps [simp]:
  "layerRate LayerHigh = 2500000" "layerRate LayerMid = 500000" "layerRate LayerLow = 150000"
  by (simp_all add: layerRate_def)

lemma selectLayer_rate: "150000 \<le> budget \<Longrightarrow> layerRate (selectLayerForBudget budget m) \<le> budget"
  by (simp add: selectLayer_cases)

lemma selectLayer_max:
  "LayerPriority (selectLayerForBudget budget m) \<le> LayerPriority m
   \<or> selectLayerForBudget budget m = LayerLow \<and> \<not> knownLayer m"
  using LayerPriority_known [of m] by (auto simp: selectLayer_cases)

subsection \<open>A recalculation as a map over the allocations\<close>

definition retargeted :: "u64 \<Rightarrow> LayerAllocation \<Rightarrow> LayerAllocation" where
  "retargeted budget a =
     (if Paused a then a else a\<lparr>TargetLayer := selectLayerForBudget budget (MaxLayer a)\<rparr>)"

lemma retargeted_frame [simp]:
  "Paused (retargeted b a) = Paused a" "MaxLayer (retargeted b a) = MaxLayer a"
  "TrackID (retargeted b a) = TrackID a" "CurrentLayer (retargeted b a) = CurrentLayer a"
  by (simp_all add: retargeted_def)

lemma gm_keys_overwrite: "gm_get m k = Some v \<Longrightarrow> gm_keys (gm_put k w m) = gm_keys m"
  by (simp add: gm_keys_put)

lemma recalculateOne_form:
  "\<exists>m calls'. recalculateOne b (bc, calls) k = (bc\<lparr>bc_allocations := m\<rparr>, calls')
     \<and> gm_keys m = gm_keys (bc_allocations bc)
     \<and> (\<forall>j. gm_get m j = (if j = k then map_option (retargeted b) (gm_get (bc_allocations bc) j)
                           else gm_get (bc_allocations bc) j))"
proof (cases "gm_get (bc_allocations bc) k")
  case None
  then show ?thesis
    by (intro exI [of _ "bc_allocations bc"] exI [of _ calls]) (simp add: recalculateOne_def)
next
  case (Some a)
  show ?thesis
  proof (cases "Paused a \<or> selectLayerForBudget b (MaxLayer a) = TargetLayer a")
    case True
    then have "retargeted b a = a" by (auto simp: retargeted_def)
    with True Some show ?thesis
      by (intro exI [of _ "bc_allocations bc"] exI [of _ calls]) (auto simp: recalculateOne_def Let_def)
  next
    case False
    then have "retargeted b a = a\<lparr>TargetLayer := selectLayerForBudget b (MaxLayer a)\<rparr>"
      by (simp add: retargeted_def)
    with False Some show ?thesis
      by (auto simp: recalculateOne_def Let_def gm_keys_overwrite)
  qed
qed

lemma recalculate_fold:
  "distinct ks \<Longrightarrow>
   \<exists>m calls'. foldl (recalculateOne b) (bc, calls) ks = (bc\<lparr>bc_allocations := m\<rparr>, calls')
     \<and> gm_keys m = gm_keys (bc_allocations bc)
     \<and> (\<forall>j. gm_get m j = (if j \<in> set ks then map_option (retargeted b) (gm_get (bc_allocations bc) j)
                           else gm_get (bc_allocations bc) j))"
proof (induction ks arbitrary: bc calls)
  case Nil
  then show ?case by (intro exI [of _ "bc_allocations bc"] exI [of _ calls]) simp
next
  case (Cons k ks)
  obtain m c where 1: "recalculateOne b (bc, calls) k = (bc\<lparr>bc_allocations := m\<rparr>, c)"
    and m: "gm_keys m = gm_keys (bc_allocations bc)"
      "\<And>j. gm_get m j = (if j = k then map_option (retargeted b) (gm_get (bc_allocations bc) j)
                           else gm_get (bc_allocations bc) j)"
    using recalculateOne_form [of b bc calls k] by blast
  obtain m' c' where 2: "foldl (recalculateOne b) (bc\<lparr>bc_allocations := m\<rparr>, c) ks
        = ((bc\<lparr>bc_allocations := m\<rparr>)\<lparr>bc_allocations := m'\<rparr>, c')"
    and m': "gm_keys m' = gm_keys m"
      "\<And>j. gm_get m' j = (if j \<in> set ks then map_option (retargeted b) (gm_get m j) else gm_get m j)"
    using Cons.IH [of "bc\<lparr>bc_allocations := m\<rparr>" c] Cons.prems by auto
  show ?case
    using Cons.prems 1 2 m m' by (intro exI [of _ m'] exI [of _ c']) auto
qed

lemma recalculate_form:
  assumes "gm_ok (bc_allocations bc)" "\<not> bc_closed bc"
  obtains m calls where "recalculateAllocations ord bc = (bc\<lparr>bc_allocations := m\<rparr>, calls)"
    and "gm_keys m = gm_keys (bc_allocations bc)"
    and "\<And>j. gm_get m j = map_option (retargeted (perTrack bc)) (gm_get (bc_allocations bc) j)"
proof (cases "bc_allocations bc = []")
  case True
  then show ?thesis
    by (intro that [of "[]" "[]"]) (auto simp: recalculateAllocations_def)
next
  case False
  let ?ks = "range_order ord (gm_keys (bc_allocations bc))"
  have "distinct ?ks" using assms(1) by (simp add: gm_ok_def)
  then obtain m calls where "foldl (recalculateOne (perTrack bc)) (bc, []) ?ks
        = (bc\<lparr>bc_allocations := m\<rparr>, calls)"
    and "gm_keys m = gm_keys (bc_allocations bc)"
    and "\<And>j. gm_get m j = (if j \<in> set ?ks
          then map_option (retargeted (perTrack bc)) (gm_get (bc_allocations bc) j)
          else gm_get (bc_allocations bc) j)"
    using recalculate_fold [of ?ks "perTrack bc" bc "[]"] by blast
  with False assms(2) show ?thesis
    by (intro that [of m calls]) (auto simp: recalculateAllocations_def set_gm_keys)
qed

lemma recalculateOne_available:
  "bc_availableBitrate (fst (recalculateOne b st k)) = bc_availableBitrate (fst st)"
  by (cases st) (simp add: recalculateOne_def Let_def split: option.split)

lemma recalculate_available:
  "bc_availableBitrate (fst (recalculateAllocations ord bc)) = bc_availableBitrate bc"
proof -
  have "bc_availableBitrate (fst (foldl (recalculateOne b) st ks)) = bc_availableBitrate (fst st)"
    for b ks and st :: "'a BandwidthController \<times> ('a \<times> string \<times> string) list"
    by (induction ks arbitrary: st) (simp_all add: recalculateOne_available)
  then show ?thesis by (simp add: recalculateAllocations_def)
qed

lemma gm_ok_keys: "gm_keys m = gm_keys m' \<Longrightarrow> gm_ok m \<longleftrightarrow> gm_ok m'"
  by (simp add: gm_ok_def)

lemma length_gm_keys: "length (gm_keys m) = length m"
  by (simp add: gm_keys_def)

subsection \<open>The controller's invariant\<close>

definition alloc_ok :: "string \<Rightarrow> LayerAllocation \<Rightarrow> bool" where
  "alloc_ok k a \<longleftrightarrow> TrackID a = k \<and> \<not> Paused a
     \<and> (LayerPriority (TargetLayer a) \<le> LayerPriority (MaxLayer a)
        \<or> TargetLayer a = LayerLow \<and> \<not> knownLayer (MaxLayer a))"

definition bc_inv :: "TWCCConfig \<Rightarrow> 'cb BandwidthController \<Rightarrow> bool" where
  "bc_inv cfg bc \<longleftrightarrow> be_inv cfg (bc_estimator bc) \<and> be_onEstimate (bc_estimator bc) = Some ()
     \<and> gm_ok (bc_allocations bc) \<and> rateOK cfg (bc_availableBitrate bc)
     \<and> (bc_closeCh bc = ChClosed \<longleftrightarrow> bc_closed bc)
     \<and> (\<forall>k a. gm_get (bc_allocations bc) k = Some a \<longrightarrow> alloc_ok k a)"

lemma bc_inv_New: "MinBitrate cfg \<le> MaxBitrate cfg \<Longrightarrow> bc_inv cfg (NewBandwidthController cfg)"
  by (simp add: bc_inv_def NewBandwidthController_def be_inv_OnEstimate be_inv_New)
     (simp add: OnEstimate_def rateOK_def)

lemma alloc_ok_retargeted: "alloc_ok k a \<Longrightarrow> alloc_ok k (retargeted b a)"
  using selectLayer_max [of b "MaxLayer a"] by (simp add: alloc_ok_def) (simp add: retargeted_def)

lemma bc_inv_recalculate:
  assumes "bc_inv cfg bc"
  shows "bc_inv cfg (fst (recalculateAllocations ord bc))"
proof (cases "bc_closed bc")
  case True
  with assms show ?thesis by (simp add: recalculateAllocations_def)
next
  case False
  have "gm_ok (bc_allocations bc)" using assms by (simp add: bc_inv_def)
  from recalculate_form [OF this False, of ord]
  obtain m calls where m: "recalculateAllocations ord bc = (bc\<lparr>bc_allocations := m\<rparr>, calls)"
      "gm_keys m = gm_keys (bc_allocations bc)"
      "\<And>j. gm_get m j = map_option (retargeted (perTrack bc)) (gm_get (bc_allocations bc) j)"
    by blast
  then show ?thesis
    using assms gm_ok_keys [OF m(2)] by (auto simp: bc_inv_def alloc_ok_retargeted)
qed

lemma bc_inv_onBitrateUpdate:
  "bc_inv cfg bc \<Longrightarrow> rateOK cfg r \<Longrightarrow> bc_inv cfg (fst (onBitrateUpdate ord r bc))"
  unfolding onBitrateUpdate_def by (rule bc_inv_recalculate) (simp add: bc_inv_def)

lemma bc_inv_AddTrack: "bc_inv cfg bc \<Longrightarrow> bc_inv cfg (BC_AddTrack k l bc)"
  using LayerPriority_bounds(2) [of l]
  by (auto simp: bc_inv_def BC_AddTrack_def alloc_ok_def split: if_splits)

lemma bc_inv_RemoveTrack: "bc_inv cfg bc \<Longrightarrow> bc_inv cfg (BC_RemoveTrack k bc)"
  by (auto simp: bc_inv_def BC_RemoveTrack_def split: if_splits)

lemma bc_inv_put:
  "bc_inv cfg bc \<Longrightarrow> alloc_ok k a \<Longrightarrow>
   bc_inv cfg (bc\<lparr>bc_allocations := gm_put k a (bc_allocations bc)\<rparr>)"
  by (auto simp: bc_inv_def split: if_splits)

lemma bc_inv_get: "bc_inv cfg bc \<Longrightarrow> gm_get (bc_allocations bc) k = Some a \<Longrightarrow> alloc_ok k a"
  by (simp add: bc_inv_def)

lemma bc_inv_SetMaxLayer: "bc_inv cfg bc \<Longrightarrow> bc_inv cfg (SetMaxLayer k m bc)"
  using bc_inv_get [of cfg bc k]
  by (auto simp: SetMaxLayer_def Let_def alloc_ok_def intro!: bc_inv_put split: option.split)

lemma bc_inv_RequestLayer: "bc_inv cfg bc \<Longrightarrow> bc_inv cfg (RequestLayer k l bc)"
  using bc_inv_get [of cfg bc k]
  by (auto simp: RequestLayer_def Let_def alloc_ok_def intro!: bc_inv_put split: option.split)

lemma bc_inv_UpdateBitrate:
  assumes "bc_inv cfg bc"
  shows "bc_inv cfg (fst (UpdateBitrate conv now bytes dur loss bc))"
    and "r \<in> set (snd (UpdateBitrate conv now bytes dur loss bc)) \<Longrightarrow> rateOK cfg r"
  using assms be_inv_Update [of cfg "bc_estimator bc"]
    estimator.calls_ok [of cfg "bc_estimator bc" _ _ "(conv, now, bytes, dur, loss)"]
  by (auto simp: bc_inv_def UpdateBitrate_def Update_frame split: prod.splits)
     (metis Update_frame(2) fst_conv be_inv_Update)+

interpretation bandwidthController: closable BC_Close bc_closed "bc_inv cfg" for cfg
proof unfold_locales
  show "bc_inv cfg bc \<Longrightarrow> \<exists>t. BC_Close bc = Some t \<and> bc_inv cfg t \<and> bc_closed t"
    for bc :: "'a BandwidthController"
    by (cases "bc_closeCh bc") (auto simp: bc_inv_def BC_Close_def)
  show "bc_closed bc \<Longrightarrow> BC_Close bc = Some bc" for bc :: "'a BandwidthController"
    by (simp add: BC_Close_def)
qed


subsection \<open>The controller with its goroutines\<close>

text \<open>
  The state of the machine is a controller and the bit rates that goroutines are about to
  deliver to \<open>onBitrateUpdate\<close>. \<open>Deliver i\<close> runs the goroutine with the \<open>i\<close>-th of them,
  whichever that is; the Go scheduler promises no order.
\<close>

datatype 'cb bc_event =
    EvUpdate gotime u64 duration float64
  | Deliver nat "string list \<Rightarrow> string list"
  | Tick "string list \<Rightarrow> string list"
  | EvAdd string string
  | EvRemove string
  | EvSetMax string string
  | EvRequest string string
  | EvOnLayerChange 'cb
  | EvClose

fun bcStep :: "(rat \<Rightarrow> u64) \<Rightarrow> 'cb BandwidthController \<times> u64 list \<Rightarrow> 'cb bc_event
   \<Rightarrow> 'cb BandwidthController \<times> u64 list" where
  "bcStep conv (bc, pend) (EvUpdate now bytes dur loss) =
     (case UpdateBitrate conv now bytes dur loss bc of (bc', rates) \<Rightarrow> (bc', pend @ rates))"
| "bcStep conv (bc, pend) (Deliver i ord) =
     (if i < length pend
      then (fst (onBitrateUpdate ord (pend ! i) bc), take i pend @ drop (Suc i) pend)
      else (bc, pend))"
| "bcStep conv (bc, pend) (Tick ord) = (fst (recalculateAllocations ord bc), pend)"
| "bcStep conv (bc, pend) (EvAdd k l) = (BC_AddTrack k l bc, pend)"
| "bcStep conv (bc, pend) (EvRemove k) = (BC_RemoveTrack k bc, pend)"
| "bcStep conv (bc, pend) (EvSetMax k m) = (SetMaxLayer k m bc, pend)"
| "bcStep conv (bc, pend) (EvRequest k l) = (RequestLayer k l bc, pend)"
| "bcStep conv (bc, pend) (EvOnLayerChange cb) = (OnLayerChange cb bc, pend)"
| "bcStep conv (bc, pend) EvClose = (case BC_Close bc of Some bc' \<Rightarrow> (bc', pend) | None \<Rightarrow> (bc, pend))"

definition bcSys_inv :: "TWCCConfig \<Rightarrow> 'cb BandwidthController \<times> u64 list \<Rightarrow> bool" where
  "bcSys_inv cfg s \<longleftrightarrow> bc_inv cfg (fst s) \<and> (\<forall>r \<in> set (snd s). rateOK cfg r)"

lemma bcSys_inv_step:
  assumes "bcSys_inv cfg s"
  shows "bcSys_inv cfg (bcStep conv s e)"
proof -
  obtain bc pend where s: "s = (bc, pend)" by fastforce
  with assms have inv: "bc_inv cfg bc" "\<And>r. r \<in> set pend \<Longrightarrow> rateOK cfg r"
    by (simp_all add: bcSys_inv_def)
  show ?thesis
  proof (cases e)
    case (EvUpdate now bytes dur loss)
    obtain bc' rates where u: "UpdateBitrate conv now bytes dur loss bc = (bc', rates)" by fastforce
    have "bc_inv cfg bc'" and "\<And>r. r \<in> set rates \<Longrightarrow> rateOK cfg r"
      using bc_inv_UpdateBitrate [OF inv(1), where conv = conv and now = now and bytes = bytes
          and dur = dur and loss = loss] u by auto
    then show ?thesis using inv u by (auto simp: EvUpdate s bcSys_inv_def)
  next
    case (Deliver i ord)
    then show ?thesis
      using inv by (auto simp: s bcSys_inv_def intro!: bc_inv_onBitrateUpdate
          dest: in_set_takeD in_set_dropD)
  next
    case EvClose
    then show ?thesis
      using inv bandwidthController.cls_total [OF inv(1)] by (auto simp: s bcSys_inv_def)
  qed (use inv in \<open>auto simp: s bcSys_inv_def bc_inv_recalculate bc_inv_AddTrack bc_inv_RemoveTrack
        bc_inv_SetMaxLayer bc_inv_RequestLayer OnLayerChange_def, auto simp: bc_inv_def\<close>)
qed

interpretation bcMachine: machine "bcStep conv" "bcSys_inv cfg" for conv cfg
  by unfold_locales (rule bcSys_inv_step)

lemma bcSys_run:
  assumes "MinBitrate cfg \<le> MaxBitrate cfg"
  shows "bc_inv cfg (fst (run (bcStep conv) (NewBandwidthController cfg, []) es))"
  using bcMachine.run_inv [of cfg "(NewBandwidthController cfg, [])" conv es] bc_inv_New [OF assms]
  by (auto simp: bcSys_inv_def)

subsection \<open>Properties\<close>

text \<open>The layer chosen for a budget is the best one allowed: among high, mid and low,
  those not above the maximum layer and with a bit rate within the budget, it is the one
  of the highest priority; if there is none, it is low.\<close>

theorem selectLayer_best:
  fixes budget :: u64 and maxLayer :: string
  defines "fit \<equiv> {l \<in> {LayerHigh, LayerMid, LayerLow}.
                    LayerPriority l \<le> LayerPriority maxLayer \<and> layerRate l \<le> budget}"
  shows "if fit = {} then selectLayerForBudget budget maxLayer = LayerLow
         else selectLayerForBudget budget maxLayer \<in> fit
            \<and> layerQuality (selectLayerForBudget budget maxLayer) = Max (layerQuality ` fit)"
proof -
  let ?l = "selectLayerForBudget budget maxLayer"
  have iff: "l \<in> fit \<longleftrightarrow> l = LayerHigh \<and> 3 \<le> LayerPriority maxLayer \<and> 2500000 \<le> budget
      \<or> l = LayerMid \<and> 2 \<le> LayerPriority maxLayer \<and> 500000 \<le> budget
      \<or> l = LayerLow \<and> 1 \<le> LayerPriority maxLayer \<and> 150000 \<le> budget" for l
    by (auto simp: fit_def)
  have mono: "2500000 \<le> budget \<Longrightarrow> 500000 \<le> budget" "500000 \<le> budget \<Longrightarrow> 150000 \<le> budget"
    by (rule order_trans [rotated], assumption, simp)+
  have fin: "finite fit" by (simp add: fit_def)
  have mem: "?l \<in> fit" if "l \<in> fit" for l
    using that mono by (auto simp: iff selectLayer_cases)
  moreover have "layerQuality l \<le> layerQuality ?l" if "l \<in> fit" for l
    using that mono by (auto simp: iff selectLayer_cases simp flip: LayerPriority_le_iff)
  moreover have "?l = LayerLow" if "fit = {}"
    using that by (auto simp: set_eq_iff [of fit] iff selectLayer_cases)
  ultimately show ?thesis
    using fin by (auto intro!: Max_eqI [symmetric])
qed

text \<open>C29: A recalculation of an open controller gives every track that is not paused the
  layer chosen for an equal share of the available bit rate and the track's own maximum,
  leaves paused tracks and everything else alone, and does so in whatever order the loop
  visits the tracks.\<close>

theorem recalculate_result:
  assumes "gm_ok (bc_allocations bc)" and "\<not> bc_closed bc"
  shows "gm_get (bc_allocations (fst (recalculateAllocations ord bc))) k =
     map_option (\<lambda>a. if Paused a then a
                     else a\<lparr>TargetLayer := selectLayerForBudget
                              (bc_availableBitrate bc div of_nat (length (bc_allocations bc)))
                              (MaxLayer a)\<rparr>)
       (gm_get (bc_allocations bc) k)"
proof -
  obtain m calls where m: "recalculateAllocations ord bc = (bc\<lparr>bc_allocations := m\<rparr>, calls)"
      "\<And>j. gm_get m j = map_option (retargeted (perTrack bc)) (gm_get (bc_allocations bc) j)"
    using recalculate_form [OF assms, of ord] by blast
  have "retargeted (perTrack bc) = (\<lambda>a. if Paused a then a else
      a\<lparr>TargetLayer := selectLayerForBudget
          (bc_availableBitrate bc div of_nat (length (bc_allocations bc))) (MaxLayer a)\<rparr>)"
    by (rule ext) (simp add: retargeted_def perTrack_def)
  with m show ?thesis by simp
qed

definition twoTracks :: "unit BandwidthController" where
  "twoTracks = BC_AddTrack ''b'' LayerHigh (BC_AddTrack ''a'' LayerHigh
                 (NewBandwidthController DefaultTWCCConfig))"

lemmas twoTracks_defs = twoTracks_def BC_AddTrack_def NewBandwidthController_def
  DefaultTWCCConfig_def gm_put_fresh gm_get_def

theorem recalculate_result_witness:
  "gm_get (bc_allocations (fst (recalculateAllocations rev twoTracks))) ''a'' =
     Some \<lparr>TrackID = ''a'', TargetLayer = LayerMid, CurrentLayer = LayerHigh,
           MaxLayer = LayerHigh, Paused = False\<rparr>"
  by (subst recalculate_result) (simp_all add: twoTracks_defs gm_ok_def gm_keys_def selectLayer_cases)


lemma twoTracks_inv: "bc_inv DefaultTWCCConfig twoTracks"
  unfolding twoTracks_def by (intro bc_inv_AddTrack bc_inv_New) (simp add: DefaultTWCCConfig_def)




text \<open>The available bit rate is always one the estimator can produce: in every run it
  is the initial rate or within the configured bounds.\<close>

theorem available_in_range:
  fixes cfg :: TWCCConfig and es :: "'cb bc_event list" and conv :: "rat \<Rightarrow> u64"
  assumes "MinBitrate cfg \<le> MaxBitrate cfg"
  defines "bc \<equiv> fst (run (bcStep conv) (NewBandwidthController cfg, []) es)"
  shows "GetAvailableBitrate bc = InitialBitrate cfg
     \<or> MinBitrate cfg \<le> GetAvailableBitrate bc \<and> GetAvailableBitrate bc \<le> MaxBitrate cfg"
  using bcSys_run [OF assms(1), of conv es]
  by (simp add: bc_def bc_inv_def rateOK_def GetAvailableBitrate_def)

theorem available_in_range_witness:
  "MinBitrate DefaultTWCCConfig \<le> MaxBitrate DefaultTWCCConfig
   \<and> GetAvailableBitrate (fst (run (bcStep (\<lambda>_. 0))
       (NewBandwidthController DefaultTWCCConfig :: unit BandwidthController, []) [])) = 1000000"
  using available_in_range [of DefaultTWCCConfig "\<lambda>_. 0" "[] :: unit bc_event list"]
  by (simp add: DefaultTWCCConfig_def NewBandwidthController_def GetAvailableBitrate_def)

text \<open>Goroutines can overtake each other. When two updates have started
  \<open>onBitrateUpdate\<close> with an old and a new bit rate and the newer one runs first, the
  controller ends with the old bit rate as the available one, and nothing corrects it until
  the next update.\<close>

theorem stale_bitrate_wins:
  "GetAvailableBitrate (fst (run (bcStep conv) (bc, [old, new]) [Deliver 1 ord, Deliver 0 ord])) = old"
  by (simp add: GetAvailableBitrate_def onBitrateUpdate_def recalculate_available)

text \<open>A requested layer lasts until the next recalculation only: the target a
  recalculation gives to a track that is not paused does not depend on what was requested
  for it before.\<close>

theorem request_is_overridden:
  assumes "bc_inv cfg bc" and "\<not> bc_closed bc"
  shows "BC_GetTargetLayer k (fst (recalculateAllocations ord (RequestLayer k layer bc)))
       = BC_GetTargetLayer k (fst (recalculateAllocations ord bc))"
proof (cases "gm_get (bc_allocations bc) k")
  case None
  then show ?thesis by (simp add: RequestLayer_def)
next
  case (Some a)
  let ?bc = "RequestLayer k layer bc"
  have inv: "bc_inv cfg ?bc" by (rule bc_inv_RequestLayer [OF assms(1)])
  have same: "bc_closed ?bc = bc_closed bc" "perTrack ?bc = perTrack bc"
    using Some length_gm_put [of k _ "bc_allocations bc"]
    by (simp_all add: RequestLayer_def perTrack_def Let_def)
  have np: "\<not> Paused a" using bc_inv_get [OF assms(1) Some] by (simp add: alloc_ok_def)
  have ok: "gm_ok (bc_allocations bc)" "gm_ok (bc_allocations ?bc)"
    using assms(1) inv by (simp_all add: bc_inv_def)
  obtain m c where 1: "recalculateAllocations ord ?bc = (?bc\<lparr>bc_allocations := m\<rparr>, c)"
      "\<And>j. gm_get m j = map_option (retargeted (perTrack bc)) (gm_get (bc_allocations ?bc) j)"
    using recalculate_form [OF ok(2), of ord] same assms(2) by metis
  obtain m' c' where 2: "recalculateAllocations ord bc = (bc\<lparr>bc_allocations := m'\<rparr>, c')"
      "\<And>j. gm_get m' j = map_option (retargeted (perTrack bc)) (gm_get (bc_allocations bc) j)"
    using recalculate_form [OF ok(1) assms(2), of ord] by metis
  show ?thesis
    using 1 2 Some np by (simp add: BC_GetTargetLayer_def RequestLayer_def Let_def retargeted_def)
qed

theorem request_is_overridden_witness:
  "BC_GetTargetLayer ''a'' (fst (recalculateAllocations id (RequestLayer ''a'' LayerLow twoTracks)))
   = BC_GetTargetLayer ''a'' (fst (recalculateAllocations id twoTracks))"
  by (rule request_is_overridden [OF twoTracks_inv]) (simp add: twoTracks_defs)

end
