(* ===== verification/Rtp.thy ===== *)
theory Rtp
  imports Prelude
begin

section \<open>RTP rewriting and keyframe detection (\<open>rtp.go\<close>)\<close>

text \<open>
  The sequencer that makes the packets of several simulcast layers look like one stream,
  and the predicates that recognise a keyframe. The packet record holds the fields of
  \<open>rtp.Packet\<close> the code reads or writes; its other fields (padding, marker, extensions)
  are the record's extension, which \<open>Clone\<close> copies and nothing else touches.
\<close>

unbundle bit_operations_syntax

subsection \<open>Packets\<close>

record rtp_packet =
  SequenceNumber :: u16
  Timestamp :: u32
  SSRC :: u32
  Payload :: "u8 list"

subsection \<open>The sequencer\<close>

record rtpSequencer =
  lastSeq :: u16
  seqOffset :: u16
  lastTS :: u32
  tsOffset :: u32
  lastSSRC :: u32
  inited :: bool

definition newRTPSequencer :: rtpSequencer where
  "newRTPSequencer =
     \<lparr>lastSeq = 0, seqOffset = 0, lastTS = 0, tsOffset = 0, lastSSRC = 0, inited = False\<rparr>"

definition Rewrite ::
  "rtpSequencer \<Rightarrow> 'x rtp_packet_scheme \<Rightarrow> u32 \<Rightarrow> rtpSequencer \<times> 'x rtp_packet_scheme" where
  "Rewrite s0 packet ssrc =
     (let s1 = (if \<not> inited s0
                then s0\<lparr>lastSeq := SequenceNumber packet, lastTS := Timestamp packet,
                        lastSSRC := ssrc, inited := True\<rparr>
                else s0);
          s2 = (if SSRC packet \<noteq> lastSSRC s1
                then s1\<lparr>seqOffset := lastSeq s1 - SequenceNumber packet + 1,
                        tsOffset := lastTS s1 - Timestamp packet + 1,
                        lastSSRC := SSRC packet\<rparr>
                else s1);
          newPacket = packet\<lparr>SequenceNumber := SequenceNumber packet + seqOffset s2,
                             Timestamp := Timestamp packet + tsOffset s2,
                             SSRC := ssrc\<rparr>
      in (s2\<lparr>lastSeq := SequenceNumber newPacket, lastTS := Timestamp newPacket\<rparr>, newPacket))"

text \<open>A stream of packets through one sequencer, as a downtrack feeds it.\<close>

fun rewriteAll ::
  "rtpSequencer \<Rightarrow> u32 \<Rightarrow> 'x rtp_packet_scheme list \<Rightarrow> 'x rtp_packet_scheme list" where
  "rewriteAll s ssrc [] = []"
| "rewriteAll s ssrc (p # ps) = (case Rewrite s p ssrc of (s', q) \<Rightarrow> q # rewriteAll s' ssrc ps)"

subsection \<open>Keyframes\<close>

definition isVP8Keyframe :: "u8 list \<Rightarrow> bool" where
  "isVP8Keyframe payload =
     (if length payload < 1 then False
      else (payload ! 0 AND 0x01) = 0 \<and> (payload ! 0 AND 0x10) \<noteq> 0)"

definition isVP9Keyframe :: "u8 list \<Rightarrow> bool" where
  "isVP9Keyframe payload =
     (if length payload < 1 then False else (payload ! 0 AND 0x40) = 0)"

definition isH264Keyframe :: "u8 list \<Rightarrow> bool" where
  "isH264Keyframe payload =
     (if length payload < 1 then False
      else (let nalType = payload ! 0 AND 0x1F in nalType = 5 \<or> nalType = 7))"

definition IsKeyframe :: "u8 list \<Rightarrow> string \<Rightarrow> bool" where
  "IsKeyframe payload codecType =
     (if length payload = 0 then False
      else if codecType = ''video/VP8'' then isVP8Keyframe payload
      else if codecType = ''video/VP9'' then isVP9Keyframe payload
      else if codecType = ''video/H264'' then isH264Keyframe payload
      else False)"

subsection \<open>What one call does\<close>

lemma Rewrite_SSRC: "SSRC (snd (Rewrite s p ssrc)) = ssrc"
  by (simp add: Rewrite_def Let_def)

lemma Rewrite_Payload: "Payload (snd (Rewrite s p ssrc)) = Payload p"
  by (simp add: Rewrite_def Let_def)

lemma Rewrite_inited: "inited (fst (Rewrite s p ssrc))"
  by (simp add: Rewrite_def Let_def)

lemma Rewrite_lastSSRC: "lastSSRC (fst (Rewrite s p ssrc)) = SSRC p"
  by (simp add: Rewrite_def Let_def)

lemma Rewrite_last:
  "lastSeq (fst (Rewrite s p ssrc)) = SequenceNumber (snd (Rewrite s p ssrc))"
  "lastTS (fst (Rewrite s p ssrc)) = Timestamp (snd (Rewrite s p ssrc))"
  by (simp_all add: Rewrite_def Let_def)

lemma Rewrite_offset:
  "seqOffset (fst (Rewrite s p ssrc)) = SequenceNumber (snd (Rewrite s p ssrc)) - SequenceNumber p"
  "tsOffset (fst (Rewrite s p ssrc)) = Timestamp (snd (Rewrite s p ssrc)) - Timestamp p"
  by (simp_all add: Rewrite_def Let_def)

lemmas Rewrite_facts =
  Rewrite_SSRC Rewrite_Payload Rewrite_inited Rewrite_lastSSRC Rewrite_last Rewrite_offset

lemma Rewrite_same:
  assumes "inited s" and "SSRC p = lastSSRC s"
  shows "SequenceNumber (snd (Rewrite s p ssrc)) = SequenceNumber p + seqOffset s"
    and "Timestamp (snd (Rewrite s p ssrc)) = Timestamp p + tsOffset s"
  using assms by (simp_all add: Rewrite_def Let_def)

lemma Rewrite_switch:
  assumes "inited s" and "SSRC p \<noteq> lastSSRC s"
  shows "SequenceNumber (snd (Rewrite s p ssrc)) = lastSeq s + 1"
    and "Timestamp (snd (Rewrite s p ssrc)) = lastTS s + 1"
  using assms by (simp_all add: Rewrite_def Let_def)


subsection \<open>What a whole stream looks like\<close>

definition seqState :: "rtpSequencer \<Rightarrow> u32 \<Rightarrow> 'x rtp_packet_scheme list \<Rightarrow> rtpSequencer" where
  "seqState s ssrc ps = run (\<lambda>s p. fst (Rewrite s p ssrc)) s ps"

lemma length_rewriteAll [simp]: "length (rewriteAll s ssrc ps) = length ps"
  by (induction ps arbitrary: s) (simp_all split: prod.splits)

lemma rewriteAll_nth:
  "i < length ps \<Longrightarrow>
   rewriteAll s ssrc ps ! i = snd (Rewrite (seqState s ssrc (take i ps)) (ps ! i) ssrc)"
proof (induction ps arbitrary: s i)
  case Nil
  then show ?case by simp
next
  case (Cons p ps)
  then show ?case
    by (cases i) (simp_all add: seqState_def split: prod.splits)
qed

lemma seqState_Suc:
  "i < length ps \<Longrightarrow>
   seqState s ssrc (take (Suc i) ps) = fst (Rewrite (seqState s ssrc (take i ps)) (ps ! i) ssrc)"
  by (simp add: seqState_def take_Suc_conv_app_nth)

lemma seqState_after:
  fixes s :: rtpSequencer and ssrc :: u32 and ps :: "'x rtp_packet_scheme list"
  assumes "i < length ps"
  defines "s' \<equiv> seqState s ssrc (take (Suc i) ps)"
  shows "inited s'" and "lastSSRC s' = SSRC (ps ! i)"
    and "lastSeq s' = SequenceNumber (rewriteAll s ssrc ps ! i)"
    and "lastTS s' = Timestamp (rewriteAll s ssrc ps ! i)"
    and "seqOffset s' = SequenceNumber (rewriteAll s ssrc ps ! i) - SequenceNumber (ps ! i)"
    and "tsOffset s' = Timestamp (rewriteAll s ssrc ps ! i) - Timestamp (ps ! i)"
  using assms by (simp_all add: seqState_Suc rewriteAll_nth Rewrite_facts)

lemma rewriteAll_step:
  fixes s :: rtpSequencer and ssrc :: u32 and ps :: "'x rtp_packet_scheme list"
  assumes "Suc i < length ps"
  defines "qs \<equiv> rewriteAll s ssrc ps"
  shows "SequenceNumber (qs ! Suc i) =
           (if SSRC (ps ! Suc i) = SSRC (ps ! i)
            then SequenceNumber (qs ! i) + (SequenceNumber (ps ! Suc i) - SequenceNumber (ps ! i))
            else SequenceNumber (qs ! i) + 1)"
    and "Timestamp (qs ! Suc i) =
           (if SSRC (ps ! Suc i) = SSRC (ps ! i)
            then Timestamp (qs ! i) + (Timestamp (ps ! Suc i) - Timestamp (ps ! i))
            else Timestamp (qs ! i) + 1)"
proof -
  have i: "i < length ps" using assms(1) by simp
  note after = seqState_after [OF i, of s ssrc]
  note nxt = rewriteAll_nth [OF assms(1), of s ssrc]
  show "SequenceNumber (qs ! Suc i) =
           (if SSRC (ps ! Suc i) = SSRC (ps ! i)
            then SequenceNumber (qs ! i) + (SequenceNumber (ps ! Suc i) - SequenceNumber (ps ! i))
            else SequenceNumber (qs ! i) + 1)"
    and "Timestamp (qs ! Suc i) =
           (if SSRC (ps ! Suc i) = SSRC (ps ! i)
            then Timestamp (qs ! i) + (Timestamp (ps ! Suc i) - Timestamp (ps ! i))
            else Timestamp (qs ! i) + 1)"
    using after unfolding qs_def nxt by (auto simp: Rewrite_same Rewrite_switch)
qed

text \<open>The stream as the subscriber's decoder wants it: no gap and no jump.\<close>

fun gapFree :: "'x rtp_packet_scheme list \<Rightarrow> bool" where
  "gapFree (p # q # ps) =
     ((SSRC q = SSRC p \<longrightarrow> SequenceNumber q = SequenceNumber p + 1) \<and> gapFree (q # ps))"
| "gapFree ps = True"

lemma gapFree_nth:
  "gapFree ps \<Longrightarrow> Suc i < length ps \<Longrightarrow> SSRC (ps ! Suc i) = SSRC (ps ! i) \<Longrightarrow>
   SequenceNumber (ps ! Suc i) = SequenceNumber (ps ! i) + 1"
proof (induction ps arbitrary: i rule: gapFree.induct)
  case (1 p q ps)
  then show ?case by (cases i) auto
qed simp_all

lemma rewriteAll_count:
  assumes "gapFree ps" and "i < length ps"
  shows "SequenceNumber (rewriteAll s ssrc ps ! i) =
         SequenceNumber (rewriteAll s ssrc ps ! 0) + of_nat i"
  using assms(2)
proof (induction i)
  case 0
  then show ?case by simp
next
  case (Suc i)
  then have "SequenceNumber (rewriteAll s ssrc ps ! Suc i) =
             SequenceNumber (rewriteAll s ssrc ps ! i) + 1"
    using gapFree_nth [OF assms(1)] by (simp add: rewriteAll_step)
  with Suc show ?case by simp
qed

lemma rewriteAll_head:
  "ps \<noteq> [] \<Longrightarrow> SequenceNumber (rewriteAll newRTPSequencer ssrc ps ! 0) =
     SequenceNumber (ps ! 0) + (if SSRC (ps ! 0) = ssrc then 0 else 1)"
  by (cases ps) (auto simp: Rewrite_def newRTPSequencer_def Let_def split: prod.splits)

lemma rewriteAll_frame:
  "i < length ps \<Longrightarrow> SSRC (rewriteAll s ssrc ps ! i) = ssrc"
  "i < length ps \<Longrightarrow> Payload (rewriteAll s ssrc ps ! i) = Payload (ps ! i)"
  by (simp_all add: rewriteAll_nth Rewrite_facts)


subsection \<open>Properties\<close>

text \<open>C3: Whatever packets of whatever layers are fed to a sequencer, in any order, two
  outputs in a row differ in sequence number and timestamp exactly as the inputs do when
  both come from one layer (one SSRC), and by one when the second is the first packet of
  another layer; every output carries the downtrack's SSRC and the input's payload. The
  arithmetic is modulo \<open>2 ^ 16\<close> and \<open>2 ^ 32\<close>, so the statement covers wrap-around.\<close>

theorem Rewrite_splices:
  fixes s :: rtpSequencer and ssrc :: u32 and ps :: "'x rtp_packet_scheme list"
  assumes "Suc i < length ps"
  defines "qs \<equiv> rewriteAll s ssrc ps"
  shows "SequenceNumber (qs ! Suc i) - SequenceNumber (qs ! i) =
           (if SSRC (ps ! Suc i) = SSRC (ps ! i)
            then SequenceNumber (ps ! Suc i) - SequenceNumber (ps ! i) else 1)
    \<and> Timestamp (qs ! Suc i) - Timestamp (qs ! i) =
           (if SSRC (ps ! Suc i) = SSRC (ps ! i)
            then Timestamp (ps ! Suc i) - Timestamp (ps ! i) else 1)
    \<and> SSRC (qs ! i) = ssrc \<and> Payload (qs ! i) = Payload (ps ! i)"
  using assms(1) unfolding qs_def
  by (auto simp: rewriteAll_step rewriteAll_frame)

definition switchPackets :: "rtp_packet list" where
  "switchPackets =
     [\<lparr>SequenceNumber = 65535, Timestamp = 900, SSRC = 7, Payload = [1]\<rparr>,
      \<lparr>SequenceNumber = 0, Timestamp = 990, SSRC = 7, Payload = [2]\<rparr>,
      \<lparr>SequenceNumber = 400, Timestamp = 5, SSRC = 8, Payload = [3]\<rparr>,
      \<lparr>SequenceNumber = 401, Timestamp = 95, SSRC = 8, Payload = [4]\<rparr>]"

theorem Rewrite_splices_witness:
  "SequenceNumber (rewriteAll newRTPSequencer 42 switchPackets ! 2)
     - SequenceNumber (rewriteAll newRTPSequencer 42 switchPackets ! 1) = 1"
  using Rewrite_splices [of 1 switchPackets newRTPSequencer 42]
  by (simp add: switchPackets_def numeral_2_eq_2)

text \<open>A downtrack whose input layers are each without gaps sends a stream without
  gaps: from a fresh sequencer, output \<open>i\<close> has the sequence number of the first output plus
  \<open>i\<close> (modulo \<open>2 ^ 16\<close>), however often the layer switches; the first output has the first
  input's number, plus one when the remote SSRC is not the downtrack's own.\<close>

theorem Rewrite_gapless:
  fixes ps :: "'x rtp_packet_scheme list"
  assumes "gapFree ps" and "i < length ps"
  shows "SequenceNumber (rewriteAll newRTPSequencer ssrc ps ! i) =
         SequenceNumber (ps ! 0) + (if SSRC (ps ! 0) = ssrc then 0 else 1) + of_nat i"
proof -
  have "ps \<noteq> []" using assms(2) by auto
  from rewriteAll_head [OF this, of ssrc] show ?thesis
    by (simp add: rewriteAll_count [OF assms])
qed

theorem Rewrite_gapless_witness:
  "SequenceNumber (rewriteAll newRTPSequencer 42 switchPackets ! 3) = 3"
proof -
  have "gapFree switchPackets"
    by (simp add: switchPackets_def)
  then show ?thesis
    using Rewrite_gapless [of switchPackets 3 42] by (simp add: switchPackets_def)
qed

text \<open>The sequencer continues after a layer switch from the packet it sent last, not
  from the highest number it has sent: when two packets of the old layer arrive in the
  wrong order just before the switch, the first packet of the new layer repeats a sequence
  number the subscriber has already received.\<close>

definition reorderedPackets :: "rtp_packet list" where
  "reorderedPackets =
     [\<lparr>SequenceNumber = 10, Timestamp = 100, SSRC = 7, Payload = [1]\<rparr>,
      \<lparr>SequenceNumber = 12, Timestamp = 300, SSRC = 7, Payload = [3]\<rparr>,
      \<lparr>SequenceNumber = 11, Timestamp = 200, SSRC = 7, Payload = [2]\<rparr>,
      \<lparr>SequenceNumber = 70, Timestamp = 900, SSRC = 8, Payload = [4]\<rparr>]"

theorem Rewrite_reorder_repeats:
  "map SequenceNumber (rewriteAll newRTPSequencer 42 reorderedPackets) = [11, 13, 12, 13]"
  by (simp add: reorderedPackets_def Rewrite_def newRTPSequencer_def Let_def)

text \<open>Which first payload bytes count as a keyframe, codec by codec: for VP8 the start
  bit (\<open>0x10\<close>) is set and bit \<open>0\<close> is clear, for VP9 bit \<open>0x40\<close> is clear, for H264 the
  NAL type is 5 or 7; an empty payload and any other codec is never a keyframe. Only the
  first byte is looked at.\<close>

theorem IsKeyframe_iff:
  "IsKeyframe payload codec \<longleftrightarrow>
     (\<exists>b rest. payload = b # rest \<and>
       (codec = ''video/VP8'' \<and> \<not> bit b 0 \<and> bit b 4
        \<or> codec = ''video/VP9'' \<and> \<not> bit b 6
        \<or> codec = ''video/H264'' \<and> (take_bit 5 b = 5 \<or> take_bit 5 b = 7)))"
proof (cases payload)
  case Nil
  then show ?thesis by (simp add: IsKeyframe_def)
next
  case (Cons b rest)
  have "b AND 1 = 0 \<longleftrightarrow> \<not> bit b 0"
    by (simp add: and_one_eq bit_0 even_iff_mod_2_eq_zero)
  moreover have "b AND 0x10 = 0 \<longleftrightarrow> \<not> bit b 4" and "b AND 0x40 = 0 \<longleftrightarrow> \<not> bit b 6"
    using and_exp_eq_0_iff_not_bit [of b 4] and_exp_eq_0_iff_not_bit [of b 6] by simp_all
  moreover have "b AND 0x1F = take_bit 5 b"
    by (simp add: take_bit_eq_mask mask_eq_exp_minus_1)
  ultimately show ?thesis
    using Cons
    by (auto simp: IsKeyframe_def isVP8Keyframe_def isVP9Keyframe_def isH264Keyframe_def Let_def)
qed

text \<open>The comment on the VP8 test asks for partition index 0 and a clear P bit. The
  code tests neither: it accepts every descriptor byte that starts a partition and has an
  even index, and it never reads the frame header, so the first packet of an interframe
  (descriptor \<open>0x10\<close>, header byte with the P bit \<open>0x01\<close> set) and a packet of partition 2
  count as keyframes.\<close>

theorem VP8_interframe_accepted:
  "IsKeyframe (0x10 # 0x01 # rest) ''video/VP8'' \<and> IsKeyframe (0x12 # rest) ''video/VP8''"
  by (simp add: IsKeyframe_def isVP8Keyframe_def)

end
