(* ===== verification/World.thy ===== *)
theory World
  imports Rtp Selector
begin

section \<open>The store: objects, the outside world, goroutines\<close>

text \<open>
  The package's objects point to each other (a downtrack is in its subscriber's map, in its
  track's list and in a forwarder's set), so they live in an explicit store: one heap per
  Go type, indexed by references, and a counter for fresh references. A heap is a total
  function, because every non-nil pointer of the program comes from a constructor; a field
  that may be nil is an option.

  Calls out of the package (pion's peer connections, tracks and RTCP, gorilla's WebSocket)
  are \<^emph>\<open>effects\<close>. The history of the world lists the effects performed with their
  outcomes, and the environment decides each outcome from the history before it: any
  function is an environment, so every theorem holds for every behaviour of the libraries
  unless it says what it relies on. Readings of the clock are numbered, and the environment
  gives the time of each. \<open>go\<close> statements add a task to the world; a task runs later as an
  operation of its own.

  Each method of the package that takes its lock for its whole body is one step here, and a
  method that releases its lock in between is modelled in the order in which it performs
  its parts. What concurrent callers can do in the gaps is the subject of theory
  \<open>Negotiation\<close> and of the machines of the components.
\<close>

type_synonym ref = nat

subsection \<open>JSON values on the signalling connection\<close>

text \<open>
  \<open>JSdp\<close> and \<open>JCandidate\<close> are the encodings of pion's session descriptions and ICE
  candidates, which the package passes through unread.
\<close>

datatype json =
    JNull
  | JBool bool
  | JNum int
  | JStr string
  | JArr "json list"
  | JObj "(string \<times> json) list"
  | JSdp string
  | JCandidate string

subsection \<open>Effects\<close>

text \<open>The configuration of the server. Of a \<open>webrtc.ICEServer\<close> the program sets the URLs only.\<close>

type_synonym ICEServer = "string list"

record Config =
  ICEServers :: "ICEServer list"

datatype effect =
    NewPC "ICEServer list"                  \<comment> \<open>\<open>api.NewPeerConnection\<close>\<close>
  | CreateDataChannel ref                   \<comment> \<open>peer connection\<close>
  | NewTrackLocal string string string      \<comment> \<open>codec, track ID, stream ID\<close>
  | AddTrackToPC ref ref                    \<comment> \<open>peer connection, local track\<close>
  | WriteTrackRTP ref rtp_packet            \<comment> \<open>local track, packet\<close>
  | WritePLI ref u32                        \<comment> \<open>peer connection, media SSRC\<close>
  | SetReadDeadline ref                     \<comment> \<open>layer receiver\<close>
  | ReadTrackRTP ref                        \<comment> \<open>layer receiver\<close>
  | ReadSenderRTCP ref                      \<comment> \<open>RTP sender\<close>
  | CreateOffer ref
  | CreateAnswer ref
  | SetLocalDescription ref string
  | SetRemoteDescription ref string
  | AddICE ref string
  | ClosePC ref
  | SendDC ref "u8 list"                    \<comment> \<open>data channel, data\<close>
  | WriteWS ref json                        \<comment> \<open>connection, message\<close>
  | CloseWS ref
  | UpgradeWS                               \<comment> \<open>\<open>upgrader.Upgrade\<close>\<close>

type_synonym history = "(effect \<times> string option) list"

text \<open>
  The outside world: the error of a call (\<open>None\<close> is success), the session description a
  successful \<open>CreateOffer\<close> or \<open>CreateAnswer\<close> returns, the packet a successful read
  returns, whether a data channel is open, the SSRC of an RTP sender, the clock, the orders
  of the \<open>range\<close> loops over string keys and over references, and how \<open>json.Unmarshal\<close> stores
  a value into a variable of one of pion's two types (\<open>None\<close> is a decoding error).
\<close>

record env =
  callErr :: "history \<Rightarrow> effect \<Rightarrow> string option"
  sdpOf :: "history \<Rightarrow> effect \<Rightarrow> string"
  packetOf :: "history \<Rightarrow> effect \<Rightarrow> rtp_packet"
  dcOpen :: "history \<Rightarrow> ref \<Rightarrow> bool"
  senderSSRC :: "ref \<Rightarrow> u32"
  clock :: "nat \<Rightarrow> gotime"
  ordStr :: "history \<Rightarrow> string list \<Rightarrow> string list"
  ordRef :: "history \<Rightarrow> ref list \<Rightarrow> ref list"
  decodeSdp :: "string \<Rightarrow> json \<Rightarrow> string option"
  decodeCandidate :: "string \<Rightarrow> json \<Rightarrow> string option"

subsection \<open>Objects\<close>

text \<open>What the package reads of a \<open>webrtc.TrackRemote\<close>.\<close>

record TrackRemote =
  rt_ID :: string
  rt_StreamID :: string
  rt_RID :: string
  rt_Kind :: string
  rt_SSRC :: u32
  rt_MimeType :: string

text \<open>
  \<open>LayerReceiver.track\<close> is never nil, because the constructor reads its codec; the unused
  \<open>rtpReceiver\<close> field is left out.
\<close>

record LayerReceiver =
  lr_track :: TrackRemote
  lr_pc :: "ref option"
  lr_codec :: string
  lr_layerName :: string
  lr_closeCh :: chan
  lr_closed :: bool

record Layer =
  ly_name :: string
  ly_receiver :: ref
  ly_ssrc :: u32
  ly_active :: bool

record TrackReceiver =
  tk_trackID :: string
  tk_streamID :: string
  tk_kind :: string
  tk_layers :: "(string, ref) gomap"
  tk_downTracks :: "ref list"
  tk_closed :: bool
  tk_closeCh :: chan

text \<open>The selector's callback is the closure over the downtrack, named by its reference.\<close>

record DownTrack =
  dt_subscriber :: ref
  dt_trackReceiver :: ref
  dt_track :: ref
  dt_sender :: ref
  dt_sequencer :: rtpSequencer
  dt_selector :: "ref LayerSelector"
  dt_codec :: string
  dt_closed :: bool

record Forwarder =
  fw_trackReceiver :: ref
  fw_downTracks :: "ref list"
  fw_closed :: bool
  fw_closeCh :: chan

record Router =
  ro_id :: string
  ro_session :: ref
  ro_tracks :: "(string, ref) gomap"
  ro_forwarders :: "(string, ref) gomap"
  ro_subscribers :: "ref list"
  ro_closed :: bool

record Subscriber =
  su_peer :: ref
  su_pc :: ref
  su_downTracks :: "(string, ref) gomap"
  su_routers :: "ref list"
  su_dataChannel :: "ref option"
  su_closed :: bool
  su_negotiating :: bool
  su_needsOffer :: bool

record Publisher =
  pu_peer :: ref
  pu_pc :: ref
  pu_router :: ref
  pu_tracks :: "(string, ref) gomap"
  pu_closed :: bool

record Peer =
  pe_id :: string
  pe_session :: ref
  pe_publisher :: "ref option"
  pe_subscriber :: "ref option"
  pe_conn :: ref
  pe_closed :: bool

record Session =
  se_id :: string
  se_peers :: "(string, ref) gomap"
  se_routers :: "(string, ref) gomap"

subsection \<open>Goroutines\<close>

datatype task =
    ReadRTCP ref                 \<comment> \<open>downtrack\<close>
  | InitialKeyframe ref nat      \<comment> \<open>downtrack, rounds left\<close>
  | LayerSwitched ref string     \<comment> \<open>downtrack, new layer\<close>
  | Renegotiate ref              \<comment> \<open>subscriber\<close>
  | NotifyExisting ref ref       \<comment> \<open>session, peer\<close>
  | ReadRTP ref ref ref string   \<comment> \<open>publisher, layer receiver, track, layer name\<close>

subsection \<open>The world\<close>

record world =
  receivers :: "ref \<Rightarrow> LayerReceiver"
  layers :: "ref \<Rightarrow> Layer"
  tracks :: "ref \<Rightarrow> TrackReceiver"
  downtracks :: "ref \<Rightarrow> DownTrack"
  forwarders :: "ref \<Rightarrow> Forwarder"
  routers :: "ref \<Rightarrow> Router"
  subscribers :: "ref \<Rightarrow> Subscriber"
  publishers :: "ref \<Rightarrow> Publisher"
  peers :: "ref \<Rightarrow> Peer"
  sessions :: "ref \<Rightarrow> Session"
  sfu_config :: Config
  sfu_sessions :: "(string, ref) gomap"
  nextRef :: ref
  hist :: history
  ticks :: nat
  tasks :: "task list"
  panicked :: bool

text \<open>Updates of one object.\<close>

definition upd_receiver :: "ref \<Rightarrow> (LayerReceiver \<Rightarrow> LayerReceiver) \<Rightarrow> world \<Rightarrow> world" where
  "upd_receiver r f w = w\<lparr>receivers := (receivers w)(r := f (receivers w r))\<rparr>"
definition upd_layer :: "ref \<Rightarrow> (Layer \<Rightarrow> Layer) \<Rightarrow> world \<Rightarrow> world" where
  "upd_layer r f w = w\<lparr>layers := (layers w)(r := f (layers w r))\<rparr>"
definition upd_track :: "ref \<Rightarrow> (TrackReceiver \<Rightarrow> TrackReceiver) \<Rightarrow> world \<Rightarrow> world" where
  "upd_track r f w = w\<lparr>tracks := (tracks w)(r := f (tracks w r))\<rparr>"
definition upd_dt :: "ref \<Rightarrow> (DownTrack \<Rightarrow> DownTrack) \<Rightarrow> world \<Rightarrow> world" where
  "upd_dt r f w = w\<lparr>downtracks := (downtracks w)(r := f (downtracks w r))\<rparr>"
definition upd_forwarder :: "ref \<Rightarrow> (Forwarder \<Rightarrow> Forwarder) \<Rightarrow> world \<Rightarrow> world" where
  "upd_forwarder r f w = w\<lparr>forwarders := (forwarders w)(r := f (forwarders w r))\<rparr>"
definition upd_router :: "ref \<Rightarrow> (Router \<Rightarrow> Router) \<Rightarrow> world \<Rightarrow> world" where
  "upd_router r f w = w\<lparr>routers := (routers w)(r := f (routers w r))\<rparr>"
definition upd_subscriber :: "ref \<Rightarrow> (Subscriber \<Rightarrow> Subscriber) \<Rightarrow> world \<Rightarrow> world" where
  "upd_subscriber r f w = w\<lparr>subscribers := (subscribers w)(r := f (subscribers w r))\<rparr>"
definition upd_publisher :: "ref \<Rightarrow> (Publisher \<Rightarrow> Publisher) \<Rightarrow> world \<Rightarrow> world" where
  "upd_publisher r f w = w\<lparr>publishers := (publishers w)(r := f (publishers w r))\<rparr>"
definition upd_peer :: "ref \<Rightarrow> (Peer \<Rightarrow> Peer) \<Rightarrow> world \<Rightarrow> world" where
  "upd_peer r f w = w\<lparr>peers := (peers w)(r := f (peers w r))\<rparr>"
definition upd_session :: "ref \<Rightarrow> (Session \<Rightarrow> Session) \<Rightarrow> world \<Rightarrow> world" where
  "upd_session r f w = w\<lparr>sessions := (sessions w)(r := f (sessions w r))\<rparr>"

lemmas upd_defs [go_defs] =
  upd_receiver_def upd_layer_def upd_track_def upd_dt_def upd_forwarder_def upd_router_def
  upd_subscriber_def upd_publisher_def upd_peer_def upd_session_def

text \<open>A fresh reference; a call out of the package; a reading of the clock; a goroutine.\<close>

definition fresh :: "world \<Rightarrow> ref \<times> world" where
  "fresh w = (nextRef w, w\<lparr>nextRef := Suc (nextRef w)\<rparr>)"

definition call :: "env \<Rightarrow> effect \<Rightarrow> world \<Rightarrow> string option \<times> world" where
  "call E e w = (let err = callErr E (hist w) e in (err, w\<lparr>hist := hist w @ [(e, err)]\<rparr>))"

definition readClock :: "env \<Rightarrow> world \<Rightarrow> gotime \<times> world" where
  "readClock E w = (clock E (ticks w), w\<lparr>ticks := Suc (ticks w)\<rparr>)"

definition spawn :: "task \<Rightarrow> world \<Rightarrow> world" where
  "spawn t w = w\<lparr>tasks := tasks w @ [t]\<rparr>"

lemmas world_defs [go_defs] = fresh_def call_def readClock_def spawn_def

text \<open>The order of a \<open>range\<close> loop over a map with string keys, or over a set of references.\<close>

definition rangeStr :: "env \<Rightarrow> world \<Rightarrow> (string, 'v) gomap \<Rightarrow> string list" where
  "rangeStr E w m = range_order (ordStr E (hist w)) (gm_keys m)"

definition rangeRef :: "env \<Rightarrow> world \<Rightarrow> ref list \<Rightarrow> ref list" where
  "rangeRef E w rs = range_order (ordRef E (hist w)) rs"

text \<open>The values of a map in the order of a \<open>range\<close> loop.\<close>

definition rangeVals :: "env \<Rightarrow> world \<Rightarrow> (string, 'v) gomap \<Rightarrow> 'v list" where
  "rangeVals E w m = List.map_filter (gm_get m) (rangeStr E w m)"

lemma set_rangeStr [simp]: "set (rangeStr E w m) = set (gm_keys m)"
  by (simp add: rangeStr_def)

lemma distinct_rangeStr [simp]: "gm_ok m \<Longrightarrow> distinct (rangeStr E w m)"
  by (simp add: rangeStr_def gm_ok_def)

lemma set_map_filter: "set (List.map_filter f xs) = {y. \<exists>x\<in>set xs. f x = Some y}"
  by (induction xs) (auto simp: List.map_filter_simps split: option.splits)

lemma mem_rangeVals [simp]: "v \<in> set (rangeVals E w m) \<longleftrightarrow> (\<exists>k. gm_get m k = Some v)"
  by (auto simp: rangeVals_def set_map_filter set_gm_keys)

lemma set_rangeRef [simp]: "set (rangeRef E w rs) = set rs"
  by (simp add: rangeRef_def)

lemma distinct_rangeRef [simp]: "distinct rs \<Longrightarrow> distinct (rangeRef E w rs)"
  by (simp add: rangeRef_def)

text \<open>The packets a local track has accepted, in order.\<close>

definition sentOn :: "ref \<Rightarrow> history \<Rightarrow> rtp_packet list" where
  "sentOn t h = List.map_filter (\<lambda>x. case x of
     (WriteTrackRTP t' p, None) \<Rightarrow> if t' = t then Some p else None | _ \<Rightarrow> None) h"

lemma sentOn_Nil [simp]: "sentOn t [] = []"
  by (simp add: sentOn_def List.map_filter_def)

lemma sentOn_append [simp]: "sentOn t (h @ h') = sentOn t h @ sentOn t h'"
  by (simp add: sentOn_def List.map_filter_def)

subsection \<open>Close signals\<close>

text \<open>
  In every state the server gets into, a close channel is closed exactly when the flag
  beside it is set, and no run-time panic has happened.
\<close>

definition chan_ok :: "world \<Rightarrow> bool" where
  "chan_ok w \<longleftrightarrow> \<not> panicked w
     \<and> (\<forall>r. lr_closeCh (receivers w r) = ChClosed \<longleftrightarrow> lr_closed (receivers w r))
     \<and> (\<forall>t. tk_closeCh (tracks w t) = ChClosed \<longleftrightarrow> tk_closed (tracks w t))
     \<and> (\<forall>f. fw_closeCh (forwarders w f) = ChClosed \<longleftrightarrow> fw_closed (forwarders w f))"

lemma chan_eqI: "(c = ChClosed \<longleftrightarrow> b) \<Longrightarrow> c = (if b then ChClosed else ChOpen)"
  by (cases c) auto

lemma chan_ok_receiver:
  "chan_ok w \<Longrightarrow> lr_closeCh (receivers w r) = (if lr_closed (receivers w r) then ChClosed else ChOpen)"
  by (rule chan_eqI) (simp add: chan_ok_def)

lemma chan_ok_track:
  "chan_ok w \<Longrightarrow> tk_closeCh (tracks w t) = (if tk_closed (tracks w t) then ChClosed else ChOpen)"
  by (rule chan_eqI) (simp add: chan_ok_def)

lemma chan_ok_forwarder:
  "chan_ok w \<Longrightarrow> fw_closeCh (forwarders w f) = (if fw_closed (forwarders w f) then ChClosed else ChOpen)"
  by (rule chan_eqI) (simp add: chan_ok_def)

text \<open>What does not touch a channel keeps the correspondence.\<close>

lemma chan_ok_cong:
  "receivers v = receivers w \<Longrightarrow> tracks v = tracks w \<Longrightarrow> forwarders v = forwarders w \<Longrightarrow>
   panicked v = panicked w \<Longrightarrow> chan_ok v = chan_ok w"
  by (simp add: chan_ok_def)

lemma chan_ok_frames [simp]:
  "chan_ok (upd_layer l g1 w) = chan_ok w"
  "chan_ok (upd_dt d g2 w) = chan_ok w"
  "chan_ok (upd_router r g3 w) = chan_ok w"
  "chan_ok (upd_subscriber s g4 w) = chan_ok w"
  "chan_ok (upd_publisher p g5 w) = chan_ok w"
  "chan_ok (upd_peer q g6 w) = chan_ok w"
  "chan_ok (upd_session u g7 w) = chan_ok w"
  "chan_ok (snd (fresh w)) = chan_ok w"
  "chan_ok (snd (call E e w)) = chan_ok w"
  "chan_ok (snd (readClock E w)) = chan_ok w"
  "chan_ok (spawn t w) = chan_ok w"
  by (simp_all add: chan_ok_def upd_defs world_defs Let_def)

lemma chan_ok_upd [inv_intros]:
  "chan_ok w \<Longrightarrow> (lr_closeCh (g1 (receivers w r)) = ChClosed \<longleftrightarrow> lr_closed (g1 (receivers w r)))
     \<Longrightarrow> chan_ok (upd_receiver r g1 w)"
  "chan_ok w \<Longrightarrow> (tk_closeCh (g2 (tracks w t)) = ChClosed \<longleftrightarrow> tk_closed (g2 (tracks w t)))
     \<Longrightarrow> chan_ok (upd_track t g2 w)"
  "chan_ok w \<Longrightarrow> (fw_closeCh (g3 (forwarders w f)) = ChClosed \<longleftrightarrow> fw_closed (g3 (forwarders w f)))
     \<Longrightarrow> chan_ok (upd_forwarder f g3 w)"
  by (auto simp: chan_ok_def upd_defs)

text \<open>The empty server. References not yet allocated hold zero values, and reference 0, which no
  constructor returns, stands in the reference fields of these.\<close>

definition zeroTrackRemote :: TrackRemote where
  "zeroTrackRemote = \<lparr>rt_ID = '''', rt_StreamID = '''', rt_RID = '''', rt_Kind = '''',
     rt_SSRC = 0, rt_MimeType = ''''\<rparr>"

definition world0 :: world where
  "world0 =
    \<lparr>receivers = (\<lambda>_. \<lparr>lr_track = zeroTrackRemote, lr_pc = None, lr_codec = '''',
       lr_layerName = '''', lr_closeCh = ChOpen, lr_closed = False\<rparr>),
     layers = (\<lambda>_. \<lparr>ly_name = '''', ly_receiver = 0, ly_ssrc = 0, ly_active = False\<rparr>),
     tracks = (\<lambda>_. \<lparr>tk_trackID = '''', tk_streamID = '''', tk_kind = '''', tk_layers = [],
       tk_downTracks = [], tk_closed = False, tk_closeCh = ChOpen\<rparr>),
     downtracks = (\<lambda>_. \<lparr>dt_subscriber = 0, dt_trackReceiver = 0, dt_track = 0, dt_sender = 0,
       dt_sequencer = newRTPSequencer, dt_selector = NewLayerSelector '''' '''',
       dt_codec = '''', dt_closed = False\<rparr>),
     forwarders = (\<lambda>_. \<lparr>fw_trackReceiver = 0, fw_downTracks = [], fw_closed = False,
       fw_closeCh = ChOpen\<rparr>),
     routers = (\<lambda>_. \<lparr>ro_id = '''', ro_session = 0, ro_tracks = [], ro_forwarders = [],
       ro_subscribers = [], ro_closed = False\<rparr>),
     subscribers = (\<lambda>_. \<lparr>su_peer = 0, su_pc = 0, su_downTracks = [], su_routers = [],
       su_dataChannel = None, su_closed = False, su_negotiating = False, su_needsOffer = False\<rparr>),
     publishers = (\<lambda>_. \<lparr>pu_peer = 0, pu_pc = 0, pu_router = 0, pu_tracks = [], pu_closed = False\<rparr>),
     peers = (\<lambda>_. \<lparr>pe_id = '''', pe_session = 0, pe_publisher = None, pe_subscriber = None,
       pe_conn = 0, pe_closed = False\<rparr>),
     sessions = (\<lambda>_. \<lparr>se_id = '''', se_peers = [], se_routers = []\<rparr>),
     sfu_config = \<lparr>ICEServers = []\<rparr>, sfu_sessions = [], nextRef = 1, hist = [], ticks = 0, tasks = [], panicked = False\<rparr>"

text \<open>\<open>NewSFU\<close>, given what registering the codecs returns; \<open>None\<close> is the panic when it fails.\<close>

definition NewSFU :: "string option \<Rightarrow> Config \<Rightarrow> world option" where
  "NewSFU registered config =
     (case registered of Some err \<Rightarrow> None | None \<Rightarrow> Some (world0\<lparr>sfu_config := config\<rparr>))"

lemma nextRef_world0 [simp]: "nextRef world0 = 1"
  by (simp add: world0_def)

lemma chan_ok_world0 [simp]: "chan_ok world0"
  by (simp add: chan_ok_def world0_def)

text \<open>An environment in which every call succeeds, used by the witnesses.\<close>

definition env0 :: env where
  "env0 = \<lparr>callErr = (\<lambda>_ _. None), sdpOf = (\<lambda>_ _. ''sdp''),
     packetOf = (\<lambda>_ _. \<lparr>SequenceNumber = 0, Timestamp = 0, SSRC = 0, Payload = []\<rparr>),
     dcOpen = (\<lambda>_ _. True), senderSSRC = (\<lambda>r. of_nat r),
     clock = (\<lambda>n. int n * second), ordStr = (\<lambda>_ ks. ks), ordRef = (\<lambda>_ rs. rs),
     decodeSdp = (\<lambda>cur j. case j of JSdp sdp \<Rightarrow> Some sdp | JNull \<Rightarrow> Some cur | _ \<Rightarrow> None),
     decodeCandidate = (\<lambda>cur j. case j of JCandidate c \<Rightarrow> Some c | JNull \<Rightarrow> Some cur | _ \<Rightarrow> None)\<rparr>"

end
