(* ===== verification/Locks.thy ===== *)
theory Locks
  imports World "HOL-Library.Multiset"
begin

section \<open>Locks and goroutines\<close>

text \<open>
  What every method of the package does with locks. A method becomes the list of what it locks,
  calls and starts, in the order of the code, with the nesting of critical sections; everything
  else it does is left out, and a condition becomes a choice, a \<open>range\<close> loop a loop that runs any
  number of times, an object found in a field or a map any object. What is proved of all runs
  of these skeletons holds for the runs of the code. Calls of libraries take no lock of the package:
  pion runs its callbacks in goroutines of its own.

  The goroutines that run at a time are a multiset of stacks, and every go_method may be started at
  any time from outside. \<open>sync.RWMutex\<close> lets a reader wait when a writer waits.
\<close>

subsection \<open>Locks, methods and skeletons\<close>

datatype lock =
  SfuMu | SessionMu ref | PeerMu ref | PublisherMu ref | RouterMu ref | NegMu ref | SubscriberMu ref
| ForwarderMu ref | DownTrackMu ref | SelectorMu ref | TrackMu ref | LayerMu ref | ReceiverMu ref
| ConnMu ref | ControllerMu ref | EstimatorMu ref | CongestionMu ref | TwccReceiverMu ref | TwccSenderMu ref

datatype lock_mode = Rd | Wr

text \<open>The methods, by file. The first reference is the receiver.\<close>

datatype sfu_method = SfuGetOrCreateSession | SfuGetSession | SfuDeleteSession | SfuHandleWebSocket ref

datatype signaling_method =
  HandlerRun ref | HandleRequest ref | HandleJoin ref | HandleSubscribe ref | HandleCandidate ref
| HandleAnswerRequest ref | HandleLeave ref | HandleSetLayer ref | HandleGetLayer ref

datatype session_method =
  SessionAddPeer ref | SessionGetPeer ref | SessionRemovePeer ref | SessionAddRouter ref
| SessionGetRouter ref | SessionSubscribe ref | SessionNotifyExistingTracks ref ref
| SessionBroadcast ref | SessionBroadcastData ref | SessionClose ref

datatype peer_method =
  NewPeer | PeerHandleOffer ref | PeerHandleAnswer ref | PeerAddICECandidate ref | PeerSubscribe ref ref
| PeerSetLayer ref | PeerGetLayer ref | PeerSendNotification ref | PeerSendOffer ref
| PeerSendCandidate ref | PeerSendData ref | PeerClose ref

datatype publisher_method =
  PublisherOnICECandidate ref | PublisherOnStateChange ref | PublisherOnMessage ref
| PublisherOnTrack ref | PublisherReadRTP ref | PublisherClose ref

datatype subscriber_method =
  SubscriberOnICECandidate ref | SubscriberOnStateChange ref | SubscriberSubscribe ref ref
| SubscriberAddDownTrack ref ref | SubscriberGetDownTrack ref | SubscriberSetLayer ref
| SubscriberGetLayer ref | SubscriberNegotiate ref | SubscriberDoNegotiate ref
| SubscriberHandleAnswer ref | SubscriberReset ref | SubscriberSendData ref | SubscriberClose ref

datatype router_method =
  RouterAddTrack ref ref | RouterGetTrack ref | RouterGetTracks ref | RouterForward ref
| RouterSubscribe ref ref | RouterUnsubscribe ref | RouterClose ref

datatype forwarder_method =
  ForwarderAddDownTrack ref | ForwarderRemoveDownTrack ref | ForwarderForward ref | ForwarderClose ref

datatype downtrack_method =
  NewDownTrackFor ref | DownReadRTCP ref | DownRequestInitialKeyframe ref | DownSetTargetLayer ref
| DownGetCurrentLayer ref | DownGetTargetLayer ref | DownWriteRTP ref | DownTryLayerSwitch ref
| DownShouldForward ref | DownTryFallback ref | DownOnLayerSwitch ref | DownRequestKeyframe ref | DownClose ref

datatype selector_method =
  SelectorSetTarget ref | SelectorGetCurrent ref | SelectorGetTarget ref | SelectorNeedsSwitch ref
| SelectorCanSwitch ref | SelectorOnSwitch ref | SelectorSwitchToTarget ref | SelectorForceSwitch ref

datatype track_method =
  TrackAddLayer ref | TrackGetLayer ref | TrackGetLayers ref | TrackGetBestLayer ref
| TrackAddDownTrack ref | TrackRemoveDownTrack ref | TrackClose ref

datatype leaf_method =
  LayerIsActive ref | LayerSetActive ref | ReceiverClose ref | ConnWriteMessage ref

datatype controller_method =
  ControllerOnLayerChange ref | ControllerAllocationLoop ref | ControllerAddTrack ref
| ControllerRemoveTrack ref | ControllerSetMaxLayer ref | ControllerRequestLayer ref
| ControllerGetTargetLayer ref | ControllerUpdateBitrate ref | ControllerOnBitrateUpdate ref
| ControllerRecalculate ref | ControllerGetAvailable ref | ControllerClose ref

datatype twcc_method =
  ReceiverOnBitrateChange ref | ReceiverRecordPacket ref | ReceiverGetBitrate ref | ReceiverGetLossRate ref
| ReceiverGetRTT ref | TwccReceiverClose ref | SenderOnFeedback ref | SenderRecordPacket ref
| SenderFeedbackLoop ref | SenderSendFeedback ref | SenderClose ref | EstimatorOnEstimate ref
| EstimatorUpdate ref | EstimatorGetEstimate ref | EstimatorSetDelayBased ref
| CongestionSetEstimator ref | CongestionGetTarget ref

datatype go_method =
  Sfu sfu_method | Sig signaling_method | Ses session_method | Per peer_method | Pub publisher_method
| Sub subscriber_method | Rou router_method | Fwd forwarder_method | Dwn downtrack_method
| Sel selector_method | Trk track_method | Lea leaf_method | Ctl controller_method | Twc twcc_method

text \<open>\<open>Hold md l b\<close> is \<open>b\<close> between locking and unlocking \<open>l\<close>; \<open>Go m\<close> is the \<open>go\<close> statement; \<open>Pick\<close> is
  an object that was looked up.\<close>

datatype item =
  Call go_method
| Go go_method
| Hold lock_mode lock "item list"
| Choice "item list list"
| Loop "item list"
| Pick "ref \<Rightarrow> item list"

text \<open>An \<open>if\<close> without an \<open>else\<close>, and an early return, are choices with nothing to do.\<close>

abbreviation Maybe :: "item list \<Rightarrow> item" where
  "Maybe b \<equiv> Choice [[], b]"

subsection \<open>The skeletons, file by file\<close>

fun sfu_code :: "sfu_method \<Rightarrow> item list" where
  "sfu_code SfuGetOrCreateSession = [Hold Wr SfuMu []]"
| "sfu_code SfuGetSession = [Hold Rd SfuMu []]"
| "sfu_code SfuDeleteSession = [Hold Wr SfuMu [Maybe [Pick (\<lambda>se. [Call (Ses (SessionClose se))])]]]"
| "sfu_code (SfuHandleWebSocket c) = [Maybe [Call (Sig (HandlerRun c))]]"

fun signaling_code :: "signaling_method \<Rightarrow> item list" where
  "signaling_code (HandlerRun c) =
     [Loop [Choice [[Call (Lea (ConnWriteMessage c))],
                    [Call (Sig (HandleRequest c)), Maybe [Call (Lea (ConnWriteMessage c))]]]]]"
| "signaling_code (HandleRequest c) =
     [Choice [[], [Call (Sig (HandleJoin c))], [Call (Sig (HandleSubscribe c))],
        [Call (Sig (HandleCandidate c))], [Call (Sig (HandleAnswerRequest c))],
        [Call (Sig (HandleLeave c))], [Call (Sig (HandleSetLayer c))], [Call (Sig (HandleGetLayer c))]]]"
| "signaling_code (HandleJoin c) =
     [Maybe [Call (Sfu SfuGetOrCreateSession), Pick (\<lambda>se. [Call (Ses (SessionAddPeer se)),
        Maybe [Pick (\<lambda>p. [Call (Per (PeerHandleOffer p)), Maybe [Go (Ses (SessionNotifyExistingTracks se p))]])]])]]"
| "signaling_code (HandleSubscribe c) =
     [Maybe [Call (Sfu SfuGetSession), Maybe [Pick (\<lambda>se. [Call (Ses (SessionSubscribe se))])]]]"
| "signaling_code (HandleCandidate c) =
     [Maybe [Call (Sfu SfuGetSession), Maybe [Pick (\<lambda>se. [Call (Ses (SessionGetPeer se)),
        Maybe [Pick (\<lambda>p. [Call (Per (PeerAddICECandidate p))])]])]]]"
| "signaling_code (HandleAnswerRequest c) =
     [Maybe [Call (Sfu SfuGetSession), Maybe [Pick (\<lambda>se. [Call (Ses (SessionGetPeer se)),
        Maybe [Pick (\<lambda>p. [Call (Per (PeerHandleAnswer p))])]])]]]"
| "signaling_code (HandleLeave c) =
     [Maybe [Call (Sfu SfuGetSession), Maybe [Pick (\<lambda>se. [Call (Ses (SessionRemovePeer se))])]]]"
| "signaling_code (HandleSetLayer c) =
     [Maybe [Call (Sfu SfuGetSession), Maybe [Pick (\<lambda>se. [Call (Ses (SessionGetPeer se)),
        Maybe [Pick (\<lambda>p. [Call (Per (PeerSetLayer p))])]])]]]"
| "signaling_code (HandleGetLayer c) =
     [Maybe [Call (Sfu SfuGetSession), Maybe [Pick (\<lambda>se. [Call (Ses (SessionGetPeer se)),
        Maybe [Pick (\<lambda>p. [Call (Per (PeerGetLayer p))])]])]]]"

fun session_code :: "session_method \<Rightarrow> item list" where
  "session_code (SessionAddPeer se) = [Hold Wr (SessionMu se) [Call (Per NewPeer)]]"
| "session_code (SessionGetPeer se) = [Hold Rd (SessionMu se) []]"
| "session_code (SessionRemovePeer se) =
     [Hold Wr (SessionMu se) [Maybe [Pick (\<lambda>p. [Call (Per (PeerClose p))])],
                              Maybe [Pick (\<lambda>r. [Call (Rou (RouterClose r))])]]]"
| "session_code (SessionAddRouter se) = [Hold Wr (SessionMu se) []]"
| "session_code (SessionGetRouter se) = [Hold Rd (SessionMu se) []]"
| "session_code (SessionSubscribe se) =
     [Hold Rd (SessionMu se) [], Maybe [Pick (\<lambda>p. [Pick (\<lambda>r. [Call (Per (PeerSubscribe p r))])])]]"
| "session_code (SessionNotifyExistingTracks se p) =
     [Hold Rd (SessionMu se)
        [Loop [Maybe [Pick (\<lambda>r. [Call (Rou (RouterGetTracks r)), Loop [Call (Per (PeerSendNotification p))]])]]]]"
| "session_code (SessionBroadcast se) =
     [Hold Rd (SessionMu se) [Loop [Maybe [Pick (\<lambda>p. [Call (Per (PeerSendNotification p))])]]]]"
| "session_code (SessionBroadcastData se) =
     [Hold Rd (SessionMu se) [Loop [Maybe [Pick (\<lambda>p. [Call (Per (PeerSendData p))])]]]]"
| "session_code (SessionClose se) =
     [Hold Wr (SessionMu se) [Loop [Pick (\<lambda>p. [Call (Per (PeerClose p))])],
                              Loop [Pick (\<lambda>r. [Call (Rou (RouterClose r))])]]]"

fun peer_code :: "peer_method \<Rightarrow> item list" where
  "peer_code NewPeer = [Maybe [Maybe [Pick (\<lambda>u. [Call (Pub (PublisherClose u))])]]]"
| "peer_code (PeerHandleOffer p) = []"
| "peer_code (PeerHandleAnswer p) = [Pick (\<lambda>s. [Call (Sub (SubscriberHandleAnswer s))])]"
| "peer_code (PeerAddICECandidate p) = []"
| "peer_code (PeerSubscribe p r) = [Pick (\<lambda>s. [Call (Sub (SubscriberSubscribe s r))])]"
| "peer_code (PeerSetLayer p) = [Pick (\<lambda>s. [Call (Sub (SubscriberSetLayer s))])]"
| "peer_code (PeerGetLayer p) = [Pick (\<lambda>s. [Call (Sub (SubscriberGetLayer s))])]"
| "peer_code (PeerSendNotification p) =
     [Hold Rd (PeerMu p) [], Maybe [Maybe [Pick (\<lambda>c. [Call (Lea (ConnWriteMessage c))])]]]"
| "peer_code (PeerSendOffer p) = [Call (Per (PeerSendNotification p))]"
| "peer_code (PeerSendCandidate p) = [Maybe [Call (Per (PeerSendNotification p))]]"
| "peer_code (PeerSendData p) =
     [Hold Rd (PeerMu p) [], Maybe [Pick (\<lambda>s. [Call (Sub (SubscriberSendData s))])]]"
| "peer_code (PeerClose p) =
     [Hold Wr (PeerMu p) [], Maybe [Maybe [Pick (\<lambda>u. [Call (Pub (PublisherClose u))])],
                                    Maybe [Pick (\<lambda>s. [Call (Sub (SubscriberClose s))])]]]"

fun publisher_code :: "publisher_method \<Rightarrow> item list" where
  "publisher_code (PublisherOnICECandidate u) = [Pick (\<lambda>p. [Call (Per (PeerSendCandidate p))])]"
| "publisher_code (PublisherOnStateChange u) = [Maybe [Call (Pub (PublisherClose u))]]"
| "publisher_code (PublisherOnMessage u) = [Pick (\<lambda>se. [Call (Ses (SessionBroadcastData se))])]"
| "publisher_code (PublisherOnTrack u) =
     [Hold Wr (PublisherMu u) [],
      Maybe [Pick (\<lambda>t. [Call (Trk (TrackAddLayer t)),
        Maybe [Pick (\<lambda>r. [Call (Rou (RouterAddTrack r t))]), Pick (\<lambda>se. [Call (Ses (SessionAddRouter se))])],
        Go (Pub (PublisherReadRTP u))])]]"
| "publisher_code (PublisherReadRTP u) =
     [Loop [Pick (\<lambda>r. [Call (Rou (RouterForward r))])], Pick (\<lambda>x. [Call (Lea (ReceiverClose x))])]"
| "publisher_code (PublisherClose u) =
     [Hold Wr (PublisherMu u) [Maybe [Loop [Pick (\<lambda>t. [Call (Trk (TrackClose t))])]]],
      Maybe [Maybe [Pick (\<lambda>r. [Call (Rou (RouterClose r))])]]]"

fun subscriber_code :: "subscriber_method \<Rightarrow> item list" where
  "subscriber_code (SubscriberOnICECandidate s) = [Pick (\<lambda>p. [Call (Per (PeerSendCandidate p))])]"
| "subscriber_code (SubscriberOnStateChange s) = [Maybe [Call (Sub (SubscriberClose s))]]"
| "subscriber_code (SubscriberSubscribe s r) =
     [Hold Wr (SubscriberMu s) [], Call (Rou (RouterSubscribe r s)), Maybe [Call (Sub (SubscriberNegotiate s))]]"
| "subscriber_code (SubscriberAddDownTrack s t) =
     [Hold Wr (SubscriberMu s)
        [Maybe [Call (Trk (TrackGetBestLayer t)),
           Maybe [Call (Dwn (NewDownTrackFor t)), Maybe [Call (Trk (TrackAddDownTrack t))]]]]]"
| "subscriber_code (SubscriberGetDownTrack s) = [Hold Rd (SubscriberMu s) []]"
| "subscriber_code (SubscriberSetLayer s) =
     [Hold Rd (SubscriberMu s) [], Maybe [Pick (\<lambda>d. [Call (Dwn (DownSetTargetLayer d))])]]"
| "subscriber_code (SubscriberGetLayer s) =
     [Hold Rd (SubscriberMu s) [],
      Maybe [Pick (\<lambda>d. [Call (Dwn (DownGetCurrentLayer d)), Call (Dwn (DownGetTargetLayer d))])]]"
| "subscriber_code (SubscriberNegotiate s) =
     [Hold Wr (NegMu s) [Hold Rd (SubscriberMu s) []], Maybe [Call (Sub (SubscriberDoNegotiate s))]]"
| "subscriber_code (SubscriberDoNegotiate s) =
     [Choice [[Call (Sub (SubscriberReset s))], [Pick (\<lambda>p. [Call (Per (PeerSendOffer p))])]]]"
| "subscriber_code (SubscriberHandleAnswer s) =
     [Maybe [Hold Wr (NegMu s) [], Maybe [Go (Sub (SubscriberNegotiate s))]]]"
| "subscriber_code (SubscriberReset s) = [Hold Wr (NegMu s) []]"
| "subscriber_code (SubscriberSendData s) = [Hold Rd (SubscriberMu s) []]"
| "subscriber_code (SubscriberClose s) =
     [Hold Wr (SubscriberMu s) [],
      Maybe [Loop [Pick (\<lambda>r. [Call (Rou (RouterUnsubscribe r))])], Loop [Pick (\<lambda>d. [Call (Dwn (DownClose d))])]]]"

fun router_code :: "router_method \<Rightarrow> item list" where
  "router_code (RouterAddTrack r t) =
     [Hold Wr (RouterMu r) [],
      Maybe
       [Pick (\<lambda>f. [Loop [Pick (\<lambda>s. [Call (Sub (SubscriberAddDownTrack s t)),
          Maybe [Call (Sub (SubscriberGetDownTrack s)), Maybe [Call (Fwd (ForwarderAddDownTrack f))],
                 Call (Sub (SubscriberNegotiate s))]])]]),
        Pick (\<lambda>se. [Call (Ses (SessionBroadcast se))])]]"
| "router_code (RouterGetTrack r) = [Hold Rd (RouterMu r) []]"
| "router_code (RouterGetTracks r) = [Hold Rd (RouterMu r) []]"
| "router_code (RouterForward r) =
     [Hold Rd (RouterMu r) [], Maybe [Pick (\<lambda>f. [Call (Fwd (ForwarderForward f))])]]"
| "router_code (RouterSubscribe r s) =
     [Hold Wr (RouterMu r)
        [Loop [Pick (\<lambda>t. [Call (Sub (SubscriberAddDownTrack s t)),
           Maybe [Call (Sub (SubscriberGetDownTrack s)), Maybe [Pick (\<lambda>f. [Call (Fwd (ForwarderAddDownTrack f))])]]])]]]"
| "router_code (RouterUnsubscribe r) = [Hold Wr (RouterMu r) []]"
| "router_code (RouterClose r) =
     [Hold Wr (RouterMu r) [],
      Maybe [Loop [Pick (\<lambda>t. [Call (Trk (TrackClose t))])], Loop [Pick (\<lambda>f. [Call (Fwd (ForwarderClose f))])]]]"

fun forwarder_code :: "forwarder_method \<Rightarrow> item list" where
  "forwarder_code (ForwarderAddDownTrack f) = [Hold Wr (ForwarderMu f) []]"
| "forwarder_code (ForwarderRemoveDownTrack f) = [Hold Wr (ForwarderMu f) []]"
| "forwarder_code (ForwarderForward f) =
     [Hold Rd (ForwarderMu f) [],
      Loop [Pick (\<lambda>d. [Call (Dwn (DownWriteRTP d)), Maybe [Call (Fwd (ForwarderRemoveDownTrack f))]])]]"
| "forwarder_code (ForwarderClose f) =
     [Hold Wr (ForwarderMu f) [Maybe [Loop [Pick (\<lambda>d. [Call (Dwn (DownClose d))])]]]]"

text \<open>A downtrack and its selector have the same reference here.\<close>

fun downtrack_code :: "downtrack_method \<Rightarrow> item list" where
  "downtrack_code (NewDownTrackFor t) =
     [Maybe [Maybe [Call (Trk (TrackGetLayer t)), Maybe [Call (Trk (TrackGetBestLayer t))],
        Pick (\<lambda>d. [Call (Sel (SelectorOnSwitch d)), Go (Dwn (DownReadRTCP d)),
                   Go (Dwn (DownRequestInitialKeyframe d))])]]]"
| "downtrack_code (DownReadRTCP d) = []"
| "downtrack_code (DownRequestInitialKeyframe d) =
     [Maybe [Call (Sel (SelectorGetCurrent d)), Call (Dwn (DownRequestKeyframe d))],
      Maybe [Call (Sel (SelectorGetCurrent d)), Call (Dwn (DownRequestKeyframe d))]]"
| "downtrack_code (DownSetTargetLayer d) =
     [Call (Sel (SelectorGetCurrent d)), Call (Sel (SelectorSetTarget d)), Call (Dwn (DownRequestKeyframe d))]"
| "downtrack_code (DownGetCurrentLayer d) = [Call (Sel (SelectorGetCurrent d))]"
| "downtrack_code (DownGetTargetLayer d) = [Call (Sel (SelectorGetTarget d))]"
| "downtrack_code (DownWriteRTP d) =
     [Maybe [Hold Wr (DownTrackMu d) [Call (Dwn (DownTryLayerSwitch d)), Call (Dwn (DownShouldForward d))]]]"
| "downtrack_code (DownTryLayerSwitch d) =
     [Call (Sel (SelectorGetCurrent d)), Call (Sel (SelectorGetTarget d)), Call (Sel (SelectorNeedsSwitch d)),
      Maybe [Call (Sel (SelectorCanSwitch d)), Maybe [Call (Sel (SelectorSwitchToTarget d))]]]"
| "downtrack_code (DownShouldForward d) =
     [Pick (\<lambda>t. [Call (Trk (TrackGetLayer t))]), Maybe [Pick (\<lambda>l. [Call (Lea (LayerIsActive l))])],
      Maybe [Call (Dwn (DownTryFallback d))]]"
| "downtrack_code (DownTryFallback d) = [Maybe [Call (Sel (SelectorForceSwitch d))]]"
| "downtrack_code (DownOnLayerSwitch d) = [Call (Dwn (DownRequestKeyframe d))]"
| "downtrack_code (DownRequestKeyframe d) = [Pick (\<lambda>t. [Call (Trk (TrackGetLayer t))])]"
| "downtrack_code (DownClose d) =
     [Maybe [Hold Wr (DownTrackMu d) [Maybe [Pick (\<lambda>t. [Call (Trk (TrackRemoveDownTrack t))])]]]]"

fun selector_code :: "selector_method \<Rightarrow> item list" where
  "selector_code (SelectorSetTarget d) = [Hold Wr (SelectorMu d) []]"
| "selector_code (SelectorGetCurrent d) = [Hold Rd (SelectorMu d) []]"
| "selector_code (SelectorGetTarget d) = [Hold Rd (SelectorMu d) []]"
| "selector_code (SelectorNeedsSwitch d) = [Hold Rd (SelectorMu d) []]"
| "selector_code (SelectorCanSwitch d) = [Hold Rd (SelectorMu d) []]"
| "selector_code (SelectorOnSwitch d) = [Hold Wr (SelectorMu d) []]"
| "selector_code (SelectorSwitchToTarget d) = [Hold Wr (SelectorMu d) [Maybe [Go (Dwn (DownOnLayerSwitch d))]]]"
| "selector_code (SelectorForceSwitch d) = [Hold Wr (SelectorMu d) []]"

fun track_code :: "track_method \<Rightarrow> item list" where
  "track_code (TrackAddLayer t) = [Hold Wr (TrackMu t) []]"
| "track_code (TrackGetLayer t) = [Hold Rd (TrackMu t) []]"
| "track_code (TrackGetLayers t) = [Hold Rd (TrackMu t) []]"
| "track_code (TrackGetBestLayer t) =
     [Hold Rd (TrackMu t) [Maybe [Loop [Maybe [Pick (\<lambda>l. [Call (Lea (LayerIsActive l))])]]]]]"
| "track_code (TrackAddDownTrack t) = [Hold Wr (TrackMu t) []]"
| "track_code (TrackRemoveDownTrack t) = [Hold Wr (TrackMu t) []]"
| "track_code (TrackClose t) =
     [Hold Wr (TrackMu t) [], Maybe [Loop [Pick (\<lambda>x. [Call (Lea (ReceiverClose x))])]]]"

fun leaf_code :: "leaf_method \<Rightarrow> item list" where
  "leaf_code (LayerIsActive l) = [Hold Rd (LayerMu l) []]"
| "leaf_code (LayerSetActive l) = [Hold Wr (LayerMu l) []]"
| "leaf_code (ReceiverClose x) = [Hold Wr (ReceiverMu x) []]"
| "leaf_code (ConnWriteMessage c) = [Hold Wr (ConnMu c) []]"

text \<open>A controller and its estimator have the same reference here. The callbacks that users install
  with \<open>OnLayerChange\<close>, \<open>OnBitrateChange\<close> and \<open>OnFeedback\<close> are not code of the package; the package
  calls them in a new goroutine or without locks.\<close>

fun controller_code :: "controller_method \<Rightarrow> item list" where
  "controller_code (ControllerOnLayerChange b) = [Hold Wr (ControllerMu b) []]"
| "controller_code (ControllerAllocationLoop b) = [Loop [Call (Ctl (ControllerRecalculate b))]]"
| "controller_code (ControllerAddTrack b) = [Hold Wr (ControllerMu b) []]"
| "controller_code (ControllerRemoveTrack b) = [Hold Wr (ControllerMu b) []]"
| "controller_code (ControllerSetMaxLayer b) = [Hold Wr (ControllerMu b) []]"
| "controller_code (ControllerRequestLayer b) = [Hold Wr (ControllerMu b) []]"
| "controller_code (ControllerGetTargetLayer b) = [Hold Rd (ControllerMu b) []]"
| "controller_code (ControllerUpdateBitrate b) = [Call (Twc (EstimatorUpdate b))]"
| "controller_code (ControllerOnBitrateUpdate b) = [Hold Wr (ControllerMu b) [], Call (Ctl (ControllerRecalculate b))]"
| "controller_code (ControllerRecalculate b) = [Hold Wr (ControllerMu b) []]"
| "controller_code (ControllerGetAvailable b) = [Hold Rd (ControllerMu b) []]"
| "controller_code (ControllerClose b) = [Hold Wr (ControllerMu b) []]"

fun twcc_code :: "twcc_method \<Rightarrow> item list" where
  "twcc_code (ReceiverOnBitrateChange x) = [Hold Wr (TwccReceiverMu x) []]"
| "twcc_code (ReceiverRecordPacket x) = [Hold Wr (TwccReceiverMu x) []]"
| "twcc_code (ReceiverGetBitrate x) = [Hold Rd (TwccReceiverMu x) []]"
| "twcc_code (ReceiverGetLossRate x) = [Hold Rd (TwccReceiverMu x) []]"
| "twcc_code (ReceiverGetRTT x) = [Hold Rd (TwccReceiverMu x) []]"
| "twcc_code (TwccReceiverClose x) = [Hold Wr (TwccReceiverMu x) []]"
| "twcc_code (SenderOnFeedback x) = [Hold Wr (TwccSenderMu x) []]"
| "twcc_code (SenderRecordPacket x) = [Hold Wr (TwccSenderMu x) []]"
| "twcc_code (SenderFeedbackLoop x) = [Loop [Call (Twc (SenderSendFeedback x))]]"
| "twcc_code (SenderSendFeedback x) = [Hold Wr (TwccSenderMu x) []]"
| "twcc_code (SenderClose x) = [Hold Wr (TwccSenderMu x) []]"
| "twcc_code (EstimatorOnEstimate b) = [Hold Wr (EstimatorMu b) []]"
| "twcc_code (EstimatorUpdate b) = [Hold Wr (EstimatorMu b) [Maybe [Go (Ctl (ControllerOnBitrateUpdate b))]]]"
| "twcc_code (EstimatorGetEstimate b) = [Hold Rd (EstimatorMu b) []]"
| "twcc_code (EstimatorSetDelayBased b) = [Hold Wr (EstimatorMu b) []]"
| "twcc_code (CongestionSetEstimator x) = [Hold Wr (CongestionMu x) []]"
| "twcc_code (CongestionGetTarget x) = [Hold Rd (CongestionMu x) []]"

fun code_of :: "go_method \<Rightarrow> item list" where
  "code_of (Sfu m) = sfu_code m" | "code_of (Sig m) = signaling_code m" | "code_of (Ses m) = session_code m"
| "code_of (Per m) = peer_code m" | "code_of (Pub m) = publisher_code m" | "code_of (Sub m) = subscriber_code m"
| "code_of (Rou m) = router_code m" | "code_of (Fwd m) = forwarder_code m" | "code_of (Dwn m) = downtrack_code m"
| "code_of (Sel m) = selector_code m" | "code_of (Trk m) = track_code m" | "code_of (Lea m) = leaf_code m"
| "code_of (Ctl m) = controller_code m" | "code_of (Twc m) = twcc_code m"

subsection \<open>Goroutines\<close>

text \<open>The stack of a goroutine: what it has to do, and the locks it gives back on the way.\<close>

datatype frame_item = Do item | Free lock_mode lock

type_synonym goroutine = "frame_item list"

definition holds :: "goroutine \<Rightarrow> lock_mode \<Rightarrow> lock \<Rightarrow> bool" where
  "holds t md l \<longleftrightarrow> Free md l \<in> set t"

fun wants :: "goroutine \<Rightarrow> lock_mode \<Rightarrow> lock \<Rightarrow> bool" where
  "wants (Do (Hold md l b) # k) md' l' = (md = md' \<and> l = l')"
| "wants _ md' l' = False"

text \<open>A lock is refused while it is held, unless all are readers. A goroutine waits for those that
  hold the lock it wants, and a reader may have to wait for a writer that is waiting: it has to when
  the writer came first.\<close>

definition refused_by :: "goroutine \<Rightarrow> goroutine \<Rightarrow> bool" where
  "refused_by t u \<longleftrightarrow> (\<exists>md l. wants t md l \<and> (holds u Wr l \<or> (md = Wr \<and> holds u Rd l)))"

definition waits_for :: "goroutine \<Rightarrow> goroutine \<Rightarrow> bool" where
  "waits_for t u \<longleftrightarrow> refused_by t u \<or> (\<exists>l. wants t Rd l \<and> wants u Wr l)"

inductive advance :: "goroutine multiset \<Rightarrow> goroutine multiset \<Rightarrow> bool" where
  call: "advance (add_mset (Do (Call m) # k) C) (add_mset (map Do (code_of m) @ k) C)"
| go: "advance (add_mset (Do (Go m) # k) C) (add_mset [Do (Call m)] (add_mset k C))"
| lock: "\<forall>u\<in>#add_mset (Do (Hold md l b) # k) C. \<not> refused_by (Do (Hold md l b) # k) u \<Longrightarrow>
     advance (add_mset (Do (Hold md l b) # k) C) (add_mset (map Do b @ Free md l # k) C)"
| unlock: "advance (add_mset (Free md l # k) C) (add_mset k C)"
| choose: "b \<in> set bs \<Longrightarrow> advance (add_mset (Do (Choice bs) # k) C) (add_mset (map Do b @ k) C)"
| again: "advance (add_mset (Do (Loop b) # k) C) (add_mset (map Do b @ Do (Loop b) # k) C)"
| leave: "advance (add_mset (Do (Loop b) # k) C) (add_mset k C)"
| pick: "advance (add_mset (Do (Pick F) # k) C) (add_mset (map Do (F x) @ k) C)"
| return: "advance (add_mset [] C) C"

text \<open>Anyone may call any method at any time: pion its callbacks, the HTTP server its handler.\<close>

inductive lock_step :: "goroutine multiset \<Rightarrow> goroutine multiset \<Rightarrow> bool" where
  inside: "advance C D \<Longrightarrow> lock_step C D"
| outside: "lock_step C (add_mset [Do (Call m)] C)"

abbreviation lock_reachable :: "goroutine multiset \<Rightarrow> bool" where
  "lock_reachable \<equiv> reach (\<lambda>C. C = {#}) lock_step"

subsection \<open>The order of the locks\<close>

text \<open>A lock is taken only while those held have a smaller rank.\<close>

fun rank :: "lock \<Rightarrow> nat" where
  "rank SfuMu = 0" | "rank (SessionMu x) = 1" | "rank (PublisherMu x) = 2" | "rank (RouterMu x) = 3"
| "rank (NegMu x) = 4" | "rank (SubscriberMu x) = 5" | "rank (ForwarderMu x) = 6"
| "rank (DownTrackMu x) = 7" | "rank (SelectorMu x) = 8" | "rank (TrackMu x) = 8" | "rank _ = 9"

text \<open>No method takes a lock of a smaller rank than this, in itself or in what it calls.\<close>

fun entry :: "go_method \<Rightarrow> nat" where
  "entry (Ses m) = 1"
| "entry (Per m) = 2"
| "entry (Pub (PublisherClose u)) = 2"
| "entry (Sub (SubscriberAddDownTrack s t)) = 5"
| "entry (Sub (SubscriberGetDownTrack s)) = 5"
| "entry (Sub m) = 2"
| "entry (Rou (RouterAddTrack r t)) = 1"
| "entry (Rou m) = 3"
| "entry (Fwd m) = 6"
| "entry (Dwn (DownTryLayerSwitch d)) = 8"
| "entry (Dwn (DownShouldForward d)) = 8"
| "entry (Dwn (DownTryFallback d)) = 8"
| "entry (Dwn m) = 7"
| "entry (Sel m) = 8"
| "entry (Trk m) = 8"
| "entry (Lea m) = 9"
| "entry _ = 0"

text \<open>An item that takes no lock of a smaller rank than \<open>n\<close>, and while it holds one only larger
  ones; a goroutine that is started holds none.\<close>

primrec ranked :: "item \<Rightarrow> nat \<Rightarrow> bool" where
  "ranked (Call m) = (\<lambda>n. n \<le> entry m)"
| "ranked (Go m) = (\<lambda>n. True)"
| "ranked (Hold md l b) = (\<lambda>n. n \<le> rank l \<and> list_all (\<lambda>p. p (Suc (rank l))) (map ranked b))"
| "ranked (Choice bs) = (\<lambda>n. bs \<noteq> [] \<and> list_all (list_all (\<lambda>p. p n)) (map (map ranked) bs))"
| "ranked (Loop b) = (\<lambda>n. list_all (\<lambda>p. p n) (map ranked b))"
| "ranked (Pick F) = (\<lambda>n. \<forall>x. list_all (\<lambda>p. p n) ((map ranked \<circ> F) x))"

lemma ranked_iff:
  "ranked (Hold md l b) n \<longleftrightarrow> n \<le> rank l \<and> (\<forall>i\<in>set b. ranked i (Suc (rank l)))"
  "ranked (Choice bs) n \<longleftrightarrow> bs \<noteq> [] \<and> (\<forall>b\<in>set bs. \<forall>i\<in>set b. ranked i n)"
  "ranked (Loop b) n \<longleftrightarrow> (\<forall>i\<in>set b. ranked i n)"
  "ranked (Pick F) n \<longleftrightarrow> (\<forall>x. \<forall>i\<in>set (F x). ranked i n)"
  by (auto simp: list_all_iff)

declare ranked.simps(3-6) [simp del]
declare ranked_iff [simp]

lemma ranked_sfu: "i \<in> set (sfu_code m) \<Longrightarrow> ranked i (entry (Sfu m))"
  by (cases m) auto

lemma ranked_signaling: "i \<in> set (signaling_code m) \<Longrightarrow> ranked i (entry (Sig m))"
  by (cases m) auto

lemma ranked_session: "i \<in> set (session_code m) \<Longrightarrow> ranked i (entry (Ses m))"
  by (cases m) auto

lemma ranked_peer: "i \<in> set (peer_code m) \<Longrightarrow> ranked i (entry (Per m))"
  by (cases m) auto

lemma ranked_publisher: "i \<in> set (publisher_code m) \<Longrightarrow> ranked i (entry (Pub m))"
  by (cases m) auto

lemma ranked_subscriber: "i \<in> set (subscriber_code m) \<Longrightarrow> ranked i (entry (Sub m))"
  by (cases m) auto

lemma ranked_router: "i \<in> set (router_code m) \<Longrightarrow> ranked i (entry (Rou m))"
  by (cases m) auto

lemma ranked_forwarder: "i \<in> set (forwarder_code m) \<Longrightarrow> ranked i (entry (Fwd m))"
  by (cases m) auto

lemma ranked_downtrack: "i \<in> set (downtrack_code m) \<Longrightarrow> ranked i (entry (Dwn m))"
  by (cases m) auto

lemma ranked_selector: "i \<in> set (selector_code m) \<Longrightarrow> ranked i (entry (Sel m))"
  by (cases m) auto

lemma ranked_track: "i \<in> set (track_code m) \<Longrightarrow> ranked i (entry (Trk m))"
  by (cases m) auto

lemma ranked_leaf: "i \<in> set (leaf_code m) \<Longrightarrow> ranked i (entry (Lea m))"
  by (cases m) auto

lemma ranked_controller: "i \<in> set (controller_code m) \<Longrightarrow> ranked i (entry (Ctl m))"
  by (cases m) auto

lemma ranked_twcc: "i \<in> set (twcc_code m) \<Longrightarrow> ranked i (entry (Twc m))"
  by (cases m) auto

lemmas ranked_files =
  ranked_sfu ranked_signaling ranked_session ranked_peer ranked_publisher ranked_subscriber ranked_router
  ranked_forwarder ranked_downtrack ranked_selector ranked_track ranked_leaf ranked_controller ranked_twcc

lemma code_ranked: "i \<in> set (code_of m) \<Longrightarrow> ranked i (entry m)"
  using ranked_files by (cases m) auto

lemma ranked_mono: "ranked i n \<Longrightarrow> m \<le> n \<Longrightarrow> ranked i m"
  by (induction i arbitrary: m n) force+

subsection \<open>Goroutines in order\<close>

text \<open>One more than the rank of the lock that was taken last.\<close>

fun above :: "goroutine \<Rightarrow> nat" where
  "above [] = 0"
| "above (Do i # k) = above k"
| "above (Free md l # k) = Suc (rank l)"

fun ordered :: "goroutine \<Rightarrow> bool" where
  "ordered [] = True"
| "ordered (Do i # k) = (ranked i (above k) \<and> ordered k)"
| "ordered (Free md l # k) = (above k \<le> rank l \<and> ordered k)"

lemma above_map_Do [simp]: "above (map Do b @ k) = above k"
  by (induction b) simp_all

lemma ordered_map_Do [simp]: "ordered (map Do b @ k) \<longleftrightarrow> (\<forall>i\<in>set b. ranked i (above k)) \<and> ordered k"
  by (induction b) auto

lemma held_below: "ordered t \<Longrightarrow> holds t md l \<Longrightarrow> rank l < above t"
proof (induction t)
  case (Cons x k)
  then show ?case by (cases x) (auto simp: holds_def)
qed (simp add: holds_def)

lemma ordered_step:
  assumes "lock_step C D" and "\<forall>t\<in>#C. ordered t"
  shows "\<forall>t\<in>#D. ordered t"
  using assms(1)
proof cases
  case inside
  then show ?thesis
    using assms(2) by cases (auto dest: code_ranked intro: ranked_mono)
next
  case (outside m)
  then show ?thesis using assms(2) by auto
qed

interpretation lockOrder: invariant_system "\<lambda>C. C = {#}" lock_step "\<lambda>C. \<forall>t\<in>#C. ordered t"
  by unfold_locales (simp, rule ordered_step)

text \<open>Waiting goes up in the order: the wanted lock's rank, and a writer after the readers.\<close>

fun height :: "goroutine \<Rightarrow> nat" where
  "height (Do (Hold md l b) # k) = 2 * rank l + (if md = Wr then 1 else 0)"
| "height _ = 0"

lemma wants_Cons: "wants t md l \<longleftrightarrow> (\<exists>b k. t = Do (Hold md l b) # k)"
  by (induction t md l rule: wants.induct) auto

lemma waits_for_higher:
  assumes "ordered u" and "waits_for t u" and "waits_for u v"
  shows "height t < height u"
proof -
  obtain md l where t: "wants t md l"
    and or: "holds u Wr l \<or> (md = Wr \<and> holds u Rd l) \<or> (md = Rd \<and> wants u Wr l)"
    using assms(2) by (auto simp: waits_for_def refused_by_def)
  obtain md' l' where u: "wants u md' l'"
    using assms(3) by (auto simp: waits_for_def refused_by_def)
  have "rank l < rank l'" if "holds u m l" for m
    using held_below [OF assms(1) that] assms(1) u by (auto simp: wants_Cons)
  with t u or show ?thesis
    by (fastforce simp: wants_Cons)
qed

lemma unblocked_advances:
  assumes "ordered t" and "t \<in># C" and free: "\<forall>u\<in>#C. \<not> waits_for t u"
  shows "\<exists>D. advance C D"
proof -
  obtain C' where C: "C = add_mset t C'"
    using assms(2) by (metis insert_DiffM)
  show ?thesis
  proof (cases t)
    case Nil
    then show ?thesis using C advance.return by blast
  next
    case (Cons x k)
    show ?thesis
    proof (cases x)
      case (Free md l)
      then show ?thesis using C Cons advance.unlock by blast
    next
      case (Do i)
      note t = C [unfolded Cons Do]
      show ?thesis
      proof (cases i)
        case (Choice bs)
        with assms(1) Cons Do obtain b where "b \<in> set bs" by (cases bs) auto
        then show ?thesis using advance.choose t Choice by blast
      qed (use t free Cons Do in \<open>blast intro: advance.intros waits_for_def [THEN iffD2] disjI1\<close>)+
    qed
  qed
qed

subsection \<open>Exclusion\<close>

text \<open>How often a lock is held.\<close>

definition heldBy :: "lock_mode \<Rightarrow> lock \<Rightarrow> goroutine multiset \<Rightarrow> nat" where
  "heldBy md l C = (\<Sum>t\<in>#C. count_list t (Free md l))"

lemma heldBy_add [simp]: "heldBy md l (add_mset t C) = count_list t (Free md l) + heldBy md l C"
  by (simp add: heldBy_def)

lemma heldBy_empty [simp]: "heldBy md l {#} = 0"
  by (simp add: heldBy_def)

lemma count_map_Do [simp]: "count_list (map Do b) (Free md l) = 0"
  by (induction b) simp_all

lemma heldBy_none: "\<forall>u\<in>#C. \<not> holds u md l \<Longrightarrow> heldBy md l C = 0"
  by (induction C) (auto simp: holds_def count_list_0_iff)

definition exclusive_locks :: "goroutine multiset \<Rightarrow> bool" where
  "exclusive_locks C \<longleftrightarrow> (\<forall>l. heldBy Wr l C \<le> 1 \<and> (heldBy Wr l C = 1 \<longrightarrow> heldBy Rd l C = 0))"

lemma exclusive_lock:
  assumes ex: "exclusive_locks (add_mset (Do (Hold md l b) # k) C)"
    and free: "\<forall>u\<in>#add_mset (Do (Hold md l b) # k) C. \<not> refused_by (Do (Hold md l b) # k) u"
  shows "exclusive_locks (add_mset (map Do b @ Free md l # k) C)"
proof -
  let ?C = "add_mset (Do (Hold md l b) # k) C"
  have "heldBy Wr l ?C = 0" "md = Wr \<Longrightarrow> heldBy Rd l ?C = 0"
    using free by (auto intro!: heldBy_none simp: refused_by_def simp del: heldBy_add)
  with ex show ?thesis
    unfolding exclusive_locks_def
    by (cases md) (auto split: if_splits)
qed

lemma exclusive_fewer:
  assumes ex: "exclusive_locks C" and le: "\<And>md l. heldBy md l D \<le> heldBy md l C"
  shows "exclusive_locks D"
  unfolding exclusive_locks_def
proof (intro allI conjI impI)
  fix l
  have C: "heldBy Wr l C \<le> 1" "heldBy Wr l C = 1 \<Longrightarrow> heldBy Rd l C = 0"
    using ex by (simp_all add: exclusive_locks_def)
  show "heldBy Wr l D \<le> 1" using C(1) le [of Wr l] by simp
  assume "heldBy Wr l D = 1"
  then show "heldBy Rd l D = 0" using C le [of Wr l] le [of Rd l] by simp
qed

lemma exclusion_step: "lock_step C D \<Longrightarrow> exclusive_locks C \<Longrightarrow> exclusive_locks D"
proof (induction rule: lock_step.induct)
  case (inside C D)
  from inside.hyps inside.prems show ?case
  proof (induction rule: advance.induct)
    case (lock md l b k C)
    from exclusive_lock [OF lock.prems lock.hyps] show ?case .
  qed (erule exclusive_fewer; simp)+
next
  case (outside C m)
  then show ?case by (rule exclusive_fewer) simp
qed

interpretation exclusion: invariant_system "\<lambda>C. C = {#}" lock_step exclusive_locks
  by unfold_locales (simp add: exclusive_locks_def, rule exclusion_step)

subsection \<open>Properties\<close>

text \<open>C6: One order for all locks. In every method, on every path and through all calls, a lock is
  taken only while the locks that are held have smaller ranks: server, session, publisher, router,
  negotiation, subscriber, forwarder, downtrack, then selectors and tracks, then the locks under
  which nothing else is locked. So no method ever locks a lock that its goroutine already holds.\<close>

theorem locks_in_order: "list_all (\<lambda>i. ranked i (entry m)) (code_of m)"
  by (simp add: list_all_iff code_ranked)

text \<open>C5: The server cannot deadlock on its locks. Whatever methods run at the same time in however
  many goroutines, and also where a waiting writer keeps new readers out: in every group of
  goroutines there is one that waits for none of the group, so there is never a cycle of
  goroutines waiting for each other, and as long as there are goroutines one of them can go on.\<close>

theorem deadlock_free:
  assumes "lock_reachable C" and "S \<subseteq># C" and "S \<noteq> {#}"
  shows "(\<exists>t\<in>#S. \<forall>u\<in>#S. \<not> waits_for t u) \<and> (\<exists>D. advance C D)"
proof
  have ord: "\<forall>t\<in>#C. ordered t"
    by (rule lockOrder.reach_inv [OF assms(1)])
  have free: "\<exists>t\<in>#M. \<forall>u\<in>#M. \<not> waits_for t u" if "M \<subseteq># C" "M \<noteq> {#}" for M
  proof -
    have "Max (height ` set_mset M) \<in> height ` set_mset M"
      using that(2) by (intro Max_in) auto
    then obtain t where t: "t \<in># M" "\<forall>u\<in>#M. height u \<le> height t"
      by (metis (no_types, lifting) Max_ge finite_imageI finite_set_mset image_eqI imageE)
    show ?thesis
    proof (rule ccontr)
      assume "\<not> ?thesis"
      then obtain u v where "u \<in># M" "waits_for t u" "v \<in># M" "waits_for u v"
        using t(1) by blast
      moreover have "ordered u"
        using ord mset_subset_eqD [OF that(1) \<open>u \<in># M\<close>] by blast
      ultimately show False
        using waits_for_higher [of u t v] t(2) by fastforce
    qed
  qed
  show "\<exists>t\<in>#S. \<forall>u\<in>#S. \<not> waits_for t u"
    by (rule free) (use assms in auto)
  have "C \<noteq> {#}" using assms(2,3) by auto
  then obtain t where t: "t \<in># C" "\<forall>u\<in>#C. \<not> waits_for t u"
    using free [of C] by blast
  show "\<exists>D. advance C D"
    by (rule unblocked_advances [OF _ t]) (use ord t(1) in blast)
qed

text \<open>Locks exclude. In every reachable state a lock is held by at most one writer, and not by
  readers at the same time.\<close>

theorem locks_exclude:
  assumes "lock_reachable C"
  shows "heldBy Wr l C \<le> 1 \<and> (heldBy Wr l C = 1 \<longrightarrow> heldBy Rd l C = 0)"
  using exclusion.reach_inv [OF assms] by (simp add: exclusive_locks_def)

text \<open>Subscriber 2 is subscribing to router 1 and holds its lock, while a track is added to the
  router.\<close>

definition exampleBody :: "item list" where
  "exampleBody = [Loop [Pick (\<lambda>t. [Call (Sub (SubscriberAddDownTrack 2 t)),
     Maybe [Call (Sub (SubscriberGetDownTrack 2)), Maybe [Pick (\<lambda>f. [Call (Fwd (ForwarderAddDownTrack f))])]]])]]"

definition exampleSubscribing :: goroutine where
  "exampleSubscribing = map Do exampleBody @ [Free Wr (RouterMu 1)]"

definition exampleAdding :: goroutine where
  "exampleAdding = map Do (router_code (RouterAddTrack 1 5))"

lemma reachable_exampleLocks: "lock_reachable {#exampleAdding, exampleSubscribing#}"
proof -
  have step: "lock_reachable D" if "lock_reachable C" and "advance C D" for C D
    by (rule reach_step [OF that(1) lock_step.inside [OF that(2)]])
  have "lock_reachable {#}"
    by (rule reach_init) (rule refl)
  from reach_step [OF this lock_step.outside]
  have "lock_reachable {#[Do (Call (Rou (RouterSubscribe 1 2)))]#}" .
  from step [OF this advance.call]
  have "lock_reachable {#[Do (Hold Wr (RouterMu 1) exampleBody)]#}" by (simp add: exampleBody_def)
  from step [OF this advance.lock]
  have "lock_reachable {#exampleSubscribing#}"
    by (simp add: exampleSubscribing_def refused_by_def holds_def)
  from reach_step [OF this lock_step.outside]
  have "lock_reachable {#[Do (Call (Rou (RouterAddTrack 1 5)))], exampleSubscribing#}" .
  from step [OF this advance.call] show ?thesis
    by (simp add: exampleAdding_def)
qed

lemma example_waits: "waits_for exampleAdding exampleSubscribing"
  by (simp add: waits_for_def refused_by_def exampleAdding_def exampleSubscribing_def exampleBody_def holds_def)

theorem deadlock_free_witness: "\<not> waits_for exampleSubscribing exampleAdding"
proof -
  obtain t where "t \<in># {#exampleAdding, exampleSubscribing#}"
    "\<forall>u\<in>#{#exampleAdding, exampleSubscribing#}. \<not> waits_for t u"
    using deadlock_free [OF reachable_exampleLocks subset_mset.order_refl] by auto
  then show ?thesis using example_waits by auto
qed

theorem locks_exclude_witness: "heldBy Rd (RouterMu 1) {#exampleAdding, exampleSubscribing#} = 0"
  using locks_exclude [OF reachable_exampleLocks, of "RouterMu 1"]
  by (simp add: exampleSubscribing_def exampleBody_def exampleAdding_def)

end
