(* ===== verification/Heap.thy ===== *)
theory Heap
  imports World "HOL-Library.Sublist"
begin

section \<open>Well-formed stores\<close>

text \<open>
  Two relations that the components share. \<open>extends v w\<close>: no object of \<open>v\<close> has lost its
  identity in \<open>w\<close> (the fields that are set once by a constructor) or been reopened, the
  configuration is the same, and the history has only grown. \<open>wf w\<close>: every object of \<open>w\<close> is well formed, which ties the objects together: the tables hold
  allocated objects under their own keys, the members of a forwarder carry its track ID,
  what belongs to a closed owner is closed, and no run-time panic has happened. Every
  operation of the package extends the store and keeps it well formed, so both hold along
  all runs of the server (theory \<open>System\<close>).
\<close>

subsection \<open>References\<close>

lemma fst_fresh [simp]: "fst (fresh w) = nextRef w"
  by (simp add: fresh_def)

lemma nextRef_fresh [simp]: "nextRef (snd (fresh w)) = Suc (nextRef w)"
  by (simp add: fresh_def)

lemma nextRef_upd [simp]:
  "nextRef (upd_receiver x1 f1 w) = nextRef w" "nextRef (upd_layer x2 f2 w) = nextRef w"
  "nextRef (upd_track x3 f3 w) = nextRef w" "nextRef (upd_dt x4 f4 w) = nextRef w"
  "nextRef (upd_forwarder x5 f5 w) = nextRef w" "nextRef (upd_router x6 f6 w) = nextRef w"
  "nextRef (upd_subscriber x7 f7 w) = nextRef w" "nextRef (upd_publisher x8 f8 w) = nextRef w"
  "nextRef (upd_peer x9 f9 w) = nextRef w" "nextRef (upd_session x10 f10 w) = nextRef w"
  "nextRef (snd (call E e w)) = nextRef w" "nextRef (snd (readClock E w)) = nextRef w"
  "nextRef (spawn t w) = nextRef w"
  by (simp_all add: upd_defs call_def readClock_def spawn_def Let_def)

subsection \<open>What objects keep\<close>

definition keepsReceiver :: "LayerReceiver \<Rightarrow> LayerReceiver \<Rightarrow> bool" where
  "keepsReceiver x y \<longleftrightarrow> lr_track y = lr_track x \<and> lr_codec y = lr_codec x
     \<and> lr_layerName y = lr_layerName x \<and> (lr_closed x \<longrightarrow> lr_closed y)"

definition keepsLayer :: "Layer \<Rightarrow> Layer \<Rightarrow> bool" where
  "keepsLayer x y \<longleftrightarrow> ly_name y = ly_name x \<and> ly_receiver y = ly_receiver x \<and> ly_ssrc y = ly_ssrc x"

definition keepsTrack :: "TrackReceiver \<Rightarrow> TrackReceiver \<Rightarrow> bool" where
  "keepsTrack x y \<longleftrightarrow> tk_trackID y = tk_trackID x \<and> tk_streamID y = tk_streamID x
     \<and> tk_kind y = tk_kind x \<and> (tk_closed x \<longrightarrow> tk_closed y)"

definition keepsDownTrack :: "DownTrack \<Rightarrow> DownTrack \<Rightarrow> bool" where
  "keepsDownTrack x y \<longleftrightarrow> dt_subscriber y = dt_subscriber x \<and> dt_trackReceiver y = dt_trackReceiver x
     \<and> dt_track y = dt_track x \<and> dt_sender y = dt_sender x \<and> dt_codec y = dt_codec x
     \<and> (dt_closed x \<longrightarrow> dt_closed y)"

definition keepsForwarder :: "Forwarder \<Rightarrow> Forwarder \<Rightarrow> bool" where
  "keepsForwarder x y \<longleftrightarrow> fw_trackReceiver y = fw_trackReceiver x \<and> (fw_closed x \<longrightarrow> fw_closed y)"

definition keepsRouter :: "Router \<Rightarrow> Router \<Rightarrow> bool" where
  "keepsRouter x y \<longleftrightarrow> ro_id y = ro_id x \<and> ro_session y = ro_session x \<and> (ro_closed x \<longrightarrow> ro_closed y)"

definition keepsSubscriber :: "Subscriber \<Rightarrow> Subscriber \<Rightarrow> bool" where
  "keepsSubscriber x y \<longleftrightarrow> su_peer y = su_peer x \<and> su_pc y = su_pc x \<and> (su_closed x \<longrightarrow> su_closed y)"

definition keepsPublisher :: "Publisher \<Rightarrow> Publisher \<Rightarrow> bool" where
  "keepsPublisher x y \<longleftrightarrow> pu_peer y = pu_peer x \<and> pu_pc y = pu_pc x \<and> pu_router y = pu_router x
     \<and> (pu_closed x \<longrightarrow> pu_closed y)"

definition keepsPeer :: "Peer \<Rightarrow> Peer \<Rightarrow> bool" where
  "keepsPeer x y \<longleftrightarrow> pe_id y = pe_id x \<and> pe_session y = pe_session x \<and> pe_conn y = pe_conn x
     \<and> (pe_publisher x \<noteq> None \<longrightarrow> pe_publisher y = pe_publisher x)
     \<and> (pe_subscriber x \<noteq> None \<longrightarrow> pe_subscriber y = pe_subscriber x)
     \<and> (pe_closed x \<longrightarrow> pe_closed y)"

definition keepsSession :: "Session \<Rightarrow> Session \<Rightarrow> bool" where
  "keepsSession x y \<longleftrightarrow> se_id y = se_id x"

lemmas keeps_defs =
  keepsReceiver_def keepsLayer_def keepsTrack_def keepsDownTrack_def keepsForwarder_def
  keepsRouter_def keepsSubscriber_def keepsPublisher_def keepsPeer_def keepsSession_def

lemma keeps_refl [simp]:
  "keepsReceiver a1 a1" "keepsLayer a2 a2" "keepsTrack a3 a3" "keepsDownTrack a4 a4"
  "keepsForwarder a5 a5" "keepsRouter a6 a6" "keepsSubscriber a7 a7" "keepsPublisher a8 a8"
  "keepsPeer a9 a9" "keepsSession a10 a10"
  by (simp_all add: keeps_defs)

lemma keeps_trans:
  "keepsReceiver a1 b1 \<Longrightarrow> keepsReceiver b1 c1 \<Longrightarrow> keepsReceiver a1 c1"
  "keepsLayer a2 b2 \<Longrightarrow> keepsLayer b2 c2 \<Longrightarrow> keepsLayer a2 c2"
  "keepsTrack a3 b3 \<Longrightarrow> keepsTrack b3 c3 \<Longrightarrow> keepsTrack a3 c3"
  "keepsDownTrack a4 b4 \<Longrightarrow> keepsDownTrack b4 c4 \<Longrightarrow> keepsDownTrack a4 c4"
  "keepsForwarder a5 b5 \<Longrightarrow> keepsForwarder b5 c5 \<Longrightarrow> keepsForwarder a5 c5"
  "keepsRouter a6 b6 \<Longrightarrow> keepsRouter b6 c6 \<Longrightarrow> keepsRouter a6 c6"
  "keepsSubscriber a7 b7 \<Longrightarrow> keepsSubscriber b7 c7 \<Longrightarrow> keepsSubscriber a7 c7"
  "keepsPublisher a8 b8 \<Longrightarrow> keepsPublisher b8 c8 \<Longrightarrow> keepsPublisher a8 c8"
  "keepsPeer a9 b9 \<Longrightarrow> keepsPeer b9 c9 \<Longrightarrow> keepsPeer a9 c9"
  "keepsSession a10 b10 \<Longrightarrow> keepsSession b10 c10 \<Longrightarrow> keepsSession a10 c10"
  by (auto simp: keeps_defs)

definition extends :: "world \<Rightarrow> world \<Rightarrow> bool" where
  "extends v w \<longleftrightarrow> nextRef v \<le> nextRef w \<and> sfu_config w = sfu_config v \<and> prefix (hist v) (hist w) \<and>
     (\<forall>x < nextRef v.
        keepsReceiver (receivers v x) (receivers w x) \<and> keepsLayer (layers v x) (layers w x)
      \<and> keepsTrack (tracks v x) (tracks w x) \<and> keepsDownTrack (downtracks v x) (downtracks w x)
      \<and> keepsForwarder (forwarders v x) (forwarders w x) \<and> keepsRouter (routers v x) (routers w x)
      \<and> keepsSubscriber (subscribers v x) (subscribers w x)
      \<and> keepsPublisher (publishers v x) (publishers w x)
      \<and> keepsPeer (peers v x) (peers w x) \<and> keepsSession (sessions v x) (sessions w x))"

lemma extends_refl: "extends w w"
  by (simp add: extends_def)

lemma extends_trans: "extends u v \<Longrightarrow> extends v w \<Longrightarrow> extends u w"
  by (simp add: extends_def) (meson keeps_trans order_less_le_trans order_trans prefix_order.trans)

interpretation ext: frame extends
  by unfold_locales (rule extends_refl, rule extends_trans)

lemma extends_next: "extends v w \<Longrightarrow> nextRef v \<le> nextRef w"
  by (simp add: extends_def)

lemma extends_lt: "extends v w \<Longrightarrow> x < nextRef v \<Longrightarrow> x < nextRef w"
  by (simp add: extends_def)

lemma extends_config: "extends v w \<Longrightarrow> sfu_config w = sfu_config v"
  by (simp add: extends_def)

lemma extends_hist: "extends v w \<Longrightarrow> prefix (hist v) (hist w)"
  by (simp add: extends_def)

lemma extends_keeps:
  assumes "extends v w" and "x < nextRef v"
  shows "keepsReceiver (receivers v x) (receivers w x)" "keepsLayer (layers v x) (layers w x)"
    "keepsTrack (tracks v x) (tracks w x)" "keepsDownTrack (downtracks v x) (downtracks w x)"
    "keepsForwarder (forwarders v x) (forwarders w x)" "keepsRouter (routers v x) (routers w x)"
    "keepsSubscriber (subscribers v x) (subscribers w x)"
    "keepsPublisher (publishers v x) (publishers w x)"
    "keepsPeer (peers v x) (peers w x)" "keepsSession (sessions v x) (sessions w x)"
  using assms by (simp_all add: extends_def)

text \<open>What the clients of the relation read off it.\<close>

lemma extends_fields:
  assumes "extends v w" and "x < nextRef v"
  shows "tk_trackID (tracks w x) = tk_trackID (tracks v x)"
    "tk_closed (tracks v x) \<Longrightarrow> tk_closed (tracks w x)"
    "lr_closed (receivers v x) \<Longrightarrow> lr_closed (receivers w x)"
    "ly_receiver (layers w x) = ly_receiver (layers v x)"
    "dt_trackReceiver (downtracks w x) = dt_trackReceiver (downtracks v x)"
    "dt_subscriber (downtracks w x) = dt_subscriber (downtracks v x)"
    "dt_track (downtracks w x) = dt_track (downtracks v x)"
    "dt_closed (downtracks v x) \<Longrightarrow> dt_closed (downtracks w x)"
    "fw_trackReceiver (forwarders w x) = fw_trackReceiver (forwarders v x)"
    "fw_closed (forwarders v x) \<Longrightarrow> fw_closed (forwarders w x)"
    "ro_id (routers w x) = ro_id (routers v x)"
    "ro_session (routers w x) = ro_session (routers v x)"
    "ro_closed (routers v x) \<Longrightarrow> ro_closed (routers w x)"
    "su_peer (subscribers w x) = su_peer (subscribers v x)"
    "su_pc (subscribers w x) = su_pc (subscribers v x)"
    "su_closed (subscribers v x) \<Longrightarrow> su_closed (subscribers w x)"
    "pu_peer (publishers w x) = pu_peer (publishers v x)"
    "pu_router (publishers w x) = pu_router (publishers v x)"
    "pu_closed (publishers v x) \<Longrightarrow> pu_closed (publishers w x)"
    "pe_id (peers w x) = pe_id (peers v x)"
    "pe_session (peers w x) = pe_session (peers v x)"
    "pe_conn (peers w x) = pe_conn (peers v x)"
    "pe_publisher (peers v x) \<noteq> None \<Longrightarrow> pe_publisher (peers w x) = pe_publisher (peers v x)"
    "pe_subscriber (peers v x) \<noteq> None \<Longrightarrow> pe_subscriber (peers w x) = pe_subscriber (peers v x)"
    "pe_closed (peers v x) \<Longrightarrow> pe_closed (peers w x)"
    "se_id (sessions w x) = se_id (sessions v x)"
  using extends_keeps [OF assms] by (simp_all add: keeps_defs)

text \<open>Updating or allocating one object.\<close>

lemma extends_upd:
  assumes "extends u w"
  shows "(x < nextRef u \<Longrightarrow> keepsReceiver (receivers w x) (f1 (receivers w x))) \<Longrightarrow>
         extends u (upd_receiver x f1 w)"
    and "(x < nextRef u \<Longrightarrow> keepsLayer (layers w x) (f2 (layers w x))) \<Longrightarrow>
         extends u (upd_layer x f2 w)"
    and "(x < nextRef u \<Longrightarrow> keepsTrack (tracks w x) (f3 (tracks w x))) \<Longrightarrow>
         extends u (upd_track x f3 w)"
    and "(x < nextRef u \<Longrightarrow> keepsDownTrack (downtracks w x) (f4 (downtracks w x))) \<Longrightarrow>
         extends u (upd_dt x f4 w)"
    and "(x < nextRef u \<Longrightarrow> keepsForwarder (forwarders w x) (f5 (forwarders w x))) \<Longrightarrow>
         extends u (upd_forwarder x f5 w)"
    and "(x < nextRef u \<Longrightarrow> keepsRouter (routers w x) (f6 (routers w x))) \<Longrightarrow>
         extends u (upd_router x f6 w)"
    and "(x < nextRef u \<Longrightarrow> keepsSubscriber (subscribers w x) (f7 (subscribers w x))) \<Longrightarrow>
         extends u (upd_subscriber x f7 w)"
    and "(x < nextRef u \<Longrightarrow> keepsPublisher (publishers w x) (f8 (publishers w x))) \<Longrightarrow>
         extends u (upd_publisher x f8 w)"
    and "(x < nextRef u \<Longrightarrow> keepsPeer (peers w x) (f9 (peers w x))) \<Longrightarrow>
         extends u (upd_peer x f9 w)"
    and "(x < nextRef u \<Longrightarrow> keepsSession (sessions w x) (f10 (sessions w x))) \<Longrightarrow>
         extends u (upd_session x f10 w)"
  using assms by (simp_all add: extends_def upd_defs) (blast intro: keeps_trans)+

lemma extends_world [simp]:
  "extends u w \<Longrightarrow> extends u (snd (call E e w))"
  "extends u (snd (readClock E w)) = extends u w"
  "extends u (spawn t w) = extends u w"
  "extends u (w\<lparr>sfu_sessions := m\<rparr>) = extends u w"
  by (simp_all add: extends_def world_defs Let_def)

lemma extends_fresh: "extends u w \<Longrightarrow> extends u (snd (fresh w))"
  by (simp add: extends_def fresh_def)

subsection \<open>Well-formed objects\<close>

definition receiver_ok :: "world \<Rightarrow> ref \<Rightarrow> bool" where
  "receiver_ok w r \<longleftrightarrow> (lr_closeCh (receivers w r) = ChClosed \<longleftrightarrow> lr_closed (receivers w r))"

definition layer_ok :: "world \<Rightarrow> ref \<Rightarrow> bool" where
  "layer_ok w l \<longleftrightarrow> ly_receiver (layers w l) < nextRef w"

definition track_ok :: "world \<Rightarrow> ref \<Rightarrow> bool" where
  "track_ok w t \<longleftrightarrow> (tk_closeCh (tracks w t) = ChClosed \<longleftrightarrow> tk_closed (tracks w t))
     \<and> gm_ok (tk_layers (tracks w t))
     \<and> (\<forall>k l. gm_get (tk_layers (tracks w t)) k = Some l \<longrightarrow> l < nextRef w)
     \<and> (\<forall>d \<in> set (tk_downTracks (tracks w t)).
          d < nextRef w \<and> dt_trackReceiver (downtracks w d) = t)"

definition downtrack_ok :: "world \<Rightarrow> ref \<Rightarrow> bool" where
  "downtrack_ok w d \<longleftrightarrow> dt_trackReceiver (downtracks w d) < nextRef w
     \<and> dt_subscriber (downtracks w d) < nextRef w
     \<and> sel_inv (dt_selector (downtracks w d))
     \<and> (\<forall>cb. onSwitch (dt_selector (downtracks w d)) = Some cb \<longrightarrow> cb < nextRef w)"

text \<open>The track IDs a downtrack and a forwarder are for.\<close>

definition dtTrackID :: "world \<Rightarrow> ref \<Rightarrow> string" where
  "dtTrackID w d = tk_trackID (tracks w (dt_trackReceiver (downtracks w d)))"

definition fwTrackID :: "world \<Rightarrow> ref \<Rightarrow> string" where
  "fwTrackID w f = tk_trackID (tracks w (fw_trackReceiver (forwarders w f)))"

definition forwarder_ok :: "world \<Rightarrow> ref \<Rightarrow> bool" where
  "forwarder_ok w f \<longleftrightarrow> (fw_closeCh (forwarders w f) = ChClosed \<longleftrightarrow> fw_closed (forwarders w f))
     \<and> fw_trackReceiver (forwarders w f) < nextRef w
     \<and> distinct (fw_downTracks (forwarders w f))
     \<and> (\<forall>d \<in> set (fw_downTracks (forwarders w f)).
          d < nextRef w \<and> dt_trackReceiver (downtracks w d) < nextRef w \<and> dtTrackID w d = fwTrackID w f
          \<and> (fw_closed (forwarders w f) \<longrightarrow> dt_closed (downtracks w d)))"

definition router_ok :: "world \<Rightarrow> ref \<Rightarrow> bool" where
  "router_ok w r \<longleftrightarrow> ro_session (routers w r) < nextRef w
     \<and> gm_ok (ro_tracks (routers w r)) \<and> gm_ok (ro_forwarders (routers w r))
     \<and> distinct (ro_subscribers (routers w r))
     \<and> (\<forall>s \<in> set (ro_subscribers (routers w r)). s < nextRef w)
     \<and> (\<forall>k t. gm_get (ro_tracks (routers w r)) k = Some t \<longrightarrow>
          t < nextRef w \<and> tk_trackID (tracks w t) = k
          \<and> (ro_closed (routers w r) \<longrightarrow> tk_closed (tracks w t)))
     \<and> (\<forall>k f. gm_get (ro_forwarders (routers w r)) k = Some f \<longrightarrow>
          f < nextRef w \<and> fw_trackReceiver (forwarders w f) < nextRef w \<and> fwTrackID w f = k
          \<and> (ro_closed (routers w r) \<longrightarrow> fw_closed (forwarders w f)))"

definition subscriber_ok :: "world \<Rightarrow> ref \<Rightarrow> bool" where
  "subscriber_ok w s \<longleftrightarrow> su_peer (subscribers w s) < nextRef w
     \<and> gm_ok (su_downTracks (subscribers w s))
     \<and> distinct (su_routers (subscribers w s))
     \<and> (\<forall>r \<in> set (su_routers (subscribers w s)). r < nextRef w)
     \<and> (\<forall>k d. gm_get (su_downTracks (subscribers w s)) k = Some d \<longrightarrow>
          d < nextRef w \<and> dt_subscriber (downtracks w d) = s
          \<and> dt_trackReceiver (downtracks w d) < nextRef w \<and> dtTrackID w d = k
          \<and> (su_closed (subscribers w s) \<longrightarrow> dt_closed (downtracks w d)))"

definition publisher_ok :: "world \<Rightarrow> ref \<Rightarrow> bool" where
  "publisher_ok w p \<longleftrightarrow> pu_peer (publishers w p) < nextRef w
     \<and> pu_router (publishers w p) < nextRef w
     \<and> ro_id (routers w (pu_router (publishers w p))) = pe_id (peers w (pu_peer (publishers w p)))
     \<and> gm_ok (pu_tracks (publishers w p))
     \<and> (\<forall>k t. gm_get (pu_tracks (publishers w p)) k = Some t \<longrightarrow>
          t < nextRef w \<and> tk_trackID (tracks w t) = k)"

definition peer_ok :: "world \<Rightarrow> ref \<Rightarrow> bool" where
  "peer_ok w p \<longleftrightarrow> pe_session (peers w p) < nextRef w
     \<and> (\<forall>x. pe_publisher (peers w p) = Some x \<longrightarrow> x < nextRef w)
     \<and> (\<forall>x. pe_subscriber (peers w p) = Some x \<longrightarrow> x < nextRef w)"

definition session_ok :: "world \<Rightarrow> ref \<Rightarrow> bool" where
  "session_ok w s \<longleftrightarrow> gm_ok (se_peers (sessions w s)) \<and> gm_ok (se_routers (sessions w s))
     \<and> (\<forall>k p. gm_get (se_peers (sessions w s)) k = Some p \<longrightarrow>
          p < nextRef w \<and> pe_id (peers w p) = k \<and> pe_session (peers w p) = s
          \<and> pe_publisher (peers w p) \<noteq> None \<and> pe_subscriber (peers w p) \<noteq> None)
     \<and> (\<forall>k r. gm_get (se_routers (sessions w s)) k = Some r \<longrightarrow>
          r < nextRef w \<and> ro_id (routers w r) = k)"

fun task_ok :: "world \<Rightarrow> task \<Rightarrow> bool" where
  "task_ok w (ReadRTCP d) \<longleftrightarrow> d < nextRef w"
| "task_ok w (InitialKeyframe d n) \<longleftrightarrow> d < nextRef w"
| "task_ok w (LayerSwitched d layer) \<longleftrightarrow> d < nextRef w"
| "task_ok w (Renegotiate s) \<longleftrightarrow> s < nextRef w"
| "task_ok w (NotifyExisting s p) \<longleftrightarrow> s < nextRef w \<and> p < nextRef w"
| "task_ok w (ReadRTP p r t layer) \<longleftrightarrow> p < nextRef w \<and> r < nextRef w \<and> t < nextRef w"

text \<open>Peer connections are made with the servers of the configuration.\<close>

definition call_ok :: "world \<Rightarrow> effect \<Rightarrow> bool" where
  "call_ok w e \<longleftrightarrow> (\<forall>servers. e = NewPC servers \<longrightarrow> servers = ICEServers (sfu_config w))"

lemma call_ok_simps [simp]:
  "call_ok w (NewPC servers) \<longleftrightarrow> servers = ICEServers (sfu_config w)"
  "call_ok w (CreateDataChannel r1)" "call_ok w (NewTrackLocal x1 x2 x3)" "call_ok w (AddTrackToPC r1 r2)"
  "call_ok w (WriteTrackRTP r1 p)" "call_ok w (WritePLI r1 ssrc)" "call_ok w (SetReadDeadline r1)"
  "call_ok w (ReadTrackRTP r1)" "call_ok w (ReadSenderRTCP r1)" "call_ok w (CreateOffer r1)"
  "call_ok w (CreateAnswer r1)" "call_ok w (SetLocalDescription r1 x1)"
  "call_ok w (SetRemoteDescription r1 x1)" "call_ok w (AddICE r1 x1)" "call_ok w (ClosePC r1)"
  "call_ok w (SendDC r1 bs)" "call_ok w (WriteWS r1 j)" "call_ok w (CloseWS r1)" "call_ok w UpgradeWS"
  by (auto simp: call_ok_def)

lemmas ok_defs =
  receiver_ok_def layer_ok_def track_ok_def downtrack_ok_def forwarder_ok_def router_ok_def
  subscriber_ok_def publisher_ok_def peer_ok_def session_ok_def

definition wf :: "world \<Rightarrow> bool" where
  "wf w \<longleftrightarrow> \<not> panicked w
     \<and> (\<forall>x. receiver_ok w x \<and> layer_ok w x \<and> track_ok w x \<and> downtrack_ok w x \<and> forwarder_ok w x
          \<and> router_ok w x \<and> subscriber_ok w x \<and> publisher_ok w x \<and> peer_ok w x \<and> session_ok w x)
     \<and> gm_ok (sfu_sessions w)
     \<and> (\<forall>k s. gm_get (sfu_sessions w) k = Some s \<longrightarrow> s < nextRef w \<and> se_id (sessions w s) = k)
     \<and> (\<forall>t \<in> set (tasks w). task_ok w t)
     \<and> (\<forall>x \<in> set (hist w). call_ok w (fst x))"

lemma wf_configured: "wf (world0\<lparr>sfu_config := config\<rparr>)"
  by (simp add: wf_def ok_defs world0_def sel_inv_New) (simp add: NewLayerSelector_def Let_def)

lemma wf_world0: "wf world0"
  using wf_configured [of "sfu_config world0"] by simp

lemma wf_NewSFU: "NewSFU registered config = Some w \<Longrightarrow> wf w"
  by (auto simp: NewSFU_def wf_configured split: option.splits)

lemma wf_chan_ok: "wf w \<Longrightarrow> chan_ok w"
  by (simp add: wf_def chan_ok_def receiver_ok_def track_ok_def forwarder_ok_def)

lemma wf_parts:
  assumes "wf w"
  shows "\<not> panicked w" "receiver_ok w x" "layer_ok w x" "track_ok w x" "downtrack_ok w x"
    "forwarder_ok w x" "router_ok w x" "subscriber_ok w x" "publisher_ok w x" "peer_ok w x"
    "session_ok w x" "gm_ok (sfu_sessions w)" "t \<in> set (tasks w) \<Longrightarrow> task_ok w t"
  using assms by (simp_all add: wf_def)

text \<open>An object that does not change stays well formed while the store is extended.\<close>

lemma ok_extends:
  assumes "extends v w"
  shows "receiver_ok v x \<Longrightarrow> receivers w x = receivers v x \<Longrightarrow> receiver_ok w x"
    and "layer_ok v x \<Longrightarrow> layers w x = layers v x \<Longrightarrow> layer_ok w x"
    and "track_ok v x \<Longrightarrow> tracks w x = tracks v x \<Longrightarrow> track_ok w x"
    and "downtrack_ok v x \<Longrightarrow> downtracks w x = downtracks v x \<Longrightarrow> downtrack_ok w x"
    and "forwarder_ok v x \<Longrightarrow> forwarders w x = forwarders v x \<Longrightarrow> forwarder_ok w x"
    and "router_ok v x \<Longrightarrow> routers w x = routers v x \<Longrightarrow> router_ok w x"
    and "subscriber_ok v x \<Longrightarrow> subscribers w x = subscribers v x \<Longrightarrow> subscriber_ok w x"
    and "publisher_ok v x \<Longrightarrow> publishers w x = publishers v x \<Longrightarrow> publisher_ok w x"
    and "peer_ok v x \<Longrightarrow> peers w x = peers v x \<Longrightarrow> peer_ok w x"
    and "session_ok v x \<Longrightarrow> sessions w x = sessions v x \<Longrightarrow> session_ok w x"
    and "task_ok v t \<Longrightarrow> task_ok w t"
proof -
  note lt = extends_lt [OF assms] and fld = extends_fields [OF assms]
  show "receiver_ok v x \<Longrightarrow> receivers w x = receivers v x \<Longrightarrow> receiver_ok w x"
    by (simp add: receiver_ok_def)
  show "layer_ok v x \<Longrightarrow> layers w x = layers v x \<Longrightarrow> layer_ok w x"
    by (simp add: layer_ok_def lt)
  show "track_ok v x \<Longrightarrow> tracks w x = tracks v x \<Longrightarrow> track_ok w x"
    by (auto simp: track_ok_def lt fld)
  show "downtrack_ok v x \<Longrightarrow> downtracks w x = downtracks v x \<Longrightarrow> downtrack_ok w x"
    by (auto simp: downtrack_ok_def lt)
  show "forwarder_ok v x \<Longrightarrow> forwarders w x = forwarders v x \<Longrightarrow> forwarder_ok w x"
    by (auto simp: forwarder_ok_def lt fld dtTrackID_def fwTrackID_def)
  show "router_ok v x \<Longrightarrow> routers w x = routers v x \<Longrightarrow> router_ok w x"
    by (auto simp: router_ok_def lt fld fwTrackID_def)
  show "subscriber_ok v x \<Longrightarrow> subscribers w x = subscribers v x \<Longrightarrow> subscriber_ok w x"
    by (auto simp: subscriber_ok_def lt fld dtTrackID_def)
  show "publisher_ok v x \<Longrightarrow> publishers w x = publishers v x \<Longrightarrow> publisher_ok w x"
    by (auto simp: publisher_ok_def lt fld)
  show "peer_ok v x \<Longrightarrow> peers w x = peers v x \<Longrightarrow> peer_ok w x"
    by (auto simp: peer_ok_def lt)
  show "session_ok v x \<Longrightarrow> sessions w x = sessions v x \<Longrightarrow> session_ok w x"
    by (auto simp: session_ok_def lt fld)
  show "task_ok v t \<Longrightarrow> task_ok w t"
    by (cases t) (auto simp: lt)
qed

text \<open>So a step keeps the store well formed when the objects it changes are.\<close>

lemma wf_step:
  assumes w: "wf v" and e: "extends v w" and "panicked w = panicked v"
    and "\<And>x. receivers w x \<noteq> receivers v x \<Longrightarrow> receiver_ok w x"
    and "\<And>x. layers w x \<noteq> layers v x \<Longrightarrow> layer_ok w x"
    and "\<And>x. tracks w x \<noteq> tracks v x \<Longrightarrow> track_ok w x"
    and "\<And>x. downtracks w x \<noteq> downtracks v x \<Longrightarrow> downtrack_ok w x"
    and "\<And>x. forwarders w x \<noteq> forwarders v x \<Longrightarrow> forwarder_ok w x"
    and "\<And>x. routers w x \<noteq> routers v x \<Longrightarrow> router_ok w x"
    and "\<And>x. subscribers w x \<noteq> subscribers v x \<Longrightarrow> subscriber_ok w x"
    and "\<And>x. publishers w x \<noteq> publishers v x \<Longrightarrow> publisher_ok w x"
    and "\<And>x. peers w x \<noteq> peers v x \<Longrightarrow> peer_ok w x"
    and "\<And>x. sessions w x \<noteq> sessions v x \<Longrightarrow> session_ok w x"
    and "gm_ok (sfu_sessions v) \<Longrightarrow> gm_ok (sfu_sessions w)"
    and "\<And>k s. gm_get (sfu_sessions w) k = Some s \<Longrightarrow> gm_get (sfu_sessions v) k \<noteq> Some s \<Longrightarrow>
           s < nextRef w \<and> se_id (sessions w s) = k"
    and "\<And>t. t \<in> set (tasks w) \<Longrightarrow> t \<notin> set (tasks v) \<Longrightarrow> task_ok w t"
    and "\<And>x. x \<in> set (hist w) \<Longrightarrow> x \<notin> set (hist v) \<Longrightarrow> call_ok w (fst x)"
  shows "wf w"
proof -
  note ok = ok_extends [OF e] and old = wf_parts [OF w]
  have s: "s < nextRef w \<and> se_id (sessions w s) = k" if "gm_get (sfu_sessions w) k = Some s" for k s
  proof (cases "gm_get (sfu_sessions v) k = Some s")
    case True
    then show ?thesis
      using w extends_lt [OF e] extends_fields(26) [OF e] by (auto simp: wf_def)
  next
    case False
    then show ?thesis using assms(15) that by blast
  qed
  have t: "task_ok w t" if "t \<in> set (tasks w)" for t
    using that assms(16) ok(11) old(13) by blast
  have c: "call_ok w (fst x)" if "x \<in> set (hist w)" for x
  proof (cases "x \<in> set (hist v)")
    case True
    then show ?thesis
      using w extends_config [OF e] by (auto simp: wf_def call_ok_def)
  next
    case False
    then show ?thesis using assms(17) that by blast
  qed
  have objs: "receiver_ok w x \<and> layer_ok w x \<and> track_ok w x \<and> downtrack_ok w x \<and> forwarder_ok w x
          \<and> router_ok w x \<and> subscriber_ok w x \<and> publisher_ok w x \<and> peer_ok w x \<and> session_ok w x" for x
    using assms(4-13) ok(1-10) old(2-11) by metis
  show ?thesis
    unfolding wf_def using s t c objs assms(3,14) old(1,12) by blast
qed

text \<open>The relation the operations satisfy: a well-formed store stays well formed and is
  extended.\<close>

definition good :: "world \<Rightarrow> world \<Rightarrow> bool" where
  "good v w \<longleftrightarrow> (wf v \<longrightarrow> wf w \<and> extends v w)"

interpretation good: frame good
  by unfold_locales (auto simp: good_def intro: extends_refl extends_trans)

lemma goodI: "(wf v \<Longrightarrow> wf w) \<Longrightarrow> (wf v \<Longrightarrow> extends v w) \<Longrightarrow> good v w"
  by (simp add: good_def)

lemma goodD: "good v w \<Longrightarrow> wf v \<Longrightarrow> wf w" "good v w \<Longrightarrow> wf v \<Longrightarrow> extends v w"
  by (simp_all add: good_def)

lemma good_refl [simp]: "good w w"
  by (rule good.frame_refl)

lemma good_then: "good u v \<Longrightarrow> (wf v \<Longrightarrow> extends u v \<Longrightarrow> good v w) \<Longrightarrow> good u w"
  by (auto simp: good_def intro: extends_trans)

text \<open>A loop whose rounds need what holds when the loop starts and is kept by extension.\<close>

lemma good_fold:
  assumes "\<And>x t. x \<in> set xs \<Longrightarrow> wf w \<Longrightarrow> wf t \<Longrightarrow> extends w t \<Longrightarrow> good t (f x t)"
  shows "good w (fold f xs w)"
proof -
  have "good u (fold f xs u)" if "wf w" and "extends w u" for u
    using assms that
  proof (induction xs arbitrary: u)
    case (Cons x xs)
    have "good u (fold f xs (f x u))" if u: "wf u"
    proof (rule good_then)
      show "good u (f x u)" using Cons.prems u by simp
    next
      assume "extends u (f x u)"
      then have "extends w (f x u)"
        by (rule extends_trans [OF Cons.prems(3)])
      with Cons show "good (f x u) (fold f xs (f x u))" by simp
    qed
    then show ?case by (simp add: good_def)
  qed simp
  then show ?thesis by (auto simp: extends_refl good_def)
qed

text \<open>Calls, clock readings, goroutines and fresh references.\<close>

lemma good_world [simp]:
  "call_ok w e \<Longrightarrow> good w (snd (call E e w))" "good w (snd (readClock E w))" "good w (snd (fresh w))"
  by (rule goodI; (erule wf_step)?;
      auto simp: extends_refl extends_fresh call_def readClock_def fresh_def extends_def Let_def call_ok_def)+

lemma good_spawn: "(wf w \<Longrightarrow> task_ok w t) \<Longrightarrow> good w (spawn t w)"
proof (rule goodI)
  assume t: "wf w \<Longrightarrow> task_ok w t" and w: "wf w"
  have "extends w (spawn t w)" by (simp add: extends_refl)
  moreover from this w t have "task_ok (spawn t w) t" by (auto intro: ok_extends)
  ultimately show "wf (spawn t w)"
    by (intro wf_step [OF w]) (auto simp: spawn_def)
qed (simp add: extends_refl)

text \<open>
  Updates of one object, and allocation. The ten heaps share one contract: an update that
  keeps the object's identity extends the store, and a store in which only one object is
  new or changed is well formed when that object is.
\<close>

locale heap =
  fixes obj :: "world \<Rightarrow> ref \<Rightarrow> 'o" and upd :: "ref \<Rightarrow> ('o \<Rightarrow> 'o) \<Rightarrow> world \<Rightarrow> world"
    and keeps :: "'o \<Rightarrow> 'o \<Rightarrow> bool" and ok :: "world \<Rightarrow> ref \<Rightarrow> bool"
  assumes upd_extends: "extends u w \<Longrightarrow> (x < nextRef u \<Longrightarrow> keeps (obj w x) (f (obj w x))) \<Longrightarrow>
      extends u (upd x f w)"
    and upd_wf: "wf v \<Longrightarrow> w = v \<or> w = snd (fresh v) \<Longrightarrow> extends v (upd x f w) \<Longrightarrow>
      ok (upd x f w) x \<Longrightarrow> wf (upd x f w)"
begin

lemma good_upd:
  assumes "wf w \<Longrightarrow> keeps (obj w x) (f (obj w x))" and "wf w \<Longrightarrow> ok (upd x f w) x"
  shows "good w (upd x f w)"
proof (rule goodI)
  assume w: "wf w"
  show e: "extends w (upd x f w)"
    by (rule upd_extends [OF extends_refl]) (rule assms(1) [OF w])
  show "wf (upd x f w)"
    by (rule upd_wf [OF w _ e]) (simp_all add: assms(2) w)
qed

lemma good_new:
  assumes "wf w \<Longrightarrow> ok (upd (nextRef w) f (snd (fresh w))) (nextRef w)"
  shows "good w (upd (nextRef w) f (snd (fresh w)))"
proof (rule goodI)
  assume w: "wf w"
  show e: "extends w (upd (nextRef w) f (snd (fresh w)))"
    by (rule upd_extends [OF extends_fresh [OF extends_refl]]) simp
  show "wf (upd (nextRef w) f (snd (fresh w)))"
    by (rule upd_wf [OF w _ e]) (simp_all add: assms w)
qed

end

interpretation receiverHeap: heap receivers upd_receiver keepsReceiver receiver_ok
  by unfold_locales (erule extends_upd, assumption,
     erule wf_step, assumption, auto simp: upd_receiver_def fresh_def split: if_splits)

interpretation layerHeap: heap layers upd_layer keepsLayer layer_ok
  by unfold_locales (erule extends_upd, assumption,
     erule wf_step, assumption, auto simp: upd_layer_def fresh_def split: if_splits)

interpretation trackHeap: heap tracks upd_track keepsTrack track_ok
  by unfold_locales (erule extends_upd, assumption,
     erule wf_step, assumption, auto simp: upd_track_def fresh_def split: if_splits)

interpretation dtHeap: heap downtracks upd_dt keepsDownTrack downtrack_ok
  by unfold_locales (erule extends_upd, assumption,
     erule wf_step, assumption, auto simp: upd_dt_def fresh_def split: if_splits)

interpretation forwarderHeap: heap forwarders upd_forwarder keepsForwarder forwarder_ok
  by unfold_locales (erule extends_upd, assumption,
     erule wf_step, assumption, auto simp: upd_forwarder_def fresh_def split: if_splits)

interpretation routerHeap: heap routers upd_router keepsRouter router_ok
  by unfold_locales (erule extends_upd, assumption,
     erule wf_step, assumption, auto simp: upd_router_def fresh_def split: if_splits)

interpretation subscriberHeap: heap subscribers upd_subscriber keepsSubscriber subscriber_ok
  by unfold_locales (erule extends_upd, assumption,
     erule wf_step, assumption, auto simp: upd_subscriber_def fresh_def split: if_splits)

interpretation publisherHeap: heap publishers upd_publisher keepsPublisher publisher_ok
  by unfold_locales (erule extends_upd, assumption,
     erule wf_step, assumption, auto simp: upd_publisher_def fresh_def split: if_splits)

interpretation peerHeap: heap peers upd_peer keepsPeer peer_ok
  by unfold_locales (erule extends_upd, assumption,
     erule wf_step, assumption, auto simp: upd_peer_def fresh_def split: if_splits)

interpretation sessionHeap: heap sessions upd_session keepsSession session_ok
  by unfold_locales (erule extends_upd, assumption,
     erule wf_step, assumption, auto simp: upd_session_def fresh_def split: if_splits)

end
