(* ===== verification/Track.thy ===== *)
theory Track
  imports Heap
begin

section \<open>Layers, layer receivers and tracks (\<open>layer.go\<close>, \<open>receiver.go\<close>, \<open>track.go\<close>)\<close>

text \<open>
  The upstream side of one track: a receiver per quality layer, the layer objects that
  name them, and the track that owns the layers and lists the downtracks fed from it.
\<close>

subsection \<open>Layer receivers\<close>

definition NewLayerReceiver :: "TrackRemote \<Rightarrow> string \<Rightarrow> world \<Rightarrow> ref \<times> world" where
  "NewLayerReceiver track layerName w =
     (let (r, w) = fresh w
      in (r, upd_receiver r (\<lambda>_. \<lparr>lr_track = track, lr_pc = None, lr_codec = rt_MimeType track,
             lr_layerName = layerName, lr_closeCh = ChOpen, lr_closed = False\<rparr>) w))"

definition SetPeerConnection :: "ref \<Rightarrow> ref \<Rightarrow> world \<Rightarrow> world" where
  "SetPeerConnection r pc w = upd_receiver r (\<lambda>x. x\<lparr>lr_pc := Some pc\<rparr>) w"

definition LayerReceiver_TrackID :: "world \<Rightarrow> ref \<Rightarrow> string" where
  "LayerReceiver_TrackID w r = rt_ID (lr_track (receivers w r))"

definition LayerReceiver_StreamID :: "world \<Rightarrow> ref \<Rightarrow> string" where
  "LayerReceiver_StreamID w r = rt_StreamID (lr_track (receivers w r))"

definition LayerReceiver_Kind :: "world \<Rightarrow> ref \<Rightarrow> string" where
  "LayerReceiver_Kind w r = rt_Kind (lr_track (receivers w r))"

definition Codec :: "world \<Rightarrow> ref \<Rightarrow> string" where
  "Codec w r = lr_codec (receivers w r)"

definition LayerReceiver_SSRC :: "world \<Rightarrow> ref \<Rightarrow> u32" where
  "LayerReceiver_SSRC w r = rt_SSRC (lr_track (receivers w r))"

definition LayerName :: "world \<Rightarrow> ref \<Rightarrow> string" where
  "LayerName w r = lr_layerName (receivers w r)"

definition SendPLI :: "env \<Rightarrow> ref \<Rightarrow> world \<Rightarrow> world" where
  "SendPLI E r w =
     (case lr_pc (receivers w r) of
        None \<Rightarrow> w
      | Some pc \<Rightarrow> snd (call E (WritePLI pc (LayerReceiver_SSRC w r)) w))"

text \<open>\<open>ReadRTP\<close> of a receiver: \<open>Inl\<close> is an error, the text \<open>EOF\<close> for a closed receiver.\<close>

definition LayerReceiver_ReadRTP :: "env \<Rightarrow> ref \<Rightarrow> world \<Rightarrow> (string + rtp_packet) \<times> world" where
  "LayerReceiver_ReadRTP E r w =
     (if lr_closeCh (receivers w r) = ChClosed then (Inl ''EOF'', w)
      else (case call E (SetReadDeadline r) w of
              (Some err, w) \<Rightarrow> (Inl err, w)
            | (None, w1) \<Rightarrow>
                (case call E (ReadTrackRTP r) w1 of
                   (Some err, w) \<Rightarrow> (Inl err, w)
                 | (None, w) \<Rightarrow> (Inr (packetOf E (hist w1) (ReadTrackRTP r)), w))))"

definition LayerReceiver_Close :: "ref \<Rightarrow> world \<Rightarrow> world" where
  "LayerReceiver_Close r w =
     (if lr_closed (receivers w r) then w
      else (let w = upd_receiver r (\<lambda>x. x\<lparr>lr_closed := True\<rparr>) w
            in case close_chan (lr_closeCh (receivers w r)) of
                 None \<Rightarrow> w\<lparr>panicked := True\<rparr>
               | Some ch \<Rightarrow> upd_receiver r (\<lambda>x. x\<lparr>lr_closeCh := ch\<rparr>) w))"

subsection \<open>Layers\<close>

definition NewLayer :: "string \<Rightarrow> ref \<Rightarrow> world \<Rightarrow> ref \<times> world" where
  "NewLayer name receiver w =
     (let (l, w) = fresh w
      in (l, upd_layer l (\<lambda>_. \<lparr>ly_name = name, ly_receiver = receiver,
               ly_ssrc = LayerReceiver_SSRC w receiver, ly_active = True\<rparr>) w))"

definition IsActive :: "world \<Rightarrow> ref \<Rightarrow> bool" where
  "IsActive w l = ly_active (layers w l)"

definition SetActive :: "ref \<Rightarrow> bool \<Rightarrow> world \<Rightarrow> world" where
  "SetActive l active w = upd_layer l (\<lambda>x. x\<lparr>ly_active := active\<rparr>) w"

subsection \<open>Tracks\<close>

definition NewTrackReceiver :: "string \<Rightarrow> string \<Rightarrow> string \<Rightarrow> world \<Rightarrow> ref \<times> world" where
  "NewTrackReceiver trackID streamID kind w =
     (let (t, w) = fresh w
      in (t, upd_track t (\<lambda>_. \<lparr>tk_trackID = trackID, tk_streamID = streamID, tk_kind = kind,
               tk_layers = [], tk_downTracks = [], tk_closed = False, tk_closeCh = ChOpen\<rparr>) w))"

definition AddLayer :: "ref \<Rightarrow> string \<Rightarrow> ref \<Rightarrow> world \<Rightarrow> world" where
  "AddLayer t name receiver w =
     (if tk_closed (tracks w t) then w
      else (let (layer, w) = NewLayer name receiver w
            in upd_track t (\<lambda>x. x\<lparr>tk_layers := gm_put name layer (tk_layers x)\<rparr>) w))"

definition GetLayer :: "world \<Rightarrow> ref \<Rightarrow> string \<Rightarrow> ref option" where
  "GetLayer w t name = gm_get (tk_layers (tracks w t)) name"

definition GetLayers :: "world \<Rightarrow> ref \<Rightarrow> (string, ref) gomap" where
  "GetLayers w t = tk_layers (tracks w t)"

fun firstActive :: "world \<Rightarrow> (string, ref) gomap \<Rightarrow> string list \<Rightarrow> ref option" where
  "firstActive w ls [] = None"
| "firstActive w ls (name # names) =
     (case gm_get ls name of
        Some layer \<Rightarrow> (if IsActive w layer then Some layer else firstActive w ls names)
      | None \<Rightarrow> firstActive w ls names)"

definition GetBestLayer :: "world \<Rightarrow> ref \<Rightarrow> ref option" where
  "GetBestLayer w t =
     (case gm_get (tk_layers (tracks w t)) LayerDefault of
        Some layer \<Rightarrow> Some layer
      | None \<Rightarrow> firstActive w (tk_layers (tracks w t)) [LayerHigh, LayerMid, LayerLow])"

definition TrackReceiver_AddDownTrack :: "ref \<Rightarrow> ref \<Rightarrow> world \<Rightarrow> world" where
  "TrackReceiver_AddDownTrack t dt w =
     upd_track t (\<lambda>x. x\<lparr>tk_downTracks := tk_downTracks x @ [dt]\<rparr>) w"

text \<open>Only the first occurrence is removed, as the loop returns after it.\<close>

definition TrackReceiver_RemoveDownTrack :: "ref \<Rightarrow> ref \<Rightarrow> world \<Rightarrow> world" where
  "TrackReceiver_RemoveDownTrack t dt w =
     upd_track t (\<lambda>x. x\<lparr>tk_downTracks := remove1 dt (tk_downTracks x)\<rparr>) w"

definition TrackReceiver_Close :: "env \<Rightarrow> ref \<Rightarrow> world \<Rightarrow> world" where
  "TrackReceiver_Close E t w =
     (if tk_closed (tracks w t) then w
      else (let w = upd_track t (\<lambda>x. x\<lparr>tk_closed := True\<rparr>) w
            in case close_chan (tk_closeCh (tracks w t)) of
                 None \<Rightarrow> w\<lparr>panicked := True\<rparr>
               | Some ch \<Rightarrow>
                   (let w = upd_track t (\<lambda>x. x\<lparr>tk_closeCh := ch\<rparr>) w
                    in fold (\<lambda>layer w. LayerReceiver_Close (ly_receiver (layers w layer)) w)
                         (rangeVals E w (tk_layers (tracks w t))) w)))"

lemmas track_defs [go_defs] =
  NewLayerReceiver_def SetPeerConnection_def SendPLI_def NewLayer_def IsActive_def SetActive_def
  NewTrackReceiver_def AddLayer_def GetLayer_def GetLayers_def
  TrackReceiver_AddDownTrack_def TrackReceiver_RemoveDownTrack_def

subsection \<open>Closing\<close>

lemma LayerReceiver_Close_eq:
  assumes "chan_ok w"
  shows "LayerReceiver_Close r w =
           upd_receiver r (\<lambda>x. x\<lparr>lr_closed := True, lr_closeCh := ChClosed\<rparr>) w"
  using chan_ok_receiver [OF assms, of r]
  by (cases "receivers w r")
     (auto simp: LayerReceiver_Close_def upd_receiver_def fun_upd_idem split: if_splits)

lemma chan_ok_LayerReceiver_Close [inv_intros]:
  "chan_ok w \<Longrightarrow> chan_ok (LayerReceiver_Close r w)"
  by (simp add: LayerReceiver_Close_eq) (simp add: chan_ok_def upd_receiver_def)

interpretation receiverClose: closer "LayerReceiver_Close r" "\<lambda>w. lr_closed (receivers w r)" chan_ok
  for r
  by unfold_locales
     (erule chan_ok_LayerReceiver_Close,
      auto simp: LayerReceiver_Close_def upd_receiver_def Let_def split: option.splits)

text \<open>The receivers of a track, and what closing a list of layers does.\<close>

definition receiversOf :: "world \<Rightarrow> ref \<Rightarrow> ref set" where
  "receiversOf w t =
     (\<lambda>l. ly_receiver (layers w l)) ` {l. \<exists>k. gm_get (tk_layers (tracks w t)) k = Some l}"

lemma closeLayers:
  assumes "chan_ok w"
  shows "fold (\<lambda>layer w. LayerReceiver_Close (ly_receiver (layers w layer)) w) ls w =
           w\<lparr>receivers := (\<lambda>r. if r \<in> (\<lambda>l. ly_receiver (layers w l)) ` set ls
                              then (receivers w r)\<lparr>lr_closed := True, lr_closeCh := ChClosed\<rparr>
                              else receivers w r)\<rparr>"
  using assms
proof (induction ls arbitrary: w)
  case Nil
  then show ?case by simp
next
  case (Cons l ls)
  let ?w = "LayerReceiver_Close (ly_receiver (layers w l)) w"
  have eq: "?w = upd_receiver (ly_receiver (layers w l))
                   (\<lambda>x. x\<lparr>lr_closed := True, lr_closeCh := ChClosed\<rparr>) w"
    by (rule LayerReceiver_Close_eq [OF Cons.prems])
  have "chan_ok ?w"
    by (rule chan_ok_LayerReceiver_Close [OF Cons.prems])
  from Cons.IH [OF this] show ?case
    by (auto simp: eq upd_receiver_def fun_eq_iff)
qed

lemma TrackReceiver_Close_eq:
  assumes "chan_ok w" and "\<not> tk_closed (tracks w t)"
  shows "TrackReceiver_Close E t w =
           w\<lparr>tracks := (tracks w)(t := (tracks w t)\<lparr>tk_closed := True, tk_closeCh := ChClosed\<rparr>),
             receivers := (\<lambda>r. if r \<in> receiversOf w t
                              then (receivers w r)\<lparr>lr_closed := True, lr_closeCh := ChClosed\<rparr>
                              else receivers w r)\<rparr>"
proof -
  let ?w = "upd_track t (\<lambda>x. x\<lparr>tk_closed := True, tk_closeCh := ChClosed\<rparr>) w"
  have ch: "tk_closeCh (tracks w t) = ChOpen"
    using chan_ok_track [OF assms(1)] assms(2) by simp
  have ok: "chan_ok ?w"
    using assms(1) by (auto simp: chan_ok_def upd_track_def)
  have "set (rangeVals E ?w (tk_layers (tracks ?w t)))
          = {l. \<exists>k. gm_get (tk_layers (tracks w t)) k = Some l}"
    by (auto simp: upd_track_def)
  then have im: "(\<lambda>l. ly_receiver (layers ?w l)) ` set (rangeVals E ?w (tk_layers (tracks ?w t)))
              = receiversOf w t"
    by (simp add: receiversOf_def upd_track_def)
  have "TrackReceiver_Close E t w =
          fold (\<lambda>layer w. LayerReceiver_Close (ly_receiver (layers w layer)) w)
            (rangeVals E ?w (tk_layers (tracks ?w t))) ?w"
    by (simp add: TrackReceiver_Close_def assms ch upd_track_def Let_def)
  also have "\<dots> = ?w\<lparr>receivers := (\<lambda>r. if r \<in> receiversOf w t
                      then (receivers ?w r)\<lparr>lr_closed := True, lr_closeCh := ChClosed\<rparr>
                      else receivers ?w r)\<rparr>"
    unfolding closeLayers [OF ok] im ..
  finally show ?thesis
    by (simp add: upd_track_def cong: if_cong)
qed

lemma chan_ok_TrackReceiver_Close [inv_intros]:
  "chan_ok w \<Longrightarrow> chan_ok (TrackReceiver_Close E t w)"
  by (cases "tk_closed (tracks w t)")
     (simp add: TrackReceiver_Close_def,
      simp add: TrackReceiver_Close_eq, simp add: chan_ok_def)

lemma tracks_LayerReceiver_Close [simp]: "tracks (LayerReceiver_Close r w) = tracks w"
  by (simp add: LayerReceiver_Close_def upd_receiver_def Let_def split: option.splits)

text \<open>Closing receivers and tracks leaves every other kind of object alone.\<close>

lemma LayerReceiver_Close_frame [simp]:
  "routers (LayerReceiver_Close r w) = routers w" "forwarders (LayerReceiver_Close r w) = forwarders w"
  "subscribers (LayerReceiver_Close r w) = subscribers w"
  "publishers (LayerReceiver_Close r w) = publishers w" "peers (LayerReceiver_Close r w) = peers w"
  "sessions (LayerReceiver_Close r w) = sessions w" "downtracks (LayerReceiver_Close r w) = downtracks w"
  "hist (LayerReceiver_Close r w) = hist w" "sfu_sessions (LayerReceiver_Close r w) = sfu_sessions w"
  by (simp_all add: LayerReceiver_Close_def upd_receiver_def Let_def split: option.splits)

lemma closeLayers_frame [simp]:
  fixes w :: world and ls :: "ref list"
  defines "w' \<equiv> fold (\<lambda>layer w. LayerReceiver_Close (ly_receiver (layers w layer)) w) ls w"
  shows "routers w' = routers w" "forwarders w' = forwarders w" "subscribers w' = subscribers w"
    "publishers w' = publishers w" "peers w' = peers w" "sessions w' = sessions w"
    "downtracks w' = downtracks w" "hist w' = hist w" "sfu_sessions w' = sfu_sessions w"
  unfolding w'_def by (rule same_fold, simp)+

lemma TrackReceiver_Close_frame [simp]:
  "routers (TrackReceiver_Close E t w) = routers w"
  "forwarders (TrackReceiver_Close E t w) = forwarders w"
  "subscribers (TrackReceiver_Close E t w) = subscribers w"
  "publishers (TrackReceiver_Close E t w) = publishers w" "peers (TrackReceiver_Close E t w) = peers w"
  "sessions (TrackReceiver_Close E t w) = sessions w"
  "downtracks (TrackReceiver_Close E t w) = downtracks w" "hist (TrackReceiver_Close E t w) = hist w"
  "sfu_sessions (TrackReceiver_Close E t w) = sfu_sessions w"
  by (simp_all add: TrackReceiver_Close_def upd_track_def Let_def split: option.splits)

lemma tracks_closeLayers [simp]:
  "tracks (fold (\<lambda>layer w. LayerReceiver_Close (ly_receiver (layers w layer)) w) ls w) = tracks w"
  by (rule same_fold) simp

interpretation trackClose: closer "TrackReceiver_Close E t" "\<lambda>w. tk_closed (tracks w t)" chan_ok
  for E t
  by unfold_locales
     (erule chan_ok_TrackReceiver_Close,
      auto simp: TrackReceiver_Close_def upd_track_def Let_def split: option.splits)

subsection \<open>Well-formedness\<close>

lemma NewLayerReceiver_ref [simp]: "fst (NewLayerReceiver track name w) = nextRef w"
  and nextRef_NewLayerReceiver [simp]: "nextRef (snd (NewLayerReceiver track name w)) = Suc (nextRef w)"
  by (simp_all add: NewLayerReceiver_def Let_def split_beta)

lemma good_NewLayerReceiver: "good w (snd (NewLayerReceiver track name w))"
  unfolding NewLayerReceiver_def split_beta Let_def fst_fresh snd_conv
  by (rule receiverHeap.good_new) (simp add: receiver_ok_def upd_receiver_def)

lemma good_SetPeerConnection: "good w (SetPeerConnection r pc w)"
  unfolding SetPeerConnection_def
  by (rule receiverHeap.good_upd) (auto simp: keepsReceiver_def receiver_ok_def upd_receiver_def dest: wf_parts(2))

lemma good_SendPLI: "good w (SendPLI E r w)"
  by (simp add: SendPLI_def split: option.splits)

lemma good_LayerReceiver_Close: "good w (LayerReceiver_Close r w)"
proof (rule goodI)
  assume w: "wf w"
  have "good w (upd_receiver r (\<lambda>x. x\<lparr>lr_closed := True, lr_closeCh := ChClosed\<rparr>) w)"
    by (rule receiverHeap.good_upd) (simp_all add: keepsReceiver_def receiver_ok_def upd_receiver_def)
  with w show "wf (LayerReceiver_Close r w)" "extends w (LayerReceiver_Close r w)"
    by (simp_all add: LayerReceiver_Close_eq wf_chan_ok goodD)
qed

lemma good_SetActive: "good w (SetActive l active w)"
  unfolding SetActive_def
  by (rule layerHeap.good_upd) (auto simp: keepsLayer_def layer_ok_def upd_layer_def dest: wf_parts(3))

lemma NewLayer_ref [simp]: "fst (NewLayer name r w) = nextRef w"
  and nextRef_NewLayer [simp]: "nextRef (snd (NewLayer name r w)) = Suc (nextRef w)"
  by (simp_all add: NewLayer_def Let_def split_beta)

lemma good_NewLayer: "r < nextRef w \<Longrightarrow> good w (snd (NewLayer name r w))"
  unfolding NewLayer_def split_beta Let_def fst_fresh snd_conv
  by (rule layerHeap.good_new) (simp add: layer_ok_def upd_layer_def fresh_def)

lemma NewTrackReceiver_ref [simp]: "fst (NewTrackReceiver trackID streamID kind w) = nextRef w"
  and nextRef_NewTrackReceiver [simp]:
    "nextRef (snd (NewTrackReceiver trackID streamID kind w)) = Suc (nextRef w)"
  by (simp_all add: NewTrackReceiver_def Let_def split_beta)

lemma good_NewTrackReceiver: "good w (snd (NewTrackReceiver trackID streamID kind w))"
  unfolding NewTrackReceiver_def split_beta Let_def fst_fresh snd_conv
  by (rule trackHeap.good_new) (simp add: track_ok_def upd_track_def)

lemma good_AddLayer:
  assumes "r < nextRef w"
  shows "good w (AddLayer t name r w)"
proof (cases "tk_closed (tracks w t)")
  case False
  let ?w = "snd (NewLayer name r w)"
  have "good ?w (upd_track t (\<lambda>x. x\<lparr>tk_layers := gm_put name (nextRef w) (tk_layers x)\<rparr>) ?w)"
    by (rule trackHeap.good_upd)
       (auto simp: keepsTrack_def track_ok_def upd_track_def dest!: wf_parts(4) [where x = t] split: if_splits)
  with good_NewLayer [OF assms] False show ?thesis
    by (auto simp: AddLayer_def split_beta Let_def intro: good.frame_trans)
qed (simp add: AddLayer_def)

lemma good_TrackReceiver_AddDownTrack:
  assumes "d < nextRef w" and "dt_trackReceiver (downtracks w d) = t"
  shows "good w (TrackReceiver_AddDownTrack t d w)"
  unfolding TrackReceiver_AddDownTrack_def
  by (rule trackHeap.good_upd)
     (use assms in \<open>auto simp: keepsTrack_def track_ok_def upd_track_def dest!: wf_parts(4) [where x = t]\<close>)

lemma good_TrackReceiver_RemoveDownTrack: "good w (TrackReceiver_RemoveDownTrack t d w)"
  unfolding TrackReceiver_RemoveDownTrack_def
  by (rule trackHeap.good_upd)
     (auto simp: keepsTrack_def track_ok_def upd_track_def dest!: wf_parts(4) [where x = t]
       dest: subsetD [OF set_remove1_subset])

lemma good_TrackReceiver_Close: "good w (TrackReceiver_Close E t w)"
proof (cases "tk_closed (tracks w t)")
  case False
  show ?thesis
  proof (rule goodI)
    assume w: "wf w"
    note eq = TrackReceiver_Close_eq [OF wf_chan_ok [OF w] False, of E]
    show e: "extends w (TrackReceiver_Close E t w)"
      by (simp add: eq extends_def keepsTrack_def keepsReceiver_def)
    show "wf (TrackReceiver_Close E t w)"
      by (rule wf_step [OF w e])
         (use wf_parts(2,4) [OF w] in \<open>auto simp: eq receiver_ok_def track_ok_def split: if_splits\<close>)
  qed
qed (simp add: TrackReceiver_Close_def)

subsection \<open>Properties\<close>

text \<open>The layer that gives a track its codec and a new downtrack its start: the default
  layer when there is one; otherwise an active layer among high, mid and low above which no
  active one has a higher priority; and none exactly when there is no such layer, whatever
  layers of other names the track has.\<close>

theorem GetBestLayer_spec:
  fixes w :: world and t :: ref
  defines "L \<equiv> gm_get (tk_layers (tracks w t))"
    and "ranked \<equiv> {LayerHigh, LayerMid, LayerLow}"
  shows "(GetBestLayer w t = Some l \<longleftrightarrow>
           L LayerDefault = Some l \<or>
           L LayerDefault = None \<and>
             (\<exists>name\<in>ranked. L name = Some l \<and> IsActive w l \<and>
                (\<nexists>n m. n \<in> ranked \<and> L n = Some m \<and> IsActive w m
                       \<and> LayerPriority name < LayerPriority n)))
       \<and> (GetBestLayer w t = None \<longleftrightarrow>
           L LayerDefault = None \<and> (\<nexists>n m. n \<in> ranked \<and> L n = Some m \<and> IsActive w m))"
  unfolding L_def ranked_def
  by (auto simp: GetBestLayer_def LayerPriority_def LayerHigh_def LayerMid_def LayerLow_def
        LayerDefault_def split: option.splits if_splits)

text \<open>Closing a track closes it and exactly the receivers of its layers, without a panic,
  once: closing again, any number of times, changes nothing; and from then on a read of one
  of these receivers returns the end of the stream without touching the network.\<close>

theorem TrackReceiver_Close_spec:
  assumes "chan_ok w" and "\<not> tk_closed (tracks w t)"
  shows "TrackReceiver_Close E t w =
           w\<lparr>tracks := (tracks w)(t := (tracks w t)\<lparr>tk_closed := True, tk_closeCh := ChClosed\<rparr>),
             receivers := (\<lambda>r. if r \<in> receiversOf w t
                              then (receivers w r)\<lparr>lr_closed := True, lr_closeCh := ChClosed\<rparr>
                              else receivers w r)\<rparr>
       \<and> (TrackReceiver_Close E t ^^ Suc n) w = TrackReceiver_Close E t w
       \<and> (\<forall>r\<in>receiversOf w t. LayerReceiver_ReadRTP E r (TrackReceiver_Close E t w)
                                = (Inl ''EOF'', TrackReceiver_Close E t w))"
  using trackClose.cls_iterated [of n E t w]
  by (simp add: TrackReceiver_Close_eq [OF assms] LayerReceiver_ReadRTP_def)

text \<open>A track with one layer, made by the constructors: references 1, 2 and 3.\<close>

definition exampleTrack :: world where
  "exampleTrack =
     (let (t, w) = NewTrackReceiver ''cam'' ''stream'' ''video'' world0;
          (r, w) = NewLayerReceiver zeroTrackRemote LayerHigh w
      in AddLayer t LayerHigh r w)"

lemma exampleTrack_facts:
  "chan_ok exampleTrack" "\<not> tk_closed (tracks exampleTrack 1)"
  "receiversOf exampleTrack 1 = {2}"
  by (auto simp: exampleTrack_def track_defs upd_defs fresh_def world0_def chan_ok_def
        receiversOf_def gm_get_def gm_put_def)

lemma wf_exampleTrack: "wf exampleTrack" and nextRef_exampleTrack: "nextRef exampleTrack = 4"
proof -
  define w1 where "w1 = snd (NewTrackReceiver ''cam'' ''stream'' ''video'' world0)"
  define w2 where "w2 = snd (NewLayerReceiver zeroTrackRemote LayerHigh w1)"
  have n: "nextRef w1 = 2" "nextRef w2 = 3"
    by (simp_all add: w1_def w2_def)
  have eq: "exampleTrack = AddLayer 1 LayerHigh 2 w2"
    unfolding exampleTrack_def split_beta Let_def NewTrackReceiver_ref NewLayerReceiver_ref
    by (simp add: w1_def w2_def numeral_2_eq_2)
  have "good world0 exampleTrack"
    unfolding eq w2_def w1_def
    by (rule good.frame_trans [OF good_NewTrackReceiver],
        rule good.frame_trans [OF good_NewLayerReceiver], rule good_AddLayer) simp
  then show "wf exampleTrack"
    by (rule goodD(1)) (rule wf_world0)
  show "nextRef exampleTrack = 4"
    by (simp add: exampleTrack_def track_defs upd_defs fresh_def world0_def)
qed

theorem TrackReceiver_Close_spec_witness:
  "receiversOf exampleTrack 1 = {2}
   \<and> lr_closed (receivers (TrackReceiver_Close env0 1 exampleTrack) 2)
   \<and> \<not> lr_closed (receivers (TrackReceiver_Close env0 1 exampleTrack) 4)
   \<and> (TrackReceiver_Close env0 1 ^^ 2) exampleTrack = TrackReceiver_Close env0 1 exampleTrack"
proof -
  note spec = TrackReceiver_Close_spec [OF exampleTrack_facts(1,2), of env0 1]
  have "\<not> lr_closed (receivers exampleTrack 4)"
    by (simp add: exampleTrack_def track_defs upd_defs fresh_def world0_def)
  then show ?thesis
    using conjunct1 [OF conjunct2 [OF spec]]
    unfolding conjunct1 [OF spec] exampleTrack_facts(3) by (simp add: numeral_2_eq_2)
qed

end
