(* ===== verification/DownTrack.thy ===== *)
theory DownTrack
  imports Track "HOL-Library.Sublist"
begin

section \<open>Downtracks (\<open>downtrack.go\<close>)\<close>

text \<open>
  A downtrack sends the packets of one track to one subscriber: it chooses among the
  track's layers with a selector, switches at keyframes, falls back when its layer is gone,
  and rewrites what it sends with a sequencer.
\<close>

subsection \<open>Operations\<close>

definition requestKeyframe :: "env \<Rightarrow> ref \<Rightarrow> string \<Rightarrow> world \<Rightarrow> world" where
  "requestKeyframe E d layerName w =
     (case GetLayer w (dt_trackReceiver (downtracks w d)) layerName of
        None \<Rightarrow> w
      | Some layer \<Rightarrow> SendPLI E (ly_receiver (layers w layer)) w)"

text \<open>The layer a new downtrack starts with: mid, else the best available one, else mid.\<close>

definition initialLayer :: "world \<Rightarrow> ref \<Rightarrow> string" where
  "initialLayer w t =
     (if GetLayer w t LayerMid = None
      then (case GetBestLayer w t of Some layer \<Rightarrow> ly_name (layers w layer) | None \<Rightarrow> LayerMid)
      else LayerMid)"

text \<open>
  The local track and the RTP sender that pion returns are fresh references. The two
  goroutines are started when the downtrack is complete.
\<close>

definition NewDownTrack :: "env \<Rightarrow> ref \<Rightarrow> ref \<Rightarrow> string \<Rightarrow> world \<Rightarrow> (string + ref) \<times> world" where
  "NewDownTrack E subscriber t codec w =
     (case call E (NewTrackLocal codec (tk_trackID (tracks w t)) (tk_streamID (tracks w t))) w of
        (Some err, w) \<Rightarrow> (Inl err, w)
      | (None, w) \<Rightarrow>
         (let (track, w) = fresh w
          in case call E (AddTrackToPC (su_pc (subscribers w subscriber)) track) w of
               (Some err, w) \<Rightarrow> (Inl err, w)
             | (None, w) \<Rightarrow>
                (let (sender, w) = fresh w;
                     (d, w) = fresh w;
                     sel = OnSwitch d (NewLayerSelector (tk_trackID (tracks w t)) (initialLayer w t));
                     w = upd_dt d (\<lambda>_. \<lparr>dt_subscriber = subscriber, dt_trackReceiver = t,
                            dt_track = track, dt_sender = sender, dt_sequencer = newRTPSequencer,
                            dt_selector = sel, dt_codec = codec, dt_closed = False\<rparr>) w
                 in (Inr d, spawn (InitialKeyframe d 2) (spawn (ReadRTCP d) w)))))"

text \<open>One round of the loop of \<open>readRTCP\<close>; \<open>False\<close> is the end of the goroutine.\<close>

definition readRTCP_round :: "env \<Rightarrow> ref \<Rightarrow> world \<Rightarrow> bool \<times> world" where
  "readRTCP_round E d w =
     (if dt_closed (downtracks w d) then (False, w)
      else (case call E (ReadSenderRTCP (dt_sender (downtracks w d))) w of
              (Some err, w) \<Rightarrow> (False, w)
            | (None, w) \<Rightarrow> (True, w)))"

text \<open>Each of the two rounds of \<open>requestInitialKeyframe\<close>, run after its sleep.\<close>

definition requestInitialKeyframe_round :: "env \<Rightarrow> ref \<Rightarrow> world \<Rightarrow> world" where
  "requestInitialKeyframe_round E d w =
     (if \<not> dt_closed (downtracks w d)
      then requestKeyframe E d (GetCurrentLayer (dt_selector (downtracks w d))) w else w)"

definition DownTrack_SetTargetLayer :: "env \<Rightarrow> ref \<Rightarrow> string \<Rightarrow> world \<Rightarrow> world" where
  "DownTrack_SetTargetLayer E d layer w =
     requestKeyframe E d layer
       (upd_dt d (\<lambda>x. x\<lparr>dt_selector := SetTargetLayer layer (dt_selector x)\<rparr>) w)"

definition DownTrack_GetCurrentLayer :: "world \<Rightarrow> ref \<Rightarrow> string" where
  "DownTrack_GetCurrentLayer w d = GetCurrentLayer (dt_selector (downtracks w d))"

definition DownTrack_GetTargetLayer :: "world \<Rightarrow> ref \<Rightarrow> string" where
  "DownTrack_GetTargetLayer w d = GetTargetLayer (dt_selector (downtracks w d))"

text \<open>
  \<open>SwitchToTarget\<close> on the downtrack's own selector: it reads the clock for the cooldown and
  again for the new switch time, and starts the callbacks as goroutines.
\<close>

definition switchSelector :: "env \<Rightarrow> ref \<Rightarrow> world \<Rightarrow> world" where
  "switchSelector E d w =
     (let (now, w) = readClock E w;
          (stamp, w) = readClock E w;
          (_, sel, calls) = SwitchToTarget now stamp (dt_selector (downtracks w d));
          w = upd_dt d (\<lambda>x. x\<lparr>dt_selector := sel\<rparr>) w
      in fold (\<lambda>(cb, layer). spawn (LayerSwitched cb layer)) calls w)"

definition tryLayerSwitch :: "env \<Rightarrow> ref \<Rightarrow> rtp_packet \<Rightarrow> string \<Rightarrow> world \<Rightarrow> string \<times> world" where
  "tryLayerSwitch E d packet fromLayer w =
     (let sel = dt_selector (downtracks w d);
          current = GetCurrentLayer sel;
          target = GetTargetLayer sel
      in if \<not> NeedsSwitch sel then (current, w)
         else (let (now, w) = readClock E w
               in if \<not> CanSwitch now sel then (current, w)
                  else if \<not> IsKeyframe (Payload packet) (dt_codec (downtracks w d)) then (current, w)
                  else if fromLayer = target then (target, switchSelector E d w)
                  else (current, w)))"

definition isCurrentLayerActive :: "world \<Rightarrow> ref \<Rightarrow> string \<Rightarrow> bool" where
  "isCurrentLayerActive w d current =
     (case GetLayer w (dt_trackReceiver (downtracks w d)) current of
        None \<Rightarrow> False | Some layer \<Rightarrow> IsActive w layer)"

definition tryFallbackSwitch :: "env \<Rightarrow> ref \<Rightarrow> rtp_packet \<Rightarrow> string \<Rightarrow> world \<Rightarrow> world" where
  "tryFallbackSwitch E d packet fromLayer w =
     (if \<not> IsKeyframe (Payload packet) (dt_codec (downtracks w d)) then w
      else (let (stamp, w) = readClock E w
            in upd_dt d (\<lambda>x. x\<lparr>dt_selector := ForceSwitch stamp fromLayer (dt_selector x)\<rparr>) w))"

definition shouldForwardPacket ::
  "env \<Rightarrow> ref \<Rightarrow> rtp_packet \<Rightarrow> string \<Rightarrow> string \<Rightarrow> world \<Rightarrow> bool \<times> world" where
  "shouldForwardPacket E d packet fromLayer current w =
     (if isCurrentLayerActive w d current then (fromLayer = current, w)
      else (True, tryFallbackSwitch E d packet fromLayer w))"

definition WriteRTP :: "env \<Rightarrow> ref \<Rightarrow> rtp_packet \<Rightarrow> string \<Rightarrow> world \<Rightarrow> string option \<times> world" where
  "WriteRTP E d packet fromLayer w =
     (if dt_closed (downtracks w d) then (None, w)
      else (let (current, w) = tryLayerSwitch E d packet fromLayer w;
                (forward, w) = shouldForwardPacket E d packet fromLayer current w
            in if \<not> forward then (None, w)
               else (let ssrc = senderSSRC E (dt_sender (downtracks w d));
                         (seqr, rewritten) = Rewrite (dt_sequencer (downtracks w d)) packet ssrc;
                         w = upd_dt d (\<lambda>x. x\<lparr>dt_sequencer := seqr\<rparr>) w
                     in call E (WriteTrackRTP (dt_track (downtracks w d)) rewritten) w)))"

definition onLayerSwitch :: "env \<Rightarrow> ref \<Rightarrow> string \<Rightarrow> world \<Rightarrow> world" where
  "onLayerSwitch E d layer w = requestKeyframe E d layer w"

text \<open>The downtrack's track is never nil, and the \<open>if\<close> on the sender has an empty body.\<close>

definition DownTrack_Close :: "ref \<Rightarrow> world \<Rightarrow> world" where
  "DownTrack_Close d w =
     (if dt_closed (downtracks w d) then w
      else (let w = upd_dt d (\<lambda>x. x\<lparr>dt_closed := True\<rparr>) w
            in TrackReceiver_RemoveDownTrack (dt_trackReceiver (downtracks w d)) d w))"

lemmas downtrack_defs [go_defs] =
  requestKeyframe_def initialLayer_def NewDownTrack_def readRTCP_round_def
  requestInitialKeyframe_round_def DownTrack_SetTargetLayer_def DownTrack_GetCurrentLayer_def
  DownTrack_GetTargetLayer_def switchSelector_def tryLayerSwitch_def isCurrentLayerActive_def
  tryFallbackSwitch_def shouldForwardPacket_def WriteRTP_def onLayerSwitch_def DownTrack_Close_def

subsection \<open>What choosing a layer touches\<close>

text \<open>Choosing whether to send a packet changes the downtrack's selector, reads the clock and
  starts goroutines; nothing else.\<close>

definition selOnly :: "ref \<Rightarrow> world \<Rightarrow> world \<Rightarrow> bool" where
  "selOnly d v w \<longleftrightarrow>
     (\<exists>sel n ts. w = v\<lparr>downtracks := (downtracks v)(d := (downtracks v d)\<lparr>dt_selector := sel\<rparr>),
                      ticks := n, tasks := ts\<rparr>)"

interpretation selOnly: frame "selOnly d" for d
proof unfold_locales
  fix s :: world
  show "selOnly d s s"
    unfolding selOnly_def
    by (rule exI [of _ "dt_selector (downtracks s d)"], rule exI [of _ "ticks s"],
        rule exI [of _ "tasks s"]) simp
next
  fix s t u
  assume "selOnly d s t" and "selOnly d t u"
  then obtain sel n ts sel' n' ts'
    where "t = s\<lparr>downtracks := (downtracks s)(d := (downtracks s d)\<lparr>dt_selector := sel\<rparr>),
                  ticks := n, tasks := ts\<rparr>"
      and "u = t\<lparr>downtracks := (downtracks t)(d := (downtracks t d)\<lparr>dt_selector := sel'\<rparr>),
                  ticks := n', tasks := ts'\<rparr>"
    unfolding selOnly_def by blast
  then have "u = s\<lparr>downtracks := (downtracks s)(d := (downtracks s d)\<lparr>dt_selector := sel'\<rparr>),
                  ticks := n', tasks := ts'\<rparr>"
    by simp
  then show "selOnly d s u"
    unfolding selOnly_def by blast
qed

lemma selOnly_spawn: "selOnly d w (spawn t w)"
  unfolding selOnly_def spawn_def
  by (rule exI [of _ "dt_selector (downtracks w d)"], rule exI [of _ "ticks w"],
      rule exI [of _ "tasks w @ [t]"]) simp

lemma selOnly_readClock: "selOnly d w (snd (readClock E w))"
  unfolding selOnly_def readClock_def
  by (rule exI [of _ "dt_selector (downtracks w d)"], rule exI [of _ "Suc (ticks w)"],
      rule exI [of _ "tasks w"]) simp

lemma selOnly_upd: "selOnly d w (upd_dt d (\<lambda>x. x\<lparr>dt_selector := g (dt_selector x)\<rparr>) w)"
  unfolding selOnly_def upd_dt_def
  by (rule exI [of _ "g (dt_selector (downtracks w d))"], rule exI [of _ "ticks w"],
      rule exI [of _ "tasks w"]) simp

lemma selOnly_spawns: "selOnly d w (fold (\<lambda>(cb, layer). spawn (LayerSwitched cb layer)) calls w)"
  by (rule selOnly.frame_fold) (auto simp: selOnly_spawn split: prod.splits)

lemma selOnly_switchSelector: "selOnly d w (switchSelector E d w)"
proof -
  let ?w = "snd (readClock E (snd (readClock E w)))"
  have 1: "selOnly d w ?w"
    by (rule selOnly.frame_trans [OF selOnly_readClock selOnly_readClock])
  have "selOnly d ?w (switchSelector E d w)"
    unfolding switchSelector_def
    by (auto simp: split_beta Let_def
          intro!: selOnly.frame_trans [OF selOnly_upd [of d ?w "\<lambda>_. s" for s] selOnly_spawns])
  with 1 show ?thesis by (rule selOnly.frame_trans)
qed

lemma selOnly_facts:
  assumes "selOnly d v w"
  shows "hist w = hist v" "tracks w = tracks v" "layers w = layers v"
    and "receivers w = receivers v" "subscribers w = subscribers v"
    and "dt_closed (downtracks w d) = dt_closed (downtracks v d)"
    and "dt_sequencer (downtracks w d) = dt_sequencer (downtracks v d)"
    and "dt_track (downtracks w d) = dt_track (downtracks v d)"
    and "dt_sender (downtracks w d) = dt_sender (downtracks v d)"
    and "dt_codec (downtracks w d) = dt_codec (downtracks v d)"
    and "dt_trackReceiver (downtracks w d) = dt_trackReceiver (downtracks v d)"
    and "x \<noteq> d \<Longrightarrow> downtracks w x = downtracks v x"
  using assms by (auto simp: selOnly_def)

text \<open>One attempt to switch, by cases.\<close>

lemma tryLayerSwitch_eq:
  "tryLayerSwitch E d packet fromLayer w =
     (let sel = dt_selector (downtracks w d); w1 = snd (readClock E w)
      in if NeedsSwitch sel
         then (if CanSwitch (clock E (ticks w)) sel
                  \<and> IsKeyframe (Payload packet) (dt_codec (downtracks w d))
                  \<and> fromLayer = GetTargetLayer sel
               then (GetTargetLayer sel, switchSelector E d w1)
               else (GetCurrentLayer sel, w1))
         else (GetCurrentLayer sel, w))"
  by (auto simp: tryLayerSwitch_def Let_def readClock_def)

lemma selOnly_tryLayerSwitch: "selOnly d w (snd (tryLayerSwitch E d packet fromLayer w))"
  using selOnly.frame_trans [OF selOnly_readClock selOnly_switchSelector, of d w E E]
  by (auto simp: tryLayerSwitch_eq Let_def selOnly_readClock selOnly.frame_refl)

lemma selOnly_tryFallbackSwitch: "selOnly d w (tryFallbackSwitch E d packet fromLayer w)"
  using selOnly.frame_trans [OF selOnly_readClock [of d w E]
          selOnly_upd [of d _ "ForceSwitch (fst (readClock E w)) fromLayer"]]
  by (auto simp: tryFallbackSwitch_def split_beta Let_def selOnly.frame_refl)

lemma selOnly_shouldForwardPacket:
  "selOnly d w (snd (shouldForwardPacket E d packet fromLayer current w))"
  by (simp add: shouldForwardPacket_def selOnly.frame_refl selOnly_tryFallbackSwitch)

lemma sel_spawns [simp]:
  "downtracks (fold (\<lambda>(cb, layer). spawn (LayerSwitched cb layer)) calls w) = downtracks w"
  by (rule same_fold) (auto simp: spawn_def split: prod.splits)

lemma switchSelector_selector:
  "dt_selector (downtracks (switchSelector E d w) d) =
     fst (snd (SwitchToTarget (clock E (ticks w)) (clock E (Suc (ticks w)))
                 (dt_selector (downtracks w d))))"
  by (simp add: switchSelector_def split_beta Let_def upd_dt_def readClock_def)

lemma SwitchToTarget_succeeds:
  assumes "NeedsSwitch sel" and "CanSwitch now sel"
  shows "GetCurrentLayer (fst (snd (SwitchToTarget now stamp sel))) = GetTargetLayer sel"
    and "GetTargetLayer (fst (snd (SwitchToTarget now stamp sel))) = GetTargetLayer sel"
  using assms by (auto simp: selector_defs)

lemma CanSwitch_mono: "CanSwitch now sel \<Longrightarrow> now \<le> later \<Longrightarrow> CanSwitch later sel"
  by (auto simp: CanSwitch_def timeSub_def)

subsection \<open>The layers a downtrack sends, abstractly\<close>

text \<open>
  The contract of a downtrack on the pair of the layer it sends and the layer it should
  send. A keyframe of the wanted layer switches to it once the cooldown is over. Otherwise
  a downtrack whose layer is active sends exactly that layer; one whose layer is missing or
  inactive sends every packet it gets, and settles on the layer of the next keyframe.
\<close>

type_synonym view = "string \<times> string"

definition viewOf :: "world \<Rightarrow> ref \<Rightarrow> view" where
  "viewOf w d = (DownTrack_GetCurrentLayer w d, DownTrack_GetTargetLayer w d)"

fun viewStep :: "(string \<Rightarrow> bool) \<Rightarrow> bool \<Rightarrow> bool \<Rightarrow> string \<Rightarrow> view \<Rightarrow> bool \<times> view" where
  "viewStep active cooled key layer (cur, tgt) =
     (if cur \<noteq> tgt \<and> cooled \<and> key \<and> layer = tgt then (True, (tgt, tgt))
      else if active cur then (layer = cur, (cur, tgt))
      else (True, if key then (layer, layer) else (cur, tgt)))"

definition monoClock :: "env \<Rightarrow> bool" where
  "monoClock E \<longleftrightarrow> mono (clock E)"

lemma isCurrentLayerActive_frame:
  "selOnly d v w \<Longrightarrow> isCurrentLayerActive w d l = isCurrentLayerActive v d l"
  by (simp add: isCurrentLayerActive_def GetLayer_def IsActive_def selOnly_facts
           split: option.splits)

lemma tryLayerSwitch_view:
  fixes w :: world and E :: env and d :: ref and packet :: rtp_packet and fromLayer :: string
  assumes inv: "sel_inv (dt_selector (downtracks w d))" and mono: "monoClock E"
  defines "r \<equiv> tryLayerSwitch E d packet fromLayer w"
    and "key \<equiv> IsKeyframe (Payload packet) (dt_codec (downtracks w d))"
    and "cooled \<equiv> CanSwitch (clock E (ticks w)) (dt_selector (downtracks w d))"
  shows "fst r = fst (viewOf (snd r) d)"
    and "sel_inv (dt_selector (downtracks (snd r) d))"
    and "viewOf (snd r) d =
           (if fst (viewOf w d) \<noteq> snd (viewOf w d) \<and> cooled \<and> key \<and> fromLayer = snd (viewOf w d)
            then (fromLayer, fromLayer) else viewOf w d)"
proof -
  let ?sel = "dt_selector (downtracks w d)"
  have needs: "NeedsSwitch ?sel \<longleftrightarrow> GetCurrentLayer ?sel \<noteq> GetTargetLayer ?sel"
    by (rule selsw.needs_iff [OF inv])
  have later: "CanSwitch (clock E (Suc (ticks w))) ?sel" if cooled
    using that mono unfolding cooled_def
    by (rule_tac CanSwitch_mono) (auto simp: monoClock_def mono_def)
  have ok: "sel_inv (fst (snd (SwitchToTarget now stamp ?sel)))" for now stamp
    using selsw.inv_switch [OF inv, of "(now, stamp)"] by simp
  have w1: "dt_selector (downtracks (snd (readClock E w)) d) = ?sel"
       "ticks (snd (readClock E w)) = Suc (ticks w)"
    by (simp_all add: readClock_def)
  note switched = switchSelector_selector [of E d "snd (readClock E w)", unfolded w1]
  show "sel_inv (dt_selector (downtracks (snd r) d))"
    unfolding r_def tryLayerSwitch_eq by (simp add: Let_def switched ok inv w1)
  show "viewOf (snd r) d =
           (if fst (viewOf w d) \<noteq> snd (viewOf w d) \<and> cooled \<and> key \<and> fromLayer = snd (viewOf w d)
            then (fromLayer, fromLayer) else viewOf w d)"
    using SwitchToTarget_succeeds [OF _ later] needs
    unfolding r_def tryLayerSwitch_eq key_def cooled_def
    by (auto simp: Let_def viewOf_def DownTrack_GetCurrentLayer_def DownTrack_GetTargetLayer_def
          switched w1)
  show "fst r = fst (viewOf (snd r) d)"
    using SwitchToTarget_succeeds [OF _ later] needs
    unfolding r_def tryLayerSwitch_eq cooled_def
    by (auto simp: Let_def viewOf_def DownTrack_GetCurrentLayer_def switched w1)
qed

lemma tryFallbackSwitch_view:
  fixes w :: world and E :: env and d :: ref and packet :: rtp_packet and fromLayer :: string
  assumes "sel_inv (dt_selector (downtracks w d))"
  defines "w' \<equiv> tryFallbackSwitch E d packet fromLayer w"
  shows "sel_inv (dt_selector (downtracks w' d))"
    and "viewOf w' d = (if IsKeyframe (Payload packet) (dt_codec (downtracks w d))
                        then (fromLayer, fromLayer) else viewOf w d)"
  using assms(1) selsw.inv_force [OF assms(1)]
  unfolding w'_def
  by (auto simp: tryFallbackSwitch_def split_beta Let_def readClock_def upd_dt_def viewOf_def
        DownTrack_GetCurrentLayer_def DownTrack_GetTargetLayer_def selsw.force_cur selsw.force_tgt)

subsection \<open>One packet\<close>

lemma WriteRTP_open:
  fixes E :: env and d :: ref and packet :: rtp_packet and fromLayer :: string and w :: world
  assumes "\<not> dt_closed (downtracks w d)"
  defines "r1 \<equiv> tryLayerSwitch E d packet fromLayer w"
  defines "r2 \<equiv> shouldForwardPacket E d packet fromLayer (fst r1) (snd r1)"
  defines "rw \<equiv> Rewrite (dt_sequencer (downtracks w d)) packet (senderSSRC E (dt_sender (downtracks w d)))"
  shows "selOnly d w (snd r2)"
    and "WriteRTP E d packet fromLayer w =
           (if fst r2
            then call E (WriteTrackRTP (dt_track (downtracks w d)) (snd rw))
                   (upd_dt d (\<lambda>x. x\<lparr>dt_sequencer := fst rw\<rparr>) (snd r2))
            else (None, snd r2))"
proof -
  show so: "selOnly d w (snd r2)"
    unfolding r1_def r2_def
    by (rule selOnly.frame_trans [OF selOnly_tryLayerSwitch selOnly_shouldForwardPacket])
  show "WriteRTP E d packet fromLayer w =
           (if fst r2
            then call E (WriteTrackRTP (dt_track (downtracks w d)) (snd rw))
                   (upd_dt d (\<lambda>x. x\<lparr>dt_sequencer := fst rw\<rparr>) (snd r2))
            else (None, snd r2))"
    using assms(1) selOnly_facts [OF so]
    unfolding WriteRTP_def r1_def r2_def rw_def by (simp add: split_beta Let_def upd_dt_def)
qed

lemma WriteRTP_closed [simp]:
  "dt_closed (downtracks w d) \<Longrightarrow> WriteRTP E d packet fromLayer w = (None, w)"
  by (simp add: WriteRTP_def)

lemma downtracks_call [simp]: "downtracks (snd (call E e w)) = downtracks w"
  by (simp add: call_def Let_def)

lemma hist_call [simp]: "hist (snd (call E e w)) = hist w @ [(e, fst (call E e w))]"
  by (simp add: call_def Let_def)

lemma fst_call [simp]: "fst (call E e w) = callErr E (hist w) e"
  by (simp add: call_def Let_def)

subsection \<open>The stream of a downtrack\<close>

text \<open>
  What happens to a downtrack while it lives: packets of all layers of its track, new
  target layers, layers that go up and down, and its two keyframe requests.
\<close>

datatype dt_event =
    Packet rtp_packet string
  | Target string
  | Activate ref bool
  | InitialRequest

fun dtStep :: "env \<Rightarrow> ref \<Rightarrow> world \<Rightarrow> dt_event \<Rightarrow> world" where
  "dtStep E d w (Packet p layer) = snd (WriteRTP E d p layer w)"
| "dtStep E d w (Target layer) = DownTrack_SetTargetLayer E d layer w"
| "dtStep E d w (Activate l active) = SetActive l active w"
| "dtStep E d w InitialRequest = requestInitialKeyframe_round E d w"

fun packetsIn :: "dt_event list \<Rightarrow> rtp_packet list" where
  "packetsIn [] = []"
| "packetsIn (Packet p layer # es) = p # packetsIn es"
| "packetsIn (_ # es) = packetsIn es"

text \<open>The packets handed to a local track, accepted or not.\<close>

fun attempt :: "ref \<Rightarrow> effect \<times> string option \<Rightarrow> rtp_packet option" where
  "attempt t (WriteTrackRTP t' p, err) = (if t' = t then Some p else None)"
| "attempt t _ = None"

definition attemptsOn :: "ref \<Rightarrow> history \<Rightarrow> rtp_packet list" where
  "attemptsOn t h = List.map_filter (attempt t) h"

lemma attemptsOn_append [simp]: "attemptsOn t (h @ h') = attemptsOn t h @ attemptsOn t h'"
  by (simp add: attemptsOn_def List.map_filter_def)

lemma attemptsOn_Nil [simp]: "attemptsOn t [] = []"
  by (simp add: attemptsOn_def List.map_filter_def)

lemma attemptsOn_one [simp]:
  "attemptsOn t [x] = (case attempt t x of None \<Rightarrow> [] | Some p \<Rightarrow> [p])"
  by (simp add: attemptsOn_def List.map_filter_def split: option.splits)

lemma SendPLI_frame [simp]:
  "downtracks (SendPLI E r w) = downtracks w"
  "attemptsOn t (hist (SendPLI E r w)) = attemptsOn t (hist w)"
  by (simp_all add: SendPLI_def call_def Let_def split: option.splits)

lemma requestKeyframe_frame [simp]:
  "downtracks (requestKeyframe E d l w) = downtracks w"
  "attemptsOn t (hist (requestKeyframe E d l w)) = attemptsOn t (hist w)"
  by (simp_all add: requestKeyframe_def split: option.splits)

text \<open>The parts of a downtrack its stream depends on.\<close>

definition fixedOf :: "world \<Rightarrow> ref \<Rightarrow> ref \<times> ref \<times> bool" where
  "fixedOf w d = (dt_track (downtracks w d), dt_sender (downtracks w d), dt_closed (downtracks w d))"

lemma dtStep_silent:
  assumes "\<nexists>p layer. e = Packet p layer"
  shows "fixedOf (dtStep E d w e) d = fixedOf w d"
    and "dt_sequencer (downtracks (dtStep E d w e) d) = dt_sequencer (downtracks w d)"
    and "attemptsOn t (hist (dtStep E d w e)) = attemptsOn t (hist w)"
  using assms
  by (cases e; simp add: DownTrack_SetTargetLayer_def requestInitialKeyframe_round_def
        SetActive_def fixedOf_def upd_dt_def upd_layer_def)+

lemma dtStep_packet:
  fixes E :: env and d :: ref and p :: rtp_packet and layer :: string and w :: world
  defines "w' \<equiv> dtStep E d w (Packet p layer)" and "t \<equiv> dt_track (downtracks w d)"
    and "rw \<equiv> Rewrite (dt_sequencer (downtracks w d)) p (senderSSRC E (dt_sender (downtracks w d)))"
  shows "fixedOf w' d = fixedOf w d"
    and "dt_sequencer (downtracks w' d) = dt_sequencer (downtracks w d)
           \<and> attemptsOn t (hist w') = attemptsOn t (hist w)
       \<or> \<not> dt_closed (downtracks w d) \<and> dt_sequencer (downtracks w' d) = fst rw
           \<and> attemptsOn t (hist w') = attemptsOn t (hist w) @ [snd rw]"
proof -
  have "fixedOf w' d = fixedOf w d \<and> (dt_sequencer (downtracks w' d) = dt_sequencer (downtracks w d)
           \<and> attemptsOn t (hist w') = attemptsOn t (hist w)
       \<or> \<not> dt_closed (downtracks w d) \<and> dt_sequencer (downtracks w' d) = fst rw
           \<and> attemptsOn t (hist w') = attemptsOn t (hist w) @ [snd rw])"
  proof (cases "dt_closed (downtracks w d)")
    case False
    note W = WriteRTP_open [OF False, where E = E and packet = p and fromLayer = layer]
    show ?thesis
      using selOnly_facts [OF W(1)] False
      unfolding w'_def t_def rw_def fixedOf_def dtStep.simps W(2) by (auto simp: upd_dt_def)
  qed (simp add: w'_def fixedOf_def)
  then show "fixedOf w' d = fixedOf w d"
    and "dt_sequencer (downtracks w' d) = dt_sequencer (downtracks w d)
           \<and> attemptsOn t (hist w') = attemptsOn t (hist w)
       \<or> \<not> dt_closed (downtracks w d) \<and> dt_sequencer (downtracks w' d) = fst rw
           \<and> attemptsOn t (hist w') = attemptsOn t (hist w) @ [snd rw]"
    by blast+
qed

lemma dtStep_one:
  fixes E :: env and d :: ref and e :: dt_event and w :: world
  defines "w' \<equiv> dtStep E d w e" and "t \<equiv> dt_track (downtracks w d)"
    and "rw \<equiv> \<lambda>p. Rewrite (dt_sequencer (downtracks w d)) p (senderSSRC E (dt_sender (downtracks w d)))"
  shows "fixedOf w' d = fixedOf w d"
    and "dt_sequencer (downtracks w' d) = dt_sequencer (downtracks w d)
           \<and> attemptsOn t (hist w') = attemptsOn t (hist w)
       \<or> (\<exists>p layer. e = Packet p layer \<and> dt_sequencer (downtracks w' d) = fst (rw p)
           \<and> attemptsOn t (hist w') = attemptsOn t (hist w) @ [snd (rw p)])"
  using dtStep_silent [where e = e and E = E and d = d and w = w] dtStep_packet [where E = E and d = d and w = w]
  unfolding w'_def t_def rw_def by (cases e; auto)+

lemma dtStep_closed:
  assumes "dt_closed (downtracks w d)"
  shows "dt_closed (downtracks (dtStep E d w e) d)"
    and "attemptsOn t (hist (dtStep E d w e)) = attemptsOn t (hist w)"
  using assms
  by (cases e; simp add: DownTrack_SetTargetLayer_def requestInitialKeyframe_round_def
        SetActive_def upd_dt_def upd_layer_def)+

lemma run_closed:
  "dt_closed (downtracks w d) \<Longrightarrow>
   attemptsOn t (hist (run (dtStep E d) w es)) = attemptsOn t (hist w)"
  by (induction es arbitrary: w) (simp_all add: dtStep_closed)

subsection \<open>Well-formedness\<close>

lemma selector_keeps:
  assumes "sel_inv sel"
  shows "sel_inv (SetTargetLayer l sel)" "onSwitch (SetTargetLayer l sel) = onSwitch sel"
    and "sel_inv (ForceSwitch stamp l sel)" "onSwitch (ForceSwitch stamp l sel) = onSwitch sel"
    and "sel_inv (fst (snd (SwitchToTarget now stamp sel)))"
    and "onSwitch (fst (snd (SwitchToTarget now stamp sel))) = onSwitch sel"
    and "(cb, x) \<in> set (snd (snd (SwitchToTarget now stamp sel))) \<Longrightarrow> onSwitch sel = Some cb"
  using assms by (auto simp: sel_inv_def selector_defs split: option.splits if_splits)

lemma good_upd_selector:
  assumes "\<And>sel. sel_inv sel \<Longrightarrow> sel_inv (g sel) \<and> onSwitch (g sel) = onSwitch sel"
  shows "good w (upd_dt d (\<lambda>x. x\<lparr>dt_selector := g (dt_selector x)\<rparr>) w)"
  by (rule dtHeap.good_upd)
     (use assms in \<open>auto simp: keepsDownTrack_def downtrack_ok_def upd_dt_def dest!: wf_parts(5) [where x = d]\<close>)

lemma good_requestKeyframe: "good w (requestKeyframe E d layer w)"
  by (simp add: requestKeyframe_def good_SendPLI split: option.splits)

lemma good_requestInitialKeyframe_round: "good w (requestInitialKeyframe_round E d w)"
  by (simp add: requestInitialKeyframe_round_def good_requestKeyframe)

lemma good_readRTCP_round: "good w (snd (readRTCP_round E d w))"
  by (simp add: readRTCP_round_def split_beta split: option.splits)

lemma good_SetTargetLayer: "good w (DownTrack_SetTargetLayer E d layer w)"
  unfolding DownTrack_SetTargetLayer_def
  by (rule good.frame_trans [OF good_upd_selector good_requestKeyframe])
     (simp add: selector_keeps)

lemma good_switchSelector: "good w (switchSelector E d w)"
proof -
  define w2 where "w2 = snd (readClock E (snd (readClock E w)))"
  define r where "r = SwitchToTarget (fst (readClock E w)) (fst (readClock E (snd (readClock E w))))
                        (dt_selector (downtracks w2 d))"
  define w3 where "w3 = upd_dt d (\<lambda>x. x\<lparr>dt_selector := fst (snd r)\<rparr>) w2"
  have eq: "switchSelector E d w = fold (\<lambda>(cb, layer). spawn (LayerSwitched cb layer)) (snd (snd r)) w3"
    unfolding w3_def r_def w2_def switchSelector_def by (simp add: split_beta Let_def)
  have w2: "good w w2"
    unfolding w2_def by (rule good.frame_trans [OF good_world(2) good_world(2)])
  have w3: "good w2 w3"
    unfolding w3_def
    by (rule dtHeap.good_upd)
       (auto simp: keepsDownTrack_def downtrack_ok_def upd_dt_def r_def selector_keeps
          dest!: wf_parts(5) [where x = d])
  show ?thesis
    unfolding eq
  proof (rule good_then [OF w2], rule good_then [OF w3], rule good_fold)
    fix c t assume "wf w2" and c: "c \<in> set (snd (snd r))" and "extends w3 t"
    then have "nextRef w2 \<le> nextRef t"
      by (simp add: w3_def extends_def)
    moreover have "fst c < nextRef w2"
      using wf_parts(5) [OF \<open>wf w2\<close>, of d] selector_keeps(7) [of _ "fst c" "snd c"] c
      by (auto simp: downtrack_ok_def r_def)
    ultimately show "good t ((case c of (cb, layer) \<Rightarrow> spawn (LayerSwitched cb layer)) t)"
      by (auto intro: good_spawn split: prod.splits)
  qed
qed

lemma good_tryLayerSwitch: "good w (snd (tryLayerSwitch E d packet fromLayer w))"
  by (auto simp: tryLayerSwitch_eq Let_def intro: good.frame_trans [OF good_world(2) good_switchSelector])

lemma good_tryFallbackSwitch: "good w (tryFallbackSwitch E d packet fromLayer w)"
  unfolding tryFallbackSwitch_def split_beta Let_def
  by (auto intro!: good.frame_trans [OF good_world(2) good_upd_selector] simp: selector_keeps)

lemma good_shouldForwardPacket:
  "good w (snd (shouldForwardPacket E d packet fromLayer current w))"
  by (simp add: shouldForwardPacket_def good_tryFallbackSwitch)

lemma good_WriteRTP: "good w (snd (WriteRTP E d packet fromLayer w))"
proof (cases "dt_closed (downtracks w d)")
  case False
  define r2 where "r2 = shouldForwardPacket E d packet fromLayer
    (fst (tryLayerSwitch E d packet fromLayer w)) (snd (tryLayerSwitch E d packet fromLayer w))"
  note W = WriteRTP_open(2) [OF False, of E packet fromLayer, folded r2_def]
  have 1: "good w (snd r2)"
    unfolding r2_def by (rule good.frame_trans [OF good_tryLayerSwitch good_shouldForwardPacket])
  have 2: "good v (upd_dt d (\<lambda>x. x\<lparr>dt_sequencer := q\<rparr>) v)" for v q
    by (rule dtHeap.good_upd)
       (auto simp: keepsDownTrack_def downtrack_ok_def upd_dt_def dest!: wf_parts(5) [where x = d])
  show ?thesis
    unfolding W using 1 good.frame_trans [OF 1 good.frame_trans [OF 2 good_world(1)]] by simp
qed simp

lemma good_DownTrack_Close: "good w (DownTrack_Close d w)"
proof (cases "dt_closed (downtracks w d)")
  case False
  have "good w (upd_dt d (\<lambda>x. x\<lparr>dt_closed := True\<rparr>) w)"
    by (rule dtHeap.good_upd)
       (auto simp: keepsDownTrack_def downtrack_ok_def upd_dt_def dest!: wf_parts(5) [where x = d])
  with False show ?thesis
    by (auto simp: DownTrack_Close_def Let_def intro: good.frame_trans good_TrackReceiver_RemoveDownTrack)
qed (simp add: DownTrack_Close_def)

text \<open>What a caller of the constructor may rely on.\<close>

lemma NewDownTrack_result:
  assumes "NewDownTrack E s t codec w = (r, w')"
  shows "subscribers w' = subscribers w" and "tracks w' = tracks w"
    and "layers w' = layers w" and "receivers w' = receivers w"
    and "forwarders w' = forwarders w" and "routers w' = routers w"
    and "r = Inr d \<Longrightarrow> nextRef w \<le> d \<and> d < nextRef w'
           \<and> dt_subscriber (downtracks w' d) = s \<and> dt_trackReceiver (downtracks w' d) = t
           \<and> \<not> dt_closed (downtracks w' d)"
  using assms
  by (auto simp: NewDownTrack_def Let_def split_beta upd_dt_def fresh_def spawn_def call_def
      split: option.splits)

lemma good_NewDownTrack:
  assumes "s < nextRef w" and "t < nextRef w"
  shows "good w (snd (NewDownTrack E s t codec w))"
proof -
  define w1 where "w1 = snd (call E (NewTrackLocal codec (tk_trackID (tracks w t)) (tk_streamID (tracks w t))) w)"
  define w2 where "w2 = snd (call E (AddTrackToPC (su_pc (subscribers (snd (fresh w1)) s)) (nextRef w1)) (snd (fresh w1)))"
  define w3 where "w3 = snd (fresh w2)"
  have 1: "good w w1" by (simp add: w1_def)
  have 2: "good w w2"
    unfolding w2_def by (rule good.frame_trans [OF 1 good.frame_trans [OF good_world(3) good_world(1)]]) simp
  have 3: "good w w3"
    unfolding w3_def by (rule good.frame_trans [OF 2 good_world(3)])
  have n: "nextRef w3 = nextRef w + 2" "nextRef w2 = nextRef w + 1"
    by (simp_all add: w3_def w2_def w1_def)
  have sel: "sel_inv (OnSwitch cb (NewLayerSelector x y))"
    "onSwitch (OnSwitch cb (NewLayerSelector x y)) = Some cb" for cb :: ref and x y
    using sel_inv_New [of x y] by (simp_all add: sel_inv_def selector_defs)
  have 4: "good w3 (upd_dt (nextRef w3) (\<lambda>_. \<lparr>dt_subscriber = s, dt_trackReceiver = t,
             dt_track = tr, dt_sender = se, dt_sequencer = newRTPSequencer,
             dt_selector = OnSwitch (nextRef w3) (NewLayerSelector x y), dt_codec = codec,
             dt_closed = False\<rparr>) (snd (fresh w3)))" for tr se x y
    by (rule dtHeap.good_new)
       (use assms in \<open>simp add: downtrack_ok_def upd_dt_def sel n\<close>)
  have 5: "good v (spawn (InitialKeyframe d 2) (spawn (ReadRTCP d) v))" if "d < nextRef v" for d v
    by (rule good.frame_trans [OF good_spawn good_spawn]) (simp_all add: that)
  show ?thesis
    unfolding NewDownTrack_def split_beta Let_def
    using 1 2 good.frame_trans [OF 3 good.frame_trans [OF 4 5]]
    by (auto simp: w1_def [symmetric] w2_def [symmetric] w3_def [symmetric] split: option.splits)
qed

text \<open>The step of an open downtrack, stated as the contract below and used by the forwarder.\<close>

lemma WriteRTP_view:
  fixes w :: world and E :: env and d :: ref and packet :: rtp_packet and fromLayer :: string
  assumes inv: "sel_inv (dt_selector (downtracks w d))" and mono: "monoClock E"
    and opn: "\<not> dt_closed (downtracks w d)"
  defines "w' \<equiv> snd (WriteRTP E d packet fromLayer w)"
    and "step \<equiv> viewStep (isCurrentLayerActive w d)
                  (CanSwitch (clock E (ticks w)) (dt_selector (downtracks w d)))
                  (IsKeyframe (Payload packet) (dt_codec (downtracks w d)))
                  fromLayer (viewOf w d)"
    and "rw \<equiv> Rewrite (dt_sequencer (downtracks w d)) packet (senderSSRC E (dt_sender (downtracks w d)))"
  defines "write \<equiv> WriteTrackRTP (dt_track (downtracks w d)) (snd rw)"
  shows "viewOf w' d = snd step \<and> sel_inv (dt_selector (downtracks w' d))
    \<and> (if fst step
       then fst (WriteRTP E d packet fromLayer w) = callErr E (hist w) write
            \<and> hist w' = hist w @ [(write, callErr E (hist w) write)]
            \<and> dt_sequencer (downtracks w' d) = fst rw
       else fst (WriteRTP E d packet fromLayer w) = None \<and> hist w' = hist w
            \<and> dt_sequencer (downtracks w' d) = dt_sequencer (downtracks w d))"
proof -
  define r1 where "r1 = tryLayerSwitch E d packet fromLayer w"
  define r2 where "r2 = shouldForwardPacket E d packet fromLayer (fst r1) (snd r1)"
  note W = WriteRTP_open [OF opn, of E packet fromLayer, folded r1_def, folded r2_def rw_def]
  have s1: "selOnly d w (snd r1)" unfolding r1_def by (rule selOnly_tryLayerSwitch)
  note T = tryLayerSwitch_view [OF inv mono, of packet fromLayer, folded r1_def]
  note F = tryFallbackSwitch_view [OF T(2), of E packet fromLayer]
  obtain cur tgt where v: "viewOf w d = (cur, tgt)" by (cases "viewOf w d")
  have act: "isCurrentLayerActive (snd r1) d = isCurrentLayerActive w d"
    using isCurrentLayerActive_frame [OF s1] by (simp add: fun_eq_iff)
  have r2v: "fst r2 = fst step \<and> viewOf (snd r2) d = snd step \<and> sel_inv (dt_selector (downtracks (snd r2) d))"
    using T F selOnly_facts [OF s1] unfolding r2_def shouldForwardPacket_def step_def act
    by (auto simp: v split: if_splits)
  have view: "viewOf w' d = viewOf (snd r2) d \<and> dt_selector (downtracks w' d) = dt_selector (downtracks (snd r2) d)"
    unfolding w'_def W(2)
    by (auto simp: viewOf_def DownTrack_GetCurrentLayer_def DownTrack_GetTargetLayer_def upd_dt_def)
  show ?thesis
    using r2v view selOnly_facts [OF W(1)] unfolding w'_def W(2) write_def
    by (auto simp: upd_dt_def)
qed

subsection \<open>Properties\<close>

text \<open>C1: A downtrack implements its contract. For every packet given to an open downtrack
  whose selector is well formed, with a clock that does not run backwards: the layer sent and
  the layer wanted change as \<open>viewStep\<close> says, and the packet is handed to the local track,
  rewritten, exactly when \<open>viewStep\<close> says so; the write's outcome is what is returned. So a
  layer changes only at a keyframe of the new layer, a wanted switch happens at the first
  keyframe after the cooldown, and a packet of another layer than the current one is sent
  only when the current one is missing or inactive.\<close>

theorem WriteRTP_refines:
  fixes w :: world and E :: env and d :: ref and packet :: rtp_packet and fromLayer :: string
  assumes inv: "sel_inv (dt_selector (downtracks w d))" and mono: "monoClock E"
    and opn: "\<not> dt_closed (downtracks w d)"
  defines "w' \<equiv> snd (WriteRTP E d packet fromLayer w)"
    and "step \<equiv> viewStep (isCurrentLayerActive w d)
                  (CanSwitch (clock E (ticks w)) (dt_selector (downtracks w d)))
                  (IsKeyframe (Payload packet) (dt_codec (downtracks w d)))
                  fromLayer (viewOf w d)"
    and "rw \<equiv> Rewrite (dt_sequencer (downtracks w d)) packet (senderSSRC E (dt_sender (downtracks w d)))"
  defines "write \<equiv> WriteTrackRTP (dt_track (downtracks w d)) (snd rw)"
  shows "viewOf w' d = snd step \<and> sel_inv (dt_selector (downtracks w' d))
    \<and> (if fst step
       then fst (WriteRTP E d packet fromLayer w) = callErr E (hist w) write
            \<and> hist w' = hist w @ [(write, callErr E (hist w) write)]
            \<and> dt_sequencer (downtracks w' d) = fst rw
       else fst (WriteRTP E d packet fromLayer w) = None \<and> hist w' = hist w
            \<and> dt_sequencer (downtracks w' d) = dt_sequencer (downtracks w d))"
  unfolding w'_def step_def write_def rw_def by (rule WriteRTP_view [OF inv mono opn])

text \<open>A downtrack for the example track, made by its constructor (reference 6), which is asked
  for a layer the track does not have.\<close>

definition exampleDown :: world where
  "exampleDown =
     DownTrack_SetTargetLayer env0 6 LayerLow (snd (NewDownTrack env0 0 1 ''video/VP8'' exampleTrack))"

definition examplePacket :: rtp_packet where
  "examplePacket = \<lparr>SequenceNumber = 100, Timestamp = 9000, SSRC = 1, Payload = [0x10]\<rparr>"

lemma exampleDown_facts:
  "dt_selector (downtracks exampleDown 6) =
     SetTargetLayer LayerLow (OnSwitch 6 (NewLayerSelector ''cam'' LayerHigh))"
  "dt_closed (downtracks exampleDown 6) = False" "dt_codec (downtracks exampleDown 6) = ''video/VP8''"
  "dt_track (downtracks exampleDown 6) = 4" "dt_sequencer (downtracks exampleDown 6) = newRTPSequencer"
  "dt_sender (downtracks exampleDown 6) = 5" "isCurrentLayerActive exampleDown 6 LayerHigh"
  by (simp_all add: exampleDown_def exampleTrack_def track_defs downtrack_defs upd_defs world_defs
        world0_def gm_get_def gm_put_def LayerMid_def LayerLow_def LayerHigh_def LayerDefault_def
        env0_def GetBestLayer_def zeroTrackRemote_def LayerReceiver_SSRC_def Let_def eval_nat_numeral)

lemma wf_exampleDown: "wf exampleDown"
proof -
  have "good exampleTrack exampleDown"
    unfolding exampleDown_def
    by (rule good.frame_trans [OF good_NewDownTrack good_SetTargetLayer])
       (simp_all add: nextRef_exampleTrack)
  then show ?thesis
    using wf_exampleTrack by (rule goodD(1))
qed

lemma monoClock_env0: "monoClock env0"
  by (simp add: monoClock_def mono_def env0_def second_def)

theorem WriteRTP_refines_witness:
  "viewOf (snd (WriteRTP env0 6 examplePacket LayerHigh exampleDown)) 6 = (LayerHigh, LayerLow)
   \<and> attemptsOn 4 (hist (snd (WriteRTP env0 6 examplePacket LayerHigh exampleDown)))
      = attemptsOn 4 (hist exampleDown) @ [examplePacket\<lparr>SequenceNumber := 101, Timestamp := 9001, SSRC := 5\<rparr>]"
proof -
  have inv: "sel_inv (dt_selector (downtracks exampleDown 6))"
    unfolding exampleDown_facts
    by (simp add: sel_inv_def selector_defs)
  have v: "viewOf exampleDown 6 = (LayerHigh, LayerLow)"
    by (simp add: viewOf_def DownTrack_GetCurrentLayer_def DownTrack_GetTargetLayer_def
         exampleDown_facts selector_defs LayerHigh_def LayerLow_def)
  have opn: "\<not> dt_closed (downtracks exampleDown 6)"
    by (simp add: exampleDown_facts)
  have rw: "snd (Rewrite newRTPSequencer examplePacket (senderSSRC env0 5)) = examplePacket\<lparr>SequenceNumber := 101, Timestamp := 9001, SSRC := 5\<rparr>"
    by (simp add: Rewrite_def newRTPSequencer_def examplePacket_def env0_def)
  have "LayerHigh \<noteq> LayerLow"
    by (simp add: LayerHigh_def LayerLow_def)
  then show ?thesis
    using WriteRTP_refines [OF inv monoClock_env0 opn, of examplePacket LayerHigh]
    by (simp add: v exampleDown_facts rw)
qed

text \<open>C28: What a subscriber receives is one stream. Whatever packets of whatever layers reach a
  downtrack, and whatever layers are asked for or go up and down in between, the packets
  handed to its local track are exactly what its sequencer makes of some of the incoming
  packets, in the order in which they came: none is sent twice, reordered, or sent without
  passing the sequencer.\<close>

theorem downtrack_stream:
  "\<exists>ps. subseq ps (packetsIn es)
     \<and> attemptsOn (dt_track (downtracks w d)) (hist (run (dtStep E d) w es))
       = attemptsOn (dt_track (downtracks w d)) (hist w)
         @ rewriteAll (dt_sequencer (downtracks w d)) (senderSSRC E (dt_sender (downtracks w d))) ps"
proof (induction es arbitrary: w)
  case Nil
  show ?case by (rule exI [of _ "[]"]) simp
next
  case (Cons e es)
  let ?w = "dtStep E d w e"
  from Cons.IH [of ?w] obtain ps where ps: "subseq ps (packetsIn es)"
    "attemptsOn (dt_track (downtracks ?w d)) (hist (run (dtStep E d) ?w es))
       = attemptsOn (dt_track (downtracks ?w d)) (hist ?w)
         @ rewriteAll (dt_sequencer (downtracks ?w d)) (senderSSRC E (dt_sender (downtracks ?w d))) ps"
    by blast
  have fixed: "dt_track (downtracks ?w d) = dt_track (downtracks w d)"
    "dt_sender (downtracks ?w d) = dt_sender (downtracks w d)"
    using dtStep_one(1) [of E d w e] by (simp_all add: fixedOf_def)
  from dtStep_one(2) [of E d w e] show ?case
  proof (elim disjE exE conjE)
    assume "dt_sequencer (downtracks ?w d) = dt_sequencer (downtracks w d)"
      "attemptsOn (dt_track (downtracks w d)) (hist ?w) = attemptsOn (dt_track (downtracks w d)) (hist w)"
    moreover have "subseq ps (packetsIn (e # es))"
      using ps(1) by (cases e) (simp_all add: list_emb_Cons)
    ultimately show ?thesis
      using ps(2) unfolding fixed by auto
  next
    fix p layer
    assume "e = Packet p layer"
      "dt_sequencer (downtracks ?w d)
         = fst (Rewrite (dt_sequencer (downtracks w d)) p (senderSSRC E (dt_sender (downtracks w d))))"
      "attemptsOn (dt_track (downtracks w d)) (hist ?w) = attemptsOn (dt_track (downtracks w d)) (hist w)
         @ [snd (Rewrite (dt_sequencer (downtracks w d)) p (senderSSRC E (dt_sender (downtracks w d))))]"
    then show ?thesis
      using ps unfolding fixed by (intro exI [of _ "p # ps"]) (simp add: split_beta)
  qed
qed

text \<open>A closed downtrack sends nothing: after \<open>Close\<close>, no packet is handed to a local
  track by anything that still happens to the downtrack, and writes report no error.\<close>

theorem closed_downtrack_silent:
  "attemptsOn t (hist (run (dtStep E d) (DownTrack_Close d w) es)) = attemptsOn t (hist w)
   \<and> WriteRTP E d packet fromLayer (DownTrack_Close d w) = (None, DownTrack_Close d w)"
proof -
  have "dt_closed (downtracks (DownTrack_Close d w) d)" "hist (DownTrack_Close d w) = hist w"
    by (simp_all add: DownTrack_Close_def TrackReceiver_RemoveDownTrack_def upd_dt_def
         upd_track_def Let_def)
  then show ?thesis by (simp add: run_closed)
qed

end
