(* ===== verification/Forwarder.thy ===== *)
theory Forwarder
  imports DownTrack
begin

section \<open>Forwarders (\<open>forwarder.go\<close>)\<close>

text \<open>
  A forwarder hands every packet of one track to the downtracks in its set, and drops a
  downtrack whose write fails.
\<close>

subsection \<open>Operations\<close>

definition NewForwarder :: "ref \<Rightarrow> world \<Rightarrow> ref \<times> world" where
  "NewForwarder trackReceiver w =
     (let (f, w) = fresh w
      in (f, upd_forwarder f (\<lambda>_. \<lparr>fw_trackReceiver = trackReceiver, fw_downTracks = [],
               fw_closed = False, fw_closeCh = ChOpen\<rparr>) w))"

definition Forwarder_AddDownTrack :: "ref \<Rightarrow> ref \<Rightarrow> world \<Rightarrow> world" where
  "Forwarder_AddDownTrack f dt w =
     (if fw_closed (forwarders w f) then w
      else upd_forwarder f (\<lambda>x. x\<lparr>fw_downTracks := ref_add dt (fw_downTracks x)\<rparr>) w)"

definition Forwarder_RemoveDownTrack :: "ref \<Rightarrow> ref \<Rightarrow> world \<Rightarrow> world" where
  "Forwarder_RemoveDownTrack f dt w =
     upd_forwarder f (\<lambda>x. x\<lparr>fw_downTracks := ref_del dt (fw_downTracks x)\<rparr>) w"

text \<open>One round of the loop of \<open>Forward\<close>, and the loop over a copy of the set.\<close>

definition forwardTo :: "env \<Rightarrow> ref \<Rightarrow> rtp_packet \<Rightarrow> string \<Rightarrow> ref \<Rightarrow> world \<Rightarrow> world" where
  "forwardTo E f packet fromLayer dt w =
     (case WriteRTP E dt packet fromLayer w of
        (Some err, w) \<Rightarrow> Forwarder_RemoveDownTrack f dt w
      | (None, w) \<Rightarrow> w)"

definition Forwarder_Forward :: "env \<Rightarrow> ref \<Rightarrow> rtp_packet \<Rightarrow> string \<Rightarrow> world \<Rightarrow> world" where
  "Forwarder_Forward E f packet fromLayer w =
     fold (forwardTo E f packet fromLayer) (rangeRef E w (fw_downTracks (forwarders w f))) w"

definition Forwarder_Close :: "env \<Rightarrow> ref \<Rightarrow> world \<Rightarrow> world" where
  "Forwarder_Close E f w =
     (if fw_closed (forwarders w f) then w
      else (let w = upd_forwarder f (\<lambda>x. x\<lparr>fw_closed := True\<rparr>) w
            in case close_chan (fw_closeCh (forwarders w f)) of
                 None \<Rightarrow> w\<lparr>panicked := True\<rparr>
               | Some ch \<Rightarrow>
                   (let w = upd_forwarder f (\<lambda>x. x\<lparr>fw_closeCh := ch\<rparr>) w
                    in fold DownTrack_Close (rangeRef E w (fw_downTracks (forwarders w f))) w)))"

lemmas forwarder_defs [go_defs] =
  NewForwarder_def Forwarder_AddDownTrack_def Forwarder_RemoveDownTrack_def forwardTo_def
  Forwarder_Forward_def Forwarder_Close_def

subsection \<open>Closing a list of downtracks\<close>

lemma DownTrack_Close_frame [simp]:
  "hist (DownTrack_Close d w) = hist w" "forwarders (DownTrack_Close d w) = forwarders w"
  "routers (DownTrack_Close d w) = routers w" "subscribers (DownTrack_Close d w) = subscribers w"
  "publishers (DownTrack_Close d w) = publishers w" "peers (DownTrack_Close d w) = peers w"
  "sessions (DownTrack_Close d w) = sessions w" "receivers (DownTrack_Close d w) = receivers w"
  "nextRef (DownTrack_Close d w) = nextRef w"
  "dt_closed (downtracks (DownTrack_Close d w) x) \<longleftrightarrow> x = d \<or> dt_closed (downtracks w x)"
  by (simp_all add: DownTrack_Close_def TrackReceiver_RemoveDownTrack_def upd_dt_def upd_track_def Let_def)

lemma closeAll_frame [simp]:
  "hist (fold DownTrack_Close ds w) = hist w"
  "forwarders (fold DownTrack_Close ds w) = forwarders w"
  "routers (fold DownTrack_Close ds w) = routers w"
  "subscribers (fold DownTrack_Close ds w) = subscribers w"
  "receivers (fold DownTrack_Close ds w) = receivers w"
  "nextRef (fold DownTrack_Close ds w) = nextRef w"
  by (rule same_fold, simp)+

lemma closeAll_closed [simp]:
  "dt_closed (downtracks (fold DownTrack_Close ds w) x) \<longleftrightarrow> x \<in> set ds \<or> dt_closed (downtracks w x)"
  by (induction ds arbitrary: w) auto

lemma good_closeAll: "good w (fold DownTrack_Close ds w)"
  by (rule good_fold) (rule good_DownTrack_Close)

subsection \<open>Closing a forwarder\<close>

lemma DownTrack_Close_upd_forwarder:
  "DownTrack_Close d (upd_forwarder f g w) = upd_forwarder f g (DownTrack_Close d w)"
  by (simp add: DownTrack_Close_def TrackReceiver_RemoveDownTrack_def upd_defs Let_def)

lemma closeAll_upd_forwarder:
  "fold DownTrack_Close ds (upd_forwarder f g w) = upd_forwarder f g (fold DownTrack_Close ds w)"
  by (induction ds arbitrary: w) (simp_all add: DownTrack_Close_upd_forwarder)

lemma Forwarder_Close_eq:
  assumes "chan_ok w" and "\<not> fw_closed (forwarders w f)"
  shows "Forwarder_Close E f w =
           upd_forwarder f (\<lambda>x. x\<lparr>fw_closed := True, fw_closeCh := ChClosed\<rparr>)
             (fold DownTrack_Close (rangeRef E w (fw_downTracks (forwarders w f))) w)"
  unfolding closeAll_upd_forwarder [symmetric]
  using chan_ok_forwarder [OF assms(1), of f] assms(2)
  by (simp add: Forwarder_Close_def Let_def upd_forwarder_def rangeRef_def)

lemma closeAll_frame2 [simp]:
  "publishers (fold DownTrack_Close ds w) = publishers w" "peers (fold DownTrack_Close ds w) = peers w"
  "sessions (fold DownTrack_Close ds w) = sessions w"
  "sfu_sessions (fold DownTrack_Close ds w) = sfu_sessions w"
  by (rule same_fold,
      simp add: DownTrack_Close_def TrackReceiver_RemoveDownTrack_def upd_dt_def upd_track_def Let_def)+

lemma Forwarder_Close_frame [simp]:
  "routers (Forwarder_Close E f w) = routers w" "subscribers (Forwarder_Close E f w) = subscribers w"
  "publishers (Forwarder_Close E f w) = publishers w" "peers (Forwarder_Close E f w) = peers w"
  "sessions (Forwarder_Close E f w) = sessions w" "hist (Forwarder_Close E f w) = hist w"
  "sfu_sessions (Forwarder_Close E f w) = sfu_sessions w"
  by (simp_all add: Forwarder_Close_def upd_forwarder_def Let_def split: option.splits)

subsection \<open>Well-formedness\<close>

lemma NewForwarder_ref [simp]: "fst (NewForwarder t w) = nextRef w"
  and nextRef_NewForwarder [simp]: "nextRef (snd (NewForwarder t w)) = Suc (nextRef w)"
  by (simp_all add: NewForwarder_def Let_def split_beta)

lemma good_NewForwarder: "t < nextRef w \<Longrightarrow> good w (snd (NewForwarder t w))"
  unfolding NewForwarder_def split_beta Let_def fst_fresh snd_conv
  by (rule forwarderHeap.good_new) (simp add: forwarder_ok_def upd_forwarder_def)

lemma good_Forwarder_AddDownTrack:
  assumes "d < nextRef w" and "dt_trackReceiver (downtracks w d) < nextRef w"
    and "dtTrackID w d = fwTrackID w f"
  shows "good w (Forwarder_AddDownTrack f d w)"
  unfolding Forwarder_AddDownTrack_def
  by (cases "fw_closed (forwarders w f)"; simp; rule forwarderHeap.good_upd)
     (use assms in \<open>auto simp: keepsForwarder_def forwarder_ok_def upd_forwarder_def dtTrackID_def
        fwTrackID_def dest!: wf_parts(6) [where x = f]\<close>)

lemma good_Forwarder_RemoveDownTrack: "good w (Forwarder_RemoveDownTrack f d w)"
  unfolding Forwarder_RemoveDownTrack_def
  by (rule forwarderHeap.good_upd)
     (auto simp: keepsForwarder_def forwarder_ok_def upd_forwarder_def dtTrackID_def fwTrackID_def
        dest!: wf_parts(6) [where x = f])

lemma good_forwardTo: "good w (forwardTo E f packet fromLayer d w)"
  using good_WriteRTP [of w E d packet fromLayer]
  by (auto simp: forwardTo_def split_beta split: option.splits
      intro: good.frame_trans good_Forwarder_RemoveDownTrack)

lemma good_Forwarder_Forward: "good w (Forwarder_Forward E f packet fromLayer w)"
  unfolding Forwarder_Forward_def by (rule good_fold) (rule good_forwardTo)

lemma good_Forwarder_Close: "good w (Forwarder_Close E f w)"
proof (cases "fw_closed (forwarders w f)")
  case False
  define ds where "ds = rangeRef E w (fw_downTracks (forwarders w f))"
  have 1: "good w (fold DownTrack_Close ds w)"
    by (rule good_closeAll)
  have 2: "good (fold DownTrack_Close ds w)
             (upd_forwarder f (\<lambda>x. x\<lparr>fw_closed := True, fw_closeCh := ChClosed\<rparr>) (fold DownTrack_Close ds w))"
    by (rule forwarderHeap.good_upd)
       (auto simp: keepsForwarder_def forwarder_ok_def upd_forwarder_def dtTrackID_def fwTrackID_def ds_def
          dest!: wf_parts(6) [where x = f])
  show ?thesis
  proof (cases "wf w")
    case True
    show ?thesis
      unfolding Forwarder_Close_eq [OF wf_chan_ok [OF True] False]
      using good.frame_trans [OF 1 2] by (simp add: ds_def)
  qed (simp add: good_def)
qed (simp add: Forwarder_Close_def)

interpretation forwarderClose: closer "Forwarder_Close E f" "\<lambda>w. fw_closed (forwarders w f)" wf
  for E f
  by unfold_locales
     (erule goodD(1) [OF good_Forwarder_Close],
      auto simp: Forwarder_Close_def upd_forwarder_def Let_def split: option.splits)

subsection \<open>One packet for all downtracks\<close>

text \<open>What serving another downtrack leaves alone of a downtrack \<open>d\<close>.\<close>

definition spares :: "ref \<Rightarrow> ref \<Rightarrow> world \<Rightarrow> world \<Rightarrow> bool" where
  "spares f d v w \<longleftrightarrow> downtracks w d = downtracks v d \<and> tracks w = tracks v \<and> layers w = layers v
     \<and> ticks v \<le> ticks w \<and> prefix (hist v) (hist w)
     \<and> (d \<in> set (fw_downTracks (forwarders w f)) \<longleftrightarrow> d \<in> set (fw_downTracks (forwarders v f)))"

interpretation spares: frame "spares f d" for f d
  by unfold_locales (auto simp: spares_def)

lemma ticks_switchSelector: "ticks w \<le> ticks (switchSelector E d w)"
proof -
  have "ticks (fold (\<lambda>(cb, layer). spawn (LayerSwitched cb layer)) calls v) = ticks v" for calls v
    by (rule same_fold) (auto simp: spawn_def split: prod.splits)
  then show ?thesis
    by (simp add: switchSelector_def split_beta Let_def upd_dt_def readClock_def)
qed

lemma forwarders_selOnly: "selOnly d v w \<Longrightarrow> forwarders w = forwarders v"
  by (auto simp: selOnly_def)

lemma ticks_WriteRTP: "ticks w \<le> ticks (snd (WriteRTP E d packet fromLayer w))"
  using ticks_switchSelector [of "snd (readClock E w)" E d]
  by (auto simp: WriteRTP_def split_beta Let_def upd_dt_def call_def tryLayerSwitch_eq
      shouldForwardPacket_def tryFallbackSwitch_def readClock_def)

lemma WriteRTP_frame:
  "x \<noteq> d \<Longrightarrow> downtracks (snd (WriteRTP E d packet fromLayer w)) x = downtracks w x"
  "tracks (snd (WriteRTP E d packet fromLayer w)) = tracks w"
  "layers (snd (WriteRTP E d packet fromLayer w)) = layers w"
  "forwarders (snd (WriteRTP E d packet fromLayer w)) = forwarders w"
  "prefix (hist w) (hist (snd (WriteRTP E d packet fromLayer w)))"
proof -
  have "(x \<noteq> d \<longrightarrow> downtracks (snd (WriteRTP E d packet fromLayer w)) x = downtracks w x)
    \<and> tracks (snd (WriteRTP E d packet fromLayer w)) = tracks w
    \<and> layers (snd (WriteRTP E d packet fromLayer w)) = layers w
    \<and> forwarders (snd (WriteRTP E d packet fromLayer w)) = forwarders w
    \<and> prefix (hist w) (hist (snd (WriteRTP E d packet fromLayer w)))"
  proof (cases "dt_closed (downtracks w d)")
    case False
    note W = WriteRTP_open [OF False, of E packet fromLayer]
    show ?thesis
      using selOnly_facts [OF W(1)] forwarders_selOnly [OF W(1)] unfolding W(2)
      by (simp add: upd_dt_def call_def Let_def)
  qed simp
  then show "x \<noteq> d \<Longrightarrow> downtracks (snd (WriteRTP E d packet fromLayer w)) x = downtracks w x"
    "tracks (snd (WriteRTP E d packet fromLayer w)) = tracks w"
    "layers (snd (WriteRTP E d packet fromLayer w)) = layers w"
    "forwarders (snd (WriteRTP E d packet fromLayer w)) = forwarders w"
    "prefix (hist w) (hist (snd (WriteRTP E d packet fromLayer w)))"
    by blast+
qed

lemma spares_forwardTo: "x \<noteq> d \<Longrightarrow> spares f d w (forwardTo E f packet fromLayer x w)"
  using WriteRTP_frame(1) [of d x E packet fromLayer w] WriteRTP_frame(2-5) [where E = E and d = x and packet = packet and fromLayer = fromLayer and w = w]
    ticks_WriteRTP [of w E x packet fromLayer]
  by (auto simp: spares_def forwardTo_def split_beta Forwarder_RemoveDownTrack_def upd_forwarder_def
      split: option.splits)

lemma spares_fold: "d \<notin> set xs \<Longrightarrow> spares f d w (fold (forwardTo E f packet fromLayer) xs w)"
  by (rule spares.frame_fold) (auto intro: spares_forwardTo)

lemma forwardTo_self:
  fixes E :: env and f d :: ref and packet :: rtp_packet and fromLayer :: string and w :: world
  defines "r \<equiv> WriteRTP E d packet fromLayer w" and "w' \<equiv> forwardTo E f packet fromLayer d w"
  shows "downtracks w' d = downtracks (snd r) d" and "viewOf w' d = viewOf (snd r) d"
    and "hist w' = hist (snd r)"
    and "d \<in> set (fw_downTracks (forwarders w' f)) \<longleftrightarrow>
           d \<in> set (fw_downTracks (forwarders w f)) \<and> fst r = None"
  using WriteRTP_frame(4) [of E d packet fromLayer w]
  by (auto simp: r_def w'_def forwardTo_def split_beta Forwarder_RemoveDownTrack_def upd_forwarder_def
      viewOf_def DownTrack_GetCurrentLayer_def DownTrack_GetTargetLayer_def split: option.splits)

lemma forwarder_closed_Forward:
  assumes "wf w" and "fw_closed (forwarders w f)"
  shows "Forwarder_Forward E f packet fromLayer w = w"
proof -
  have idle: "fold (forwardTo E f packet fromLayer) ds w = w"
    if "\<forall>d\<in>set ds. dt_closed (downtracks w d)" for ds
    using that by (induction ds) (simp_all add: forwardTo_def)
  have "\<forall>d\<in>set (rangeRef E w (fw_downTracks (forwarders w f))). dt_closed (downtracks w d)"
    using wf_parts(6) [OF assms(1), of f] assms(2) by (simp add: forwarder_ok_def)
  then show ?thesis by (simp add: Forwarder_Forward_def idle)
qed

lemma spares_view:
  assumes "spares f d v w"
  shows "downtracks w d = downtracks v d" "isCurrentLayerActive w d = isCurrentLayerActive v d"
    "viewOf w d = viewOf v d" "ticks v \<le> ticks w" "\<exists>h. hist w = hist v @ h"
    "d \<in> set (fw_downTracks (forwarders w f)) \<longleftrightarrow> d \<in> set (fw_downTracks (forwarders v f))"
  using assms by (auto simp: spares_def isCurrentLayerActive_def GetLayer_def IsActive_def viewOf_def
      DownTrack_GetCurrentLayer_def DownTrack_GetTargetLayer_def fun_eq_iff prefix_def split: option.splits)

text \<open>The loop serves a member once, with the other members before and after it.\<close>

lemma Forward_around:
  assumes w: "wf w" and d: "d \<in> set (fw_downTracks (forwarders w f))"
  shows "\<exists>u. spares f d w u
    \<and> spares f d (forwardTo E f packet fromLayer d u) (Forwarder_Forward E f packet fromLayer w)"
proof -
  define ord where "ord = rangeRef E w (fw_downTracks (forwarders w f))"
  have "distinct ord" and "d \<in> set ord"
    using wf_parts(6) [OF w, of f] d by (simp_all add: ord_def forwarder_ok_def)
  then obtain pre post where ord: "ord = pre @ d # post" and out: "d \<notin> set pre" "d \<notin> set post"
    by (metis split_list distinct_append distinct.simps(2) disjoint_iff list.set_intros(1) append.assoc)
  let ?u = "fold (forwardTo E f packet fromLayer) pre w"
  have "Forwarder_Forward E f packet fromLayer w
    = fold (forwardTo E f packet fromLayer) post (forwardTo E f packet fromLayer d ?u)"
    unfolding Forwarder_Forward_def ord_def [symmetric] ord by simp
  then show ?thesis
    using spares_fold [OF out(1)] spares_fold [OF out(2)] by (metis (no_types))
qed

lemma Forward_member:
  fixes E :: env and w :: world and f d :: ref and packet :: rtp_packet and fromLayer :: string
  assumes w: "wf w" and mono: "monoClock E"
    and d: "d \<in> set (fw_downTracks (forwarders w f))" and opn: "\<not> dt_closed (downtracks w d)"
  defines "w' \<equiv> Forwarder_Forward E f packet fromLayer w"
    and "step \<equiv> \<lambda>n. viewStep (isCurrentLayerActive w d)
                  (CanSwitch (clock E n) (dt_selector (downtracks w d)))
                  (IsKeyframe (Payload packet) (dt_codec (downtracks w d)))
                  fromLayer (viewOf w d)"
    and "rw \<equiv> Rewrite (dt_sequencer (downtracks w d)) packet (senderSSRC E (dt_sender (downtracks w d)))"
  shows "\<exists>n h err. ticks w \<le> n \<and> hist w' = hist w @ h \<and> viewOf w' d = snd (step n)
    \<and> (if fst (step n)
       then (WriteTrackRTP (dt_track (downtracks w d)) (snd rw), err) \<in> set h
            \<and> dt_sequencer (downtracks w' d) = fst rw
            \<and> (d \<in> set (fw_downTracks (forwarders w' f)) \<longleftrightarrow> err = None)
       else dt_sequencer (downtracks w' d) = dt_sequencer (downtracks w d)
            \<and> d \<in> set (fw_downTracks (forwarders w' f)))"
proof -
  obtain u where "spares f d w u" and "spares f d (forwardTo E f packet fromLayer d u) w'"
    unfolding w'_def using Forward_around [OF w d] by blast
  note u = spares_view [OF this(1)] and w' = spares_view [OF this(2)]
  have inv: "sel_inv (dt_selector (downtracks u d))" and opn': "\<not> dt_closed (downtracks u d)"
    using wf_parts(5) [OF w, of d] opn by (simp_all add: u(1) downtrack_ok_def)
  note R = WriteRTP_view [OF inv mono opn', of packet fromLayer, unfolded u(1-3), folded rw_def]
  note S = forwardTo_self [where E = E and f = f and d = d and packet = packet and fromLayer = fromLayer and w = u]
  obtain h1 h3 where h: "hist u = hist w @ h1" "hist w' = hist (forwardTo E f packet fromLayer d u) @ h3"
    using u(5) w'(5) by blast
  show ?thesis
  proof (cases "fst (step (ticks u))")
    case True
    define wr where "wr = WriteTrackRTP (dt_track (downtracks w d)) (snd rw)"
    have "hist w' = hist w @ h1 @ [(wr, callErr E (hist u) wr)] @ h3"
      using R True h S(3) by (simp add: step_def wr_def)
    then show ?thesis
      using R S True d u(4,6) w'(1,3,6)
      by (intro exI [of _ "ticks u"] exI [of _ "h1 @ [(wr, callErr E (hist u) wr)] @ h3"]
            exI [of _ "callErr E (hist u) wr"])
         (simp add: step_def u wr_def)
  next
    case False
    then have "hist w' = hist w @ h1 @ h3"
      using R h S(3) by (simp add: step_def)
    then show ?thesis
      using R S False d u(4,6) w'(1,3,6)
      by (intro exI [of _ "ticks u"] exI [of _ "h1 @ h3"]) (simp add: step_def u)
  qed
qed

subsection \<open>Properties\<close>


text \<open>The example downtrack in a forwarder (reference 7).\<close>

definition exampleForward :: world where
  "exampleForward = Forwarder_AddDownTrack 7 6 (snd (NewForwarder 1 exampleDown))"

lemma exampleForward_facts:
  "nextRef exampleDown = 7" "downtracks exampleForward = downtracks exampleDown"
  "tracks exampleForward = tracks exampleDown" "layers exampleForward = layers exampleDown"
  "hist exampleForward = hist exampleDown"
  "fw_downTracks (forwarders exampleForward 7) = [6]" "\<not> fw_closed (forwarders exampleForward 7)"
  "dt_trackReceiver (downtracks exampleDown 6) = 1"
  by (simp_all add: exampleForward_def exampleDown_def exampleTrack_def track_defs downtrack_defs
        forwarder_defs upd_defs world_defs world0_def gm_get_def gm_put_def LayerMid_def LayerLow_def
        LayerHigh_def LayerDefault_def env0_def GetBestLayer_def zeroTrackRemote_def
        LayerReceiver_SSRC_def Let_def ref_add_def eval_nat_numeral)

lemma wf_exampleForward: "wf exampleForward"
proof -
  let ?w = "snd (NewForwarder 1 exampleDown)"
  have "downtracks ?w = downtracks exampleDown" "tracks ?w = tracks exampleDown"
    "fw_trackReceiver (forwarders ?w 7) = 1"
    by (simp_all add: NewForwarder_def Let_def split_beta upd_forwarder_def fresh_def exampleForward_facts)
  then have "good ?w exampleForward"
    unfolding exampleForward_def
    by (intro good_Forwarder_AddDownTrack)
       (simp_all add: exampleForward_facts dtTrackID_def fwTrackID_def)
  moreover have "good exampleDown ?w"
    by (rule good_NewForwarder) (simp add: exampleForward_facts)
  ultimately show ?thesis
    using wf_exampleDown by (blast dest: goodD(1))
qed


text \<open>A closed forwarder is silent. After \<open>Close\<close> on any well-formed store all members are
  closed, forwarding any packet changes nothing, no downtrack can be added, and closing again
  changes nothing; the store stays well formed, so no channel was closed twice.\<close>

theorem closed_forwarder_silent:
  fixes E :: env and w :: world and f :: ref
  assumes "wf w"
  defines "w' \<equiv> Forwarder_Close E f w"
  shows "wf w' \<and> (\<forall>d\<in>set (fw_downTracks (forwarders w f)). dt_closed (downtracks w' d))
    \<and> Forwarder_Forward E f packet fromLayer w' = w' \<and> Forwarder_AddDownTrack f d w' = w'
    \<and> (Forwarder_Close E f ^^ Suc n) w = w'"
proof -
  have w': "wf w'" unfolding w'_def by (rule forwarderClose.cls_inv) fact
  have closed: "fw_closed (forwarders w' f)" unfolding w'_def by (rule forwarderClose.cls_closes)
  have members: "fw_downTracks (forwarders w' f) = fw_downTracks (forwarders w f)"
  proof (cases "fw_closed (forwarders w f)")
    case True
    then show ?thesis by (simp add: w'_def Forwarder_Close_def)
  next
    case False
    then show ?thesis
      by (simp add: w'_def Forwarder_Close_eq [OF wf_chan_ok [OF \<open>wf w\<close>]] upd_forwarder_def)
  qed
  have "\<forall>d\<in>set (fw_downTracks (forwarders w f)). dt_closed (downtracks w' d)"
    using wf_parts(6) [OF w', of f] closed by (simp add: forwarder_ok_def members)
  then show ?thesis
    using w' closed forwarder_closed_Forward [OF w' closed]
    unfolding w'_def by (simp only: forwarderClose.cls_iterated Forwarder_AddDownTrack_def if_True)
qed

theorem closed_forwarder_silent_witness:
  "dt_closed (downtracks (Forwarder_Close env0 7 exampleForward) 6)
   \<and> Forwarder_Forward env0 7 examplePacket LayerHigh (Forwarder_Close env0 7 exampleForward)
     = Forwarder_Close env0 7 exampleForward"
  using closed_forwarder_silent [OF wf_exampleForward, of env0 7 examplePacket LayerHigh 0 0]
  by (simp add: exampleForward_facts)

end
