(* ===== verification/Notify.thy ===== *)
theory Notify
  imports Heap "HOL-Library.Multiset"
begin

section \<open>Messages to clients (\<open>transport.go\<close>, parts of \<open>peer.go\<close> and \<open>session.go\<close>)\<close>

text \<open>
  The WebSocket connection, the JSON-RPC notifications of a peer, and the broadcast of a
  session, which the router uses. The members of a JSON object stand in the order in which
  \<open>json.Marshal\<close> writes them: the fields of a struct as declared, the keys of a map sorted.
  Marshalling the values the package sends cannot fail.
\<close>

subsection \<open>The connection\<close>

definition newWSConn :: "world \<Rightarrow> ref \<times> world" where
  "newWSConn w = fresh w"

definition wsConn_WriteMessage :: "env \<Rightarrow> ref \<Rightarrow> json \<Rightarrow> world \<Rightarrow> string option \<times> world" where
  "wsConn_WriteMessage E conn message w = call E (WriteWS conn message) w"

definition wsConn_Close :: "env \<Rightarrow> ref \<Rightarrow> world \<Rightarrow> string option \<times> world" where
  "wsConn_Close E conn w = call E (CloseWS conn) w"

subsection \<open>Notifications of a peer\<close>

definition rpcNotification :: "string \<Rightarrow> (string \<times> json) list \<Rightarrow> json" where
  "rpcNotification meth params =
     JObj [(''jsonrpc'', JStr ''2.0''), (''method'', JStr meth), (''params'', JObj params)]"

definition SendNotification ::
  "env \<Rightarrow> ref \<Rightarrow> string \<Rightarrow> (string \<times> json) list \<Rightarrow> world \<Rightarrow> string option \<times> world" where
  "SendNotification E p meth params w =
     (if pe_closed (peers w p) then (None, w)
      else wsConn_WriteMessage E (pe_conn (peers w p)) (rpcNotification meth params) w)"

definition SendOffer :: "env \<Rightarrow> ref \<Rightarrow> string \<Rightarrow> world \<Rightarrow> string option \<times> world" where
  "SendOffer E p offer w = SendNotification E p ''offer'' [(''offer'', JSdp offer)] w"

definition SendCandidate ::
  "env \<Rightarrow> ref \<Rightarrow> string option \<Rightarrow> string \<Rightarrow> world \<Rightarrow> string option \<times> world" where
  "SendCandidate E p candidate target w =
     (case candidate of
        None \<Rightarrow> (None, w)
      | Some c \<Rightarrow> SendNotification E p ''candidate''
                    [(''candidate'', JCandidate c), (''target'', JStr target)] w)"

subsection \<open>What the router uses of a session\<close>

definition trackAddedParams :: "string \<Rightarrow> TrackReceiver \<Rightarrow> (string \<times> json) list" where
  "trackAddedParams peerID track =
     [(''kind'', JStr (tk_kind track)), (''peerId'', JStr peerID),
      (''streamId'', JStr (tk_streamID track)), (''trackId'', JStr (tk_trackID track))]"

definition broadcastTo ::
  "env \<Rightarrow> (string, ref) gomap \<Rightarrow> string \<Rightarrow> string \<Rightarrow> (string \<times> json) list \<Rightarrow> string \<Rightarrow> world \<Rightarrow> world" where
  "broadcastTo E m excludePeerID meth params peerID w =
     (if peerID \<noteq> excludePeerID
      then (case gm_get m peerID of
              Some peer \<Rightarrow> snd (SendNotification E peer meth params w)
            | None \<Rightarrow> w)
      else w)"

definition Broadcast ::
  "env \<Rightarrow> ref \<Rightarrow> string \<Rightarrow> string \<Rightarrow> (string \<times> json) list \<Rightarrow> world \<Rightarrow> world" where
  "Broadcast E s excludePeerID meth params w =
     (let m = se_peers (sessions w s)
      in fold (broadcastTo E m excludePeerID meth params) (rangeStr E w m) w)"

definition AddRouter :: "ref \<Rightarrow> string \<Rightarrow> ref \<Rightarrow> world \<Rightarrow> world" where
  "AddRouter s peerID router w =
     upd_session s (\<lambda>x. x\<lparr>se_routers := gm_put peerID router (se_routers x)\<rparr>) w"

lemmas notify_defs [go_defs] =
  wsConn_WriteMessage_def wsConn_Close_def SendNotification_def SendOffer_def SendCandidate_def
  broadcastTo_def Broadcast_def AddRouter_def

subsection \<open>Loops that send messages\<close>

text \<open>
  A round of such a loop performs calls that do not depend on what was sent before; then the
  whole loop performs the calls of all rounds, in some order, and changes nothing else.
\<close>

locale announcer =
  fixes act :: "'k \<Rightarrow> world \<Rightarrow> world" and sends :: "world \<Rightarrow> 'k \<Rightarrow> effect multiset"
  assumes act_sends: "\<exists>h. act k w = w\<lparr>hist := hist w @ h\<rparr> \<and> mset (map fst h) = sends w k"
    and sends_hist: "sends (w\<lparr>hist := h\<rparr>) k = sends w k"
begin

lemma fold_sends:
  "\<exists>h. fold act ks w = w\<lparr>hist := hist w @ h\<rparr> \<and> mset (map fst h) = (\<Sum>k\<leftarrow>ks. sends w k)"
proof (induction ks arbitrary: w)
  case Nil
  show ?case by (rule exI [of _ "[]"]) simp
next
  case (Cons k ks)
  from act_sends [of k w] obtain h
    where h: "act k w = w\<lparr>hist := hist w @ h\<rparr>" "mset (map fst h) = sends w k"
    by (elim exE conjE)
  from Cons.IH [of "act k w"] obtain h'
    where h': "fold act ks (act k w) = (act k w)\<lparr>hist := hist (act k w) @ h'\<rparr>"
      "mset (map fst h') = (\<Sum>j\<leftarrow>ks. sends (act k w) j)"
    by (elim exE conjE)
  have "fold act (k # ks) w = w\<lparr>hist := hist w @ h @ h'\<rparr>"
    using h'(1) by (simp add: h(1))
  moreover have "mset (map fst (h @ h')) = (\<Sum>k\<leftarrow>k # ks. sends w k)"
    using h(2) h'(2) by (simp add: h(1) sends_hist)
  ultimately show ?case by (intro exI conjI)
qed

lemma fold_sends_set:
  assumes "distinct ks"
  shows "\<exists>h. fold act ks w = w\<lparr>hist := hist w @ h\<rparr> \<and> mset (map fst h) = (\<Sum>k\<in>set ks. sends w k)"
  using fold_sends [of ks w] assms by (simp add: sum_list_distinct_conv_sum_set)

end

text \<open>The message of one notification: none for a closed peer.\<close>

definition notificationTo :: "world \<Rightarrow> ref \<Rightarrow> string \<Rightarrow> (string \<times> json) list \<Rightarrow> effect multiset" where
  "notificationTo w p meth params =
     (if pe_closed (peers w p) then {#} else {#WriteWS (pe_conn (peers w p)) (rpcNotification meth params)#})"

lemma SendNotification_sends:
  "\<exists>h. snd (SendNotification E p meth params w) = w\<lparr>hist := hist w @ h\<rparr>
     \<and> mset (map fst h) = notificationTo w p meth params"
proof (cases "pe_closed (peers w p)")
  case True
  then show ?thesis
    by (intro exI [of _ "[]"]) (simp add: SendNotification_def notificationTo_def)
next
  case False
  let ?e = "WriteWS (pe_conn (peers w p)) (rpcNotification meth params)"
  show ?thesis
    by (rule exI [of _ "[(?e, callErr E (hist w) ?e)]"])
       (simp add: False SendNotification_def notificationTo_def wsConn_WriteMessage_def call_def Let_def)
qed

definition broadcastSends ::
  "(string, ref) gomap \<Rightarrow> string \<Rightarrow> string \<Rightarrow> (string \<times> json) list \<Rightarrow> world \<Rightarrow> string \<Rightarrow> effect multiset" where
  "broadcastSends m excludePeerID meth params w k =
     (if k = excludePeerID then {#}
      else (case gm_get m k of None \<Rightarrow> {#} | Some p \<Rightarrow> notificationTo w p meth params))"

lemma broadcastTo_sends:
  "\<exists>h. broadcastTo E m excludePeerID meth params k w = w\<lparr>hist := hist w @ h\<rparr>
     \<and> mset (map fst h) = broadcastSends m excludePeerID meth params w k"
proof (cases "k = excludePeerID \<or> gm_get m k = None")
  case True
  then show ?thesis
    by (intro exI [of _ "[]"]) (auto simp: broadcastTo_def broadcastSends_def)
next
  case False
  then show ?thesis
    using SendNotification_sends by (auto simp: broadcastTo_def broadcastSends_def)
qed

interpretation broadcaster: announcer
  "broadcastTo E m excludePeerID meth params" "broadcastSends m excludePeerID meth params"
  for E m excludePeerID meth params
proof unfold_locales
  show "\<exists>h. broadcastTo E m excludePeerID meth params k w = w\<lparr>hist := hist w @ h\<rparr>
     \<and> mset (map fst h) = broadcastSends m excludePeerID meth params w k" for k w
    by (rule broadcastTo_sends)
  show "broadcastSends m excludePeerID meth params (w\<lparr>hist := h\<rparr>) k
      = broadcastSends m excludePeerID meth params w k" for w h k
    by (simp add: broadcastSends_def notificationTo_def split: option.splits)
qed

subsection \<open>Well-formedness\<close>

lemma good_SendNotification: "good w (snd (SendNotification E p meth params w))"
  by (simp add: SendNotification_def wsConn_WriteMessage_def)

lemma good_SendOffer: "good w (snd (SendOffer E p offer w))"
  by (simp add: SendOffer_def good_SendNotification)

lemma good_SendCandidate: "good w (snd (SendCandidate E p candidate target w))"
  by (simp add: SendCandidate_def good_SendNotification split: option.splits)

lemma good_Broadcast: "good w (Broadcast E s excludePeerID meth params w)"
  unfolding Broadcast_def Let_def
  by (rule good_fold) (simp add: broadcastTo_def good_SendNotification split: option.splits)

lemma good_AddRouter:
  assumes "router < nextRef w" and "ro_id (routers w router) = peerID"
  shows "good w (AddRouter s peerID router w)"
  unfolding AddRouter_def
  by (rule sessionHeap.good_upd)
     (use assms in \<open>auto simp: keepsSession_def session_ok_def upd_session_def
        dest!: wf_parts(11) [where x = s] split: if_splits\<close>)

subsection \<open>Properties\<close>

text \<open>C35: A broadcast writes the message once to the connection of every open peer of the
  session other than the excluded one, and to nobody else; it changes nothing but the history
  of calls, and a failed write does not keep the others from their message.\<close>

theorem Broadcast_reaches:
  fixes w :: world and s :: ref and excludePeerID :: string
  assumes "wf w"
  defines "m \<equiv> se_peers (sessions w s)"
  defines "ids \<equiv> {k \<in> set (gm_keys m). k \<noteq> excludePeerID \<and> \<not> pe_closed (peers w (the (gm_get m k)))}"
  shows "\<exists>h. Broadcast E s excludePeerID meth params w = w\<lparr>hist := hist w @ h\<rparr>
    \<and> mset (map fst h) = {#WriteWS (pe_conn (peers w (the (gm_get m k)))) (rpcNotification meth params).
                            k \<in># mset_set ids#}"
proof -
  have ok: "gm_ok m"
    using wf_parts(11) [OF assms(1), of s] by (simp add: session_ok_def m_def)
  have "\<exists>h. fold (broadcastTo E m excludePeerID meth params) (rangeStr E w m) w = w\<lparr>hist := hist w @ h\<rparr>
    \<and> mset (map fst h) = (\<Sum>k\<in>set (rangeStr E w m). broadcastSends m excludePeerID meth params w k)"
    by (rule broadcaster.fold_sends_set [OF distinct_rangeStr [OF ok]])
  then obtain h where h: "Broadcast E s excludePeerID meth params w = w\<lparr>hist := hist w @ h\<rparr>"
    "mset (map fst h) = (\<Sum>k\<in>set (gm_keys m). broadcastSends m excludePeerID meth params w k)"
    by (auto simp: Broadcast_def m_def)
  have "(\<Sum>k\<in>set (gm_keys m). broadcastSends m excludePeerID meth params w k)
      = (\<Sum>k\<in>ids. {#WriteWS (pe_conn (peers w (the (gm_get m k)))) (rpcNotification meth params)#})"
    by (rule sum.mono_neutral_cong_right [OF finite_set])
       (auto simp: ids_def broadcastSends_def notificationTo_def set_gm_keys)
  also have "\<dots> = {#WriteWS (pe_conn (peers w (the (gm_get m k)))) (rpcNotification meth params).
                            k \<in># mset_set ids#}"
    by (simp add: sum_unfold_sum_mset multiset.map_comp)
  finally show ?thesis using h by auto
qed

text \<open>A room (session 1) with three peers, of which Cyd has left.\<close>

definition examplePeer :: "string \<Rightarrow> ref \<Rightarrow> bool \<Rightarrow> Peer" where
  "examplePeer name conn closed =
     \<lparr>pe_id = name, pe_session = 1, pe_publisher = Some 8, pe_subscriber = Some 9, pe_conn = conn,
      pe_closed = closed\<rparr>"

definition exampleRoom :: world where
  "exampleRoom = world0\<lparr>nextRef := 10,
     sessions := (sessions world0)(1 :=
       \<lparr>se_id = ''room'', se_peers = [(''ann'', 2), (''bob'', 3), (''cyd'', 4)], se_routers = []\<rparr>),
     peers := (peers world0)(2 := examplePeer ''ann'' 5 False, 3 := examplePeer ''bob'' 6 False,
       4 := examplePeer ''cyd'' 7 True)\<rparr>"

lemma wf_exampleRoom: "wf exampleRoom"
  by (auto simp: wf_def ok_defs exampleRoom_def examplePeer_def world0_def gm_get_def gm_ok_def
      gm_keys_def sel_inv_New split: if_splits) (simp_all add: NewLayerSelector_def Let_def)

theorem Broadcast_reaches_witness:
  "\<exists>h. Broadcast env0 1 ''ann'' ''trackAdded'' [] exampleRoom = exampleRoom\<lparr>hist := hist exampleRoom @ h\<rparr>
     \<and> mset (map fst h) = {#WriteWS 6 (rpcNotification ''trackAdded'' [])#}"
proof -
  have ids: "{k \<in> set (gm_keys (se_peers (sessions exampleRoom 1))). k \<noteq> ''ann''
      \<and> \<not> pe_closed (peers exampleRoom (the (gm_get (se_peers (sessions exampleRoom 1)) k)))} = {''bob''}"
    by (auto simp: exampleRoom_def examplePeer_def gm_get_def gm_keys_def)
  have conn: "pe_conn (peers exampleRoom (the (gm_get (se_peers (sessions exampleRoom 1)) ''bob''))) = 6"
    by (simp add: exampleRoom_def examplePeer_def gm_get_def)
  show ?thesis
    using Broadcast_reaches [OF wf_exampleRoom, of env0 1 "''ann''" "''trackAdded''" "[]"] unfolding ids by (simp add: conn [unfolded One_nat_def])
qed

end
