(* ===== verification/Subscriber.thy ===== *)
theory Subscriber
  imports DownTrack Notify
begin

section \<open>Subscribers: downtracks and negotiation (\<open>subscriber.go\<close>)\<close>

text \<open>
  The downstream side of a peer: its downtracks by track ID, its layer choices, the data
  channel, and the offers it sends. \<open>Subscribe\<close> and \<open>Close\<close>, which call the router, are in
  theory \<open>Router\<close>; the constructor is in theory \<open>Peer\<close>.
\<close>

subsection \<open>Downtracks\<close>

definition AddDownTrack :: "env \<Rightarrow> ref \<Rightarrow> ref \<Rightarrow> world \<Rightarrow> string option \<times> world" where
  "AddDownTrack E s track w =
     (if su_closed (subscribers w s) then (None, w)
      else (let trackID = tk_trackID (tracks w track)
            in if gm_get (su_downTracks (subscribers w s)) trackID \<noteq> None then (None, w)
               else (case GetBestLayer w track of
                       None \<Rightarrow> (None, w)
                     | Some bestLayer \<Rightarrow>
                        (case NewDownTrack E s track (Codec w (ly_receiver (layers w bestLayer))) w of
                           (Inl err, w) \<Rightarrow> (Some err, w)
                         | (Inr dt, w) \<Rightarrow>
                            (None, TrackReceiver_AddDownTrack track dt
                              (upd_subscriber s
                                (\<lambda>x. x\<lparr>su_downTracks := gm_put trackID dt (su_downTracks x)\<rparr>) w))))))"

definition GetDownTrack :: "world \<Rightarrow> ref \<Rightarrow> string \<Rightarrow> ref option" where
  "GetDownTrack w s trackID = gm_get (su_downTracks (subscribers w s)) trackID"

definition SetLayer :: "env \<Rightarrow> ref \<Rightarrow> string \<Rightarrow> string \<Rightarrow> world \<Rightarrow> world" where
  "SetLayer E s trackID layer w =
     (case gm_get (su_downTracks (subscribers w s)) trackID of
        None \<Rightarrow> w
      | Some dt \<Rightarrow> DownTrack_SetTargetLayer E dt layer w)"

text \<open>\<open>None\<close> is \<open>ok = false\<close>.\<close>

definition Subscriber_GetLayer :: "world \<Rightarrow> ref \<Rightarrow> string \<Rightarrow> (string \<times> string) option" where
  "Subscriber_GetLayer w s trackID =
     (case gm_get (su_downTracks (subscribers w s)) trackID of
        None \<Rightarrow> None
      | Some dt \<Rightarrow> Some (DownTrack_GetCurrentLayer w dt, DownTrack_GetTargetLayer w dt))"

definition Subscriber_AddICECandidate :: "env \<Rightarrow> ref \<Rightarrow> string \<Rightarrow> world \<Rightarrow> string option \<times> world" where
  "Subscriber_AddICECandidate E s candidate w =
     call E (AddICE (su_pc (subscribers w s)) candidate) w"

subsection \<open>Negotiation\<close>

definition resetNegotiationState :: "ref \<Rightarrow> world \<Rightarrow> world" where
  "resetNegotiationState s w = upd_subscriber s (\<lambda>x. x\<lparr>su_negotiating := False\<rparr>) w"

definition doNegotiate :: "env \<Rightarrow> ref \<Rightarrow> world \<Rightarrow> string option \<times> world" where
  "doNegotiate E s w =
     (let pc = su_pc (subscribers w s); offer = sdpOf E (hist w) (CreateOffer pc)
      in case call E (CreateOffer pc) w of
           (Some err, w) \<Rightarrow> (Some err, resetNegotiationState s w)
         | (None, w) \<Rightarrow>
            (case call E (SetLocalDescription pc offer) w of
               (Some err, w) \<Rightarrow> (Some err, resetNegotiationState s w)
             | (None, w) \<Rightarrow> SendOffer E (su_peer (subscribers w s)) offer w))"

definition Negotiate :: "env \<Rightarrow> ref \<Rightarrow> world \<Rightarrow> string option \<times> world" where
  "Negotiate E s w =
     (if su_closed (subscribers w s) then (None, w)
      else if su_negotiating (subscribers w s)
      then (None, upd_subscriber s (\<lambda>x. x\<lparr>su_needsOffer := True\<rparr>) w)
      else doNegotiate E s
             (upd_subscriber s (\<lambda>x. x\<lparr>su_negotiating := True, su_needsOffer := False\<rparr>) w))"

definition Subscriber_HandleAnswer :: "env \<Rightarrow> ref \<Rightarrow> string \<Rightarrow> world \<Rightarrow> string option \<times> world" where
  "Subscriber_HandleAnswer E s answer w =
     (case call E (SetRemoteDescription (su_pc (subscribers w s)) answer) w of
        (Some err, w) \<Rightarrow> (Some err, w)
      | (None, w) \<Rightarrow>
         (let needsOffer = su_needsOffer (subscribers w s);
              w = upd_subscriber s (\<lambda>x. x\<lparr>su_negotiating := False, su_needsOffer := False\<rparr>) w
          in (None, if needsOffer then spawn (Renegotiate s) w else w)))"

subsection \<open>Data\<close>

definition Subscriber_SendData :: "env \<Rightarrow> ref \<Rightarrow> u8 list \<Rightarrow> world \<Rightarrow> string option \<times> world" where
  "Subscriber_SendData E s data w =
     (if su_closed (subscribers w s) then (None, w)
      else (case su_dataChannel (subscribers w s) of
              None \<Rightarrow> (None, w)
            | Some dc \<Rightarrow> (if \<not> dcOpen E (hist w) dc then (None, w) else call E (SendDC dc data) w)))"

lemmas subscriber_defs [go_defs] =
  AddDownTrack_def GetDownTrack_def SetLayer_def Subscriber_GetLayer_def
  Subscriber_AddICECandidate_def resetNegotiationState_def doNegotiate_def Negotiate_def
  Subscriber_HandleAnswer_def Subscriber_SendData_def

subsection \<open>What adding a downtrack does\<close>

lemma AddDownTrack_frame:
  fixes E :: env and s track :: ref and w :: world
  defines "w' \<equiv> snd (AddDownTrack E s track w)"
  shows "x \<noteq> s \<Longrightarrow> subscribers w' x = subscribers w x"
    and "forwarders w' = forwarders w" and "routers w' = routers w"
    and "layers w' = layers w"
    and "su_closed (subscribers w' s) = su_closed (subscribers w s)"
    and "su_routers (subscribers w' s) = su_routers (subscribers w s)"
    and "su_pc (subscribers w' s) = su_pc (subscribers w s)"
    and "su_peer (subscribers w' s) = su_peer (subscribers w s)"
    and "tk_trackID (tracks w' t) = tk_trackID (tracks w t)"
    and "tk_layers (tracks w' t) = tk_layers (tracks w t)"
proof -
  obtain r w1 where N: "NewDownTrack E s track (Codec w (ly_receiver (layers w (the (GetBestLayer w track))))) w = (r, w1)"
    by fastforce
  note n = NewDownTrack_result [OF N]
  have "(x \<noteq> s \<longrightarrow> subscribers w' x = subscribers w x) \<and> forwarders w' = forwarders w \<and> routers w' = routers w
    \<and> layers w' = layers w \<and> su_closed (subscribers w' s) = su_closed (subscribers w s)
    \<and> su_routers (subscribers w' s) = su_routers (subscribers w s)
    \<and> su_pc (subscribers w' s) = su_pc (subscribers w s)
    \<and> su_peer (subscribers w' s) = su_peer (subscribers w s)
    \<and> tk_trackID (tracks w' t) = tk_trackID (tracks w t)
    \<and> tk_layers (tracks w' t) = tk_layers (tracks w t)"
    unfolding w'_def AddDownTrack_def
    using N n by (auto simp: Let_def upd_subscriber_def TrackReceiver_AddDownTrack_def upd_track_def
        split: option.splits sum.splits)
  then show "x \<noteq> s \<Longrightarrow> subscribers w' x = subscribers w x"
    and "forwarders w' = forwarders w" and "routers w' = routers w" and "layers w' = layers w"
    and "su_closed (subscribers w' s) = su_closed (subscribers w s)"
    and "su_routers (subscribers w' s) = su_routers (subscribers w s)"
    and "su_pc (subscribers w' s) = su_pc (subscribers w s)"
    and "su_peer (subscribers w' s) = su_peer (subscribers w s)"
    and "tk_trackID (tracks w' t) = tk_trackID (tracks w t)"
    and "tk_layers (tracks w' t) = tk_layers (tracks w t)"
    by blast+
qed

lemma AddDownTrack_closed: "su_closed (subscribers w s) \<Longrightarrow> AddDownTrack E s track w = (None, w)"
  by (simp add: AddDownTrack_def)

lemma AddDownTrack_exists:
  "GetDownTrack w s (tk_trackID (tracks w track)) = Some d \<Longrightarrow> AddDownTrack E s track w = (None, w)"
  by (simp add: AddDownTrack_def GetDownTrack_def)

text \<open>After a call without an error, an open subscriber has a downtrack for the track ID unless
  the track has no layer to take a codec from; it keeps the downtracks it had.\<close>

lemma AddDownTrack_connects:
  assumes "AddDownTrack E s track w = (None, w')" and "\<not> su_closed (subscribers w s)"
    and "GetBestLayer w track \<noteq> None"
  shows "GetDownTrack w' s (tk_trackID (tracks w track)) \<noteq> None"
  using assms
  by (auto simp: AddDownTrack_def GetDownTrack_def Let_def upd_subscriber_def
      TrackReceiver_AddDownTrack_def upd_track_def split: option.splits sum.splits prod.splits if_splits)

lemma AddDownTrack_keeps:
  assumes "GetDownTrack w s k = Some d"
  shows "GetDownTrack (snd (AddDownTrack E s track w)) s k = Some d"
proof -
  obtain r w1 where N: "NewDownTrack E s track (Codec w (ly_receiver (layers w (the (GetBestLayer w track))))) w = (r, w1)"
    by fastforce
  show ?thesis
    using assms N NewDownTrack_result(1) [OF N]
    by (auto simp: AddDownTrack_def GetDownTrack_def Let_def upd_subscriber_def
        TrackReceiver_AddDownTrack_def upd_track_def split: option.splits sum.splits)
qed

subsection \<open>Well-formedness\<close>

lemma good_AddDownTrack:
  assumes s: "s < nextRef w" and t: "track < nextRef w"
  shows "good w (snd (AddDownTrack E s track w))"
proof -
  define codec where "codec = Codec w (ly_receiver (layers w (the (GetBestLayer w track))))"
  define k where "k = tk_trackID (tracks w track)"
  obtain r w1 where N: "NewDownTrack E s track codec w = (r, w1)"
    by fastforce
  have w1: "good w w1"
    using good_NewDownTrack [OF s t, of E codec] N by simp
  note n = NewDownTrack_result [OF N]
  have "good w (TrackReceiver_AddDownTrack track d
            (upd_subscriber s (\<lambda>x. x\<lparr>su_downTracks := gm_put k d (su_downTracks x)\<rparr>) w1))"
    if r: "r = Inr d" and opn: "\<not> su_closed (subscribers w s)" for d
  proof (rule good.frame_trans [OF w1], rule good.frame_trans)
    have "t' = d \<Longrightarrow> dtTrackID w1 t' = k" for t'
      using n(2) n(7) [OF r] by (simp add: dtTrackID_def k_def)
    then show "good w1 (upd_subscriber s (\<lambda>x. x\<lparr>su_downTracks := gm_put k d (su_downTracks x)\<rparr>) w1)"
      using n(1) n(7) [OF r] opn t
      by (intro subscriberHeap.good_upd)
         (auto simp: keepsSubscriber_def subscriber_ok_def upd_subscriber_def dtTrackID_def
           dest!: wf_parts(8) [where x = s] split: if_splits)
  next
    show "good (upd_subscriber s (\<lambda>x. x\<lparr>su_downTracks := gm_put k d (su_downTracks x)\<rparr>) w1)
       (TrackReceiver_AddDownTrack track d
            (upd_subscriber s (\<lambda>x. x\<lparr>su_downTracks := gm_put k d (su_downTracks x)\<rparr>) w1))"
      by (rule good_TrackReceiver_AddDownTrack) (use n(7) [OF r] in \<open>simp_all add: upd_subscriber_def\<close>)
  qed
  then show ?thesis
    using N w1 by (auto simp: AddDownTrack_def Let_def codec_def k_def split: option.splits sum.splits)
qed

lemma good_SetLayer: "good w (SetLayer E s trackID layer w)"
  by (simp add: SetLayer_def good_SetTargetLayer split: option.splits)

lemma good_upd_negotiation:
  assumes "\<And>x. su_peer (g x) = su_peer x \<and> su_pc (g x) = su_pc x \<and> su_closed (g x) = su_closed x
              \<and> su_downTracks (g x) = su_downTracks x \<and> su_routers (g x) = su_routers x"
  shows "good w (upd_subscriber s g w)"
  by (rule subscriberHeap.good_upd)
     (use assms in \<open>auto simp: keepsSubscriber_def subscriber_ok_def upd_subscriber_def dtTrackID_def
        dest!: wf_parts(8) [where x = s]\<close>)

lemma good_resetNegotiationState: "good w (resetNegotiationState s w)"
  unfolding resetNegotiationState_def by (rule good_upd_negotiation) simp

lemma good_doNegotiate: "good w (snd (doNegotiate E s w))"
proof -
  define pc where "pc = su_pc (subscribers w s)"
  define w1 where "w1 = snd (call E (CreateOffer pc) w)"
  define w2 where "w2 = snd (call E (SetLocalDescription pc (sdpOf E (hist w) (CreateOffer pc))) w1)"
  have 1: "good w w1" "good w1 w2"
    by (simp_all add: w1_def w2_def)
  have 2: "good w w2" by (rule good.frame_trans [OF 1])
  show ?thesis
    using good.frame_trans [OF 1(1) good_resetNegotiationState] good.frame_trans [OF 2 good_resetNegotiationState]
      good.frame_trans [OF 2 good_SendOffer]
    unfolding doNegotiate_def split_beta Let_def
    by (auto simp: pc_def [symmetric] w1_def [symmetric] w2_def [symmetric] split: option.splits)
qed

lemma good_Negotiate: "good w (snd (Negotiate E s w))"
  unfolding Negotiate_def
  by (auto intro!: good_upd_negotiation good.frame_trans [OF good_upd_negotiation good_doNegotiate])

lemma good_Subscriber_HandleAnswer:
  assumes "s < nextRef w"
  shows "good w (snd (Subscriber_HandleAnswer E s answer w))"
proof -
  define w1 where "w1 = snd (call E (SetRemoteDescription (su_pc (subscribers w s)) answer) w)"
  have 1: "good w w1" by (simp add: w1_def)
  have 2: "good w (upd_subscriber s (\<lambda>x. x\<lparr>su_negotiating := False, su_needsOffer := False\<rparr>) w1)"
    by (rule good.frame_trans [OF 1 good_upd_negotiation]) simp
  have 3: "nextRef w1 = nextRef w" by (simp add: w1_def)
  show ?thesis
    using 1 2 good.frame_trans [OF 2 good_spawn] assms
    unfolding Subscriber_HandleAnswer_def split_beta Let_def
    by (auto simp: w1_def [symmetric] 3 split: option.splits)
qed

lemma good_Subscriber_SendData: "good w (snd (Subscriber_SendData E s data w))"
  by (simp add: Subscriber_SendData_def split: option.splits)

lemma good_Subscriber_AddICECandidate: "good w (snd (Subscriber_AddICECandidate E s candidate w))"
  by (simp add: Subscriber_AddICECandidate_def)

end
