(* ===== verification/Router.thy ===== *)
theory Router
  imports Forwarder Subscriber
begin

section \<open>Routers and subscriptions (\<open>router.go\<close>, the rest of \<open>subscriber.go\<close>)\<close>

text \<open>
  A router holds the tracks of one publisher, a forwarder for each, and the subscribers to
  connect to tracks that come later.
\<close>

subsection \<open>Operations of a router\<close>

definition NewRouter :: "string \<Rightarrow> ref \<Rightarrow> world \<Rightarrow> ref \<times> world" where
  "NewRouter routerID session w =
     (let (r, w) = fresh w
      in (r, upd_router r (\<lambda>_. \<lparr>ro_id = routerID, ro_session = session, ro_tracks = [],
               ro_forwarders = [], ro_subscribers = [], ro_closed = False\<rparr>) w))"

text \<open>Registers the downtrack a subscriber has for a track ID with a forwarder.\<close>

definition connectDownTrack :: "ref \<Rightarrow> ref \<Rightarrow> string \<Rightarrow> world \<Rightarrow> world" where
  "connectDownTrack f sub trackID w =
     (case GetDownTrack w sub trackID of
        Some dt \<Rightarrow> Forwarder_AddDownTrack f dt w
      | None \<Rightarrow> w)"

text \<open>One round of the loop of \<open>AddTrack\<close> over the subscribers.\<close>

definition addTrackTo :: "env \<Rightarrow> ref \<Rightarrow> ref \<Rightarrow> string \<Rightarrow> ref \<Rightarrow> world \<Rightarrow> world" where
  "addTrackTo E track forwarder trackID sub w =
     (case AddDownTrack E sub track w of
        (Some err, w) \<Rightarrow> w
      | (None, w) \<Rightarrow> snd (Negotiate E sub (connectDownTrack forwarder sub trackID w)))"

definition AddTrack :: "env \<Rightarrow> ref \<Rightarrow> ref \<Rightarrow> world \<Rightarrow> world" where
  "AddTrack E r track w =
     (if ro_closed (routers w r) then w
      else (let trackID = tk_trackID (tracks w track);
                w = upd_router r (\<lambda>x. x\<lparr>ro_tracks := gm_put trackID track (ro_tracks x)\<rparr>) w;
                (forwarder, w) = NewForwarder track w;
                w = upd_router r (\<lambda>x. x\<lparr>ro_forwarders := gm_put trackID forwarder (ro_forwarders x)\<rparr>) w;
                subs = rangeRef E w (ro_subscribers (routers w r));
                w = fold (addTrackTo E track forwarder trackID) subs w
            in Broadcast E (ro_session (routers w r)) (ro_id (routers w r)) ''trackAdded''
                 (trackAddedParams (ro_id (routers w r)) (tracks w track)) w))"

definition GetTrack :: "world \<Rightarrow> ref \<Rightarrow> string \<Rightarrow> ref option" where
  "GetTrack w r trackID = gm_get (ro_tracks (routers w r)) trackID"

definition GetTracks :: "world \<Rightarrow> ref \<Rightarrow> (string, ref) gomap" where
  "GetTracks w r = ro_tracks (routers w r)"

definition Router_Forward :: "env \<Rightarrow> ref \<Rightarrow> string \<Rightarrow> rtp_packet \<Rightarrow> string \<Rightarrow> world \<Rightarrow> world" where
  "Router_Forward E r trackID packet layerName w =
     (case gm_get (ro_forwarders (routers w r)) trackID of
        None \<Rightarrow> w
      | Some forwarder \<Rightarrow> Forwarder_Forward E forwarder packet layerName w)"

text \<open>The loop of \<open>Subscribe\<close>, which the first error ends.\<close>

fun subscribeTracks ::
  "env \<Rightarrow> ref \<Rightarrow> ref \<Rightarrow> string list \<Rightarrow> world \<Rightarrow> string option \<times> world" where
  "subscribeTracks E r s [] w = (None, w)"
| "subscribeTracks E r s (trackID # ids) w =
     (case gm_get (ro_tracks (routers w r)) trackID of
        None \<Rightarrow> subscribeTracks E r s ids w
      | Some track \<Rightarrow>
         (case AddDownTrack E s track w of
            (Some err, w) \<Rightarrow> (Some err, w)
          | (None, w) \<Rightarrow>
             subscribeTracks E r s ids
               (case gm_get (ro_forwarders (routers w r)) trackID of
                  Some forwarder \<Rightarrow> connectDownTrack forwarder s trackID w
                | None \<Rightarrow> w)))"

definition Router_Subscribe :: "env \<Rightarrow> ref \<Rightarrow> ref \<Rightarrow> world \<Rightarrow> string option \<times> world" where
  "Router_Subscribe E r s w =
     (let w = upd_router r (\<lambda>x. x\<lparr>ro_subscribers := ref_add s (ro_subscribers x)\<rparr>) w
      in subscribeTracks E r s (rangeStr E w (ro_tracks (routers w r))) w)"

definition Unsubscribe :: "ref \<Rightarrow> ref \<Rightarrow> world \<Rightarrow> world" where
  "Unsubscribe r s w = upd_router r (\<lambda>x. x\<lparr>ro_subscribers := ref_del s (ro_subscribers x)\<rparr>) w"

definition Router_Close :: "env \<Rightarrow> ref \<Rightarrow> world \<Rightarrow> world" where
  "Router_Close E r w =
     (if ro_closed (routers w r) then w
      else (let w = upd_router r (\<lambda>x. x\<lparr>ro_closed := True\<rparr>) w;
                ts = rangeVals E w (ro_tracks (routers w r));
                fs = rangeVals E w (ro_forwarders (routers w r))
            in fold (Forwarder_Close E) fs (fold (TrackReceiver_Close E) ts w)))"

subsection \<open>Subscribing and closing a subscriber\<close>

definition Subscriber_Subscribe :: "env \<Rightarrow> ref \<Rightarrow> ref \<Rightarrow> world \<Rightarrow> string option \<times> world" where
  "Subscriber_Subscribe E s router w =
     (let w = upd_subscriber s (\<lambda>x. x\<lparr>su_routers := ref_add router (su_routers x)\<rparr>) w
      in case Router_Subscribe E router s w of
           (Some err, w) \<Rightarrow> (Some err, w)
         | (None, w) \<Rightarrow> Negotiate E s w)"

definition Subscriber_Close :: "env \<Rightarrow> ref \<Rightarrow> world \<Rightarrow> string option \<times> world" where
  "Subscriber_Close E s w =
     (if su_closed (subscribers w s) then (None, w)
      else (let rs = rangeRef E w (su_routers (subscribers w s));
                dts = rangeVals E w (su_downTracks (subscribers w s));
                w = upd_subscriber s (\<lambda>x. x\<lparr>su_closed := True, su_routers := []\<rparr>) w;
                w = fold (\<lambda>router. Unsubscribe router s) rs w;
                w = fold DownTrack_Close dts w
            in call E (ClosePC (su_pc (subscribers w s))) w))"

lemmas router_defs [go_defs] =
  NewRouter_def connectDownTrack_def addTrackTo_def AddTrack_def GetTrack_def GetTracks_def
  Router_Forward_def Router_Subscribe_def Unsubscribe_def Router_Close_def
  Subscriber_Subscribe_def Subscriber_Close_def

subsection \<open>Closing\<close>

text \<open>Closing tracks and forwarders does not look at routers and subscribers, so the flag of
  their owner may as well be set last.\<close>

lemma rangeVals_upd [simp]:
  "rangeVals E (upd_router r g w) m = rangeVals E w m"
  "rangeVals E (upd_subscriber s h w) m = rangeVals E w m"
  "rangeRef E (upd_router r g w) rs = rangeRef E w rs"
  "rangeRef E (upd_subscriber s h w) rs = rangeRef E w rs"
  by (simp_all add: rangeVals_def rangeStr_def rangeRef_def upd_defs)

lemma LayerReceiver_Close_upd_router:
  "LayerReceiver_Close x (upd_router r g w) = upd_router r g (LayerReceiver_Close x w)"
  by (auto simp: LayerReceiver_Close_def upd_defs Let_def split: option.splits)

lemma closeLayers_upd_router:
  "fold (\<lambda>layer w. LayerReceiver_Close (ly_receiver (layers w layer)) w) ls (upd_router r g w) =
   upd_router r g (fold (\<lambda>layer w. LayerReceiver_Close (ly_receiver (layers w layer)) w) ls w)"
proof (induction ls arbitrary: w)
  case (Cons l ls)
  have "layers (upd_router r g w) = layers w" by (simp add: upd_router_def)
  with Cons show ?case by (simp add: LayerReceiver_Close_upd_router)
qed simp

lemma TrackReceiver_Close_upd_router:
  "TrackReceiver_Close E t (upd_router r g w) = upd_router r g (TrackReceiver_Close E t w)"
proof -
  have comm: "upd_track t h (upd_router r g w) = upd_router r g (upd_track t h w)" for h
    by (simp add: upd_defs)
  have same: "tracks (upd_router r g w) = tracks w" for w
    by (simp add: upd_router_def)
  have pan: "(upd_router r g w)\<lparr>panicked := True\<rparr> = upd_router r g (w\<lparr>panicked := True\<rparr>)" for w
    by (simp add: upd_router_def)
  have comm': "upd_track t h' (upd_router r g (upd_track t h w)) = upd_router r g (upd_track t h' (upd_track t h w))" for h h'
    by (simp add: upd_defs)
  show ?thesis
    by (simp add: TrackReceiver_Close_def Let_def comm comm' same pan closeLayers_upd_router
        split: option.splits)
qed

lemma closeTracks_upd_router:
  "fold (TrackReceiver_Close E) ts (upd_router r g w) = upd_router r g (fold (TrackReceiver_Close E) ts w)"
  by (induction ts arbitrary: w) (simp_all add: TrackReceiver_Close_upd_router)

lemma DownTrack_Close_upd:
  "DownTrack_Close d (upd_router r g w) = upd_router r g (DownTrack_Close d w)"
  "DownTrack_Close d (upd_subscriber s h w) = upd_subscriber s h (DownTrack_Close d w)"
  by (simp_all add: DownTrack_Close_def TrackReceiver_RemoveDownTrack_def upd_defs Let_def)

lemma closeAll_upd:
  "fold DownTrack_Close ds (upd_router r g w) = upd_router r g (fold DownTrack_Close ds w)"
  "fold DownTrack_Close ds (upd_subscriber s h w) = upd_subscriber s h (fold DownTrack_Close ds w)"
  by (induction ds arbitrary: w) (simp_all add: DownTrack_Close_upd)

lemma Forwarder_Close_upd_router:
  "Forwarder_Close E f (upd_router r g w) = upd_router r g (Forwarder_Close E f w)"
proof -
  have comm: "upd_forwarder f h (upd_router r g w) = upd_router r g (upd_forwarder f h w)" for h w
    by (simp add: upd_defs)
  have same: "forwarders (upd_router r g w) = forwarders w" for w
    by (simp add: upd_router_def)
  have pan: "(upd_router r g w)\<lparr>panicked := True\<rparr> = upd_router r g (w\<lparr>panicked := True\<rparr>)" for w
    by (simp add: upd_router_def)
  show ?thesis
    by (simp add: Forwarder_Close_def Let_def comm same pan closeAll_upd split: option.splits)
qed

lemma closeForwarders_upd_router:
  "fold (Forwarder_Close E) fs (upd_router r g w) = upd_router r g (fold (Forwarder_Close E) fs w)"
  by (induction fs arbitrary: w) (simp_all add: Forwarder_Close_upd_router)

lemma Router_Close_eq:
  "Router_Close E r w =
     (if ro_closed (routers w r) then w
      else upd_router r (\<lambda>x. x\<lparr>ro_closed := True\<rparr>)
             (fold (Forwarder_Close E) (rangeVals E w (ro_forwarders (routers w r)))
               (fold (TrackReceiver_Close E) (rangeVals E w (ro_tracks (routers w r))) w)))"
proof -
  let ?w = "upd_router r (\<lambda>x. x\<lparr>ro_closed := True\<rparr>) w"
  have "ro_tracks (routers ?w r) = ro_tracks (routers w r)"
    "ro_forwarders (routers ?w r) = ro_forwarders (routers w r)"
    by (simp_all add: upd_router_def)
  then show ?thesis
    by (simp add: Router_Close_def Let_def closeTracks_upd_router closeForwarders_upd_router)
qed

lemma Unsubscribe_upd_subscriber:
  "Unsubscribe r x (upd_subscriber s h w) = upd_subscriber s h (Unsubscribe r x w)"
  by (simp add: Unsubscribe_def upd_defs)

lemma unsubscribes_upd_subscriber:
  "fold (\<lambda>r. Unsubscribe r x) rs (upd_subscriber s h w) = upd_subscriber s h (fold (\<lambda>r. Unsubscribe r x) rs w)"
  by (induction rs arbitrary: w) (simp_all add: Unsubscribe_upd_subscriber)

lemma subscribers_unsubscribes [simp]: "subscribers (fold (\<lambda>r. Unsubscribe r s) rs w) = subscribers w"
  by (rule same_fold) (simp add: Unsubscribe_def upd_router_def)

lemma Subscriber_Close_eq:
  "Subscriber_Close E s w =
     (if su_closed (subscribers w s) then (None, w)
      else call E (ClosePC (su_pc (subscribers w s)))
             (upd_subscriber s (\<lambda>x. x\<lparr>su_closed := True, su_routers := []\<rparr>)
               (fold DownTrack_Close (rangeVals E w (su_downTracks (subscribers w s)))
                 (fold (\<lambda>r. Unsubscribe r s) (rangeRef E w (su_routers (subscribers w s))) w))))"
proof -
  have "su_pc (subscribers (upd_subscriber s (\<lambda>x. x\<lparr>su_closed := True, su_routers := []\<rparr>) v) s)
      = su_pc (subscribers v s)" for v
    by (simp add: upd_subscriber_def)
  then show ?thesis
    by (simp add: Subscriber_Close_def Let_def unsubscribes_upd_subscriber closeAll_upd)
qed

interpretation trackFamily: closing_family "TrackReceiver_Close E" "\<lambda>t w. tk_closed (tracks w t)" for E
  by unfold_locales (auto simp: TrackReceiver_Close_def upd_track_def Let_def split: option.splits)

interpretation forwarderFamily: closing_family "Forwarder_Close E" "\<lambda>f w. fw_closed (forwarders w f)" for E
  by unfold_locales (auto simp: Forwarder_Close_def upd_forwarder_def Let_def split: option.splits)

lemma tk_closed_DownTrack_Close [simp]:
  "tk_closed (tracks (DownTrack_Close d w) t) = tk_closed (tracks w t)"
  by (simp add: DownTrack_Close_def TrackReceiver_RemoveDownTrack_def upd_dt_def upd_track_def Let_def)

lemma tk_closed_closeAll [simp]:
  "tk_closed (tracks (fold DownTrack_Close ds w) t) = tk_closed (tracks w t)"
  by (rule same_fold) simp

lemma tk_closed_Forwarder_Close [simp]:
  "tk_closed (tracks (Forwarder_Close E f w) t) = tk_closed (tracks w t)"
  by (simp add: Forwarder_Close_def upd_forwarder_def Let_def split: option.splits)

lemma tk_closed_closeForwarders [simp]:
  "tk_closed (tracks (fold (Forwarder_Close E) fs w) t) = tk_closed (tracks w t)"
  by (rule same_fold) simp

subsection \<open>Well-formedness\<close>

lemma NewRouter_ref [simp]: "fst (NewRouter routerID session w) = nextRef w"
  and nextRef_NewRouter [simp]: "nextRef (snd (NewRouter routerID session w)) = Suc (nextRef w)"
  by (simp_all add: NewRouter_def Let_def split_beta)

lemma good_NewRouter: "session < nextRef w \<Longrightarrow> good w (snd (NewRouter routerID session w))"
  unfolding NewRouter_def split_beta Let_def fst_fresh snd_conv
  by (rule routerHeap.good_new) (simp add: router_ok_def upd_router_def)

text \<open>A downtrack found under a track ID fits a forwarder for that track ID.\<close>

lemma good_connectDownTrack:
  assumes "fwTrackID w f = trackID"
  shows "good w (connectDownTrack f s trackID w)"
proof (cases "wf w")
  case True
  show ?thesis
    using assms wf_parts(8) [OF True, of s]
    by (auto simp: connectDownTrack_def GetDownTrack_def subscriber_ok_def good_Forwarder_AddDownTrack
        split: option.splits)
qed (simp add: good_def)

lemma fwTrackID_extends:
  "extends v w \<Longrightarrow> f < nextRef v \<Longrightarrow> fw_trackReceiver (forwarders v f) < nextRef v \<Longrightarrow>
   fwTrackID w f = fwTrackID v f"
  by (simp add: fwTrackID_def extends_fields)

lemma fw_ref: "wf w \<Longrightarrow> fw_trackReceiver (forwarders w f) < nextRef w"
  using wf_parts(6) by (simp add: forwarder_ok_def)

lemma good_addTrackTo:
  assumes sub: "sub < nextRef w" and track: "track < nextRef w" and f: "f < nextRef w"
    and id: "fwTrackID w f = trackID"
  shows "good w (addTrackTo E track f trackID sub w)"
proof -
  let ?w = "snd (AddDownTrack E sub track w)"
  have 1: "good w ?w" by (rule good_AddDownTrack [OF sub track])
  have "good ?w (connectDownTrack f sub trackID ?w)" if "wf w" and "extends w ?w"
    using fwTrackID_extends [OF that(2) f fw_ref [OF that(1)]] id by (simp add: good_connectDownTrack)
  then have 2: "good w (connectDownTrack f sub trackID ?w)"
    using 1 by (auto simp: good_def intro: extends_trans)
  show ?thesis
    unfolding addTrackTo_def split_beta
    using 1 good.frame_trans [OF 2 good_Negotiate [of _ E sub]] by (simp split: option.splits)
qed

text \<open>The first half of \<^const>\<open>AddTrack\<close>, under the router's lock: the track and its new
  forwarder enter the router's maps.\<close>

lemma good_registerTrack:
  assumes track: "track < nextRef w" and opn: "\<not> ro_closed (routers w r)"
  defines "k \<equiv> tk_trackID (tracks w track)"
  defines "w2 \<equiv> snd (NewForwarder track (upd_router r (\<lambda>x. x\<lparr>ro_tracks := gm_put k track (ro_tracks x)\<rparr>) w))"
  defines "w3 \<equiv> upd_router r (\<lambda>x. x\<lparr>ro_forwarders := gm_put k (nextRef w) (ro_forwarders x)\<rparr>) w2"
  shows "good w w3" "fwTrackID w3 (nextRef w) = k" "nextRef w3 = Suc (nextRef w)"
proof -
  define w1 where "w1 = upd_router r (\<lambda>x. x\<lparr>ro_tracks := gm_put k track (ro_tracks x)\<rparr>) w"
  have w1: "good w w1"
    unfolding w1_def
    by (rule routerHeap.good_upd)
       (use opn track in \<open>auto simp: keepsRouter_def router_ok_def upd_router_def fwTrackID_def k_def
          dest!: wf_parts(7) [where x = r] split: if_splits\<close>)
  have w2: "good w1 w2"
    unfolding w2_def w1_def [symmetric] by (rule good_NewForwarder) (use track in \<open>simp add: w1_def\<close>)
  have new: "fw_trackReceiver (forwarders w2 (nextRef w)) = track" "tracks w2 = tracks w"
    "nextRef w2 = Suc (nextRef w)" "\<not> ro_closed (routers w2 r)"
    using opn by (simp_all add: w2_def NewForwarder_def Let_def split_beta upd_defs fresh_def)
  have w3: "good w2 w3"
    unfolding w3_def
  proof (rule routerHeap.good_upd)
    assume "wf w2"
    then have "router_ok w2 r" by (rule wf_parts)
    with new track show "router_ok (upd_router r (\<lambda>x. x\<lparr>ro_forwarders := gm_put k (nextRef w) (ro_forwarders x)\<rparr>) w2) r"
      by (auto simp: router_ok_def upd_router_def fwTrackID_def k_def split: if_splits)
  qed (simp add: keepsRouter_def)
  show "good w w3" by (rule good.frame_trans [OF w1 good.frame_trans [OF w2 w3]])
  show "fwTrackID w3 (nextRef w) = k" "nextRef w3 = Suc (nextRef w)"
    using new by (simp_all add: w3_def fwTrackID_def upd_router_def k_def)
qed

text \<open>Its second half: the loop over the subscribers.\<close>

lemma good_addTrackToAll:
  assumes f: "f < nextRef w" and track: "track < nextRef w" and id: "fwTrackID w f = k"
  shows "good w (fold (addTrackTo E track f k) (rangeRef E w (ro_subscribers (routers w r))) w)"
proof (rule good_fold)
  fix sub t
  assume sub: "sub \<in> set (rangeRef E w (ro_subscribers (routers w r)))"
    and wf: "wf w" "wf t" and e: "extends w t"
  have "sub < nextRef w"
    using sub wf_parts(7) [OF wf(1), of r] by (simp add: router_ok_def)
  moreover have "fwTrackID t f = k"
    using fwTrackID_extends [OF e f fw_ref [OF wf(1)]] id by simp
  ultimately show "good t (addTrackTo E track f k sub t)"
    using extends_lt [OF e] f track by (intro good_addTrackTo) auto
qed

lemma good_AddTrack:
  assumes track: "track < nextRef w"
  shows "good w (AddTrack E r track w)"
proof (cases "ro_closed (routers w r)")
  case False
  define k where "k = tk_trackID (tracks w track)"
  define w2 where "w2 = snd (NewForwarder track (upd_router r (\<lambda>x. x\<lparr>ro_tracks := gm_put k track (ro_tracks x)\<rparr>) w))"
  define w3 where "w3 = upd_router r (\<lambda>x. x\<lparr>ro_forwarders := gm_put k (nextRef w) (ro_forwarders x)\<rparr>) w2"
  define w4 where "w4 = fold (addTrackTo E track (nextRef w) k) (rangeRef E w3 (ro_subscribers (routers w3 r))) w3"
  note w3 = good_registerTrack [OF track False, folded k_def, folded w2_def, folded w3_def]
  have w4: "good w3 w4"
    unfolding w4_def by (rule good_addTrackToAll) (use w3 track in simp_all)
  have "AddTrack E r track w =
      Broadcast E (ro_session (routers w4 r)) (ro_id (routers w4 r)) ''trackAdded''
        (trackAddedParams (ro_id (routers w4 r)) (tracks w4 track)) w4"
    unfolding AddTrack_def Let_def split_beta NewForwarder_ref w4_def w3_def w2_def k_def
    by (simp only: False if_False nextRef_upd)
  then show ?thesis
    using good.frame_trans [OF w3(1) good.frame_trans [OF w4 good_Broadcast]] by simp
qed (simp add: AddTrack_def)

lemma good_Router_Forward: "good w (Router_Forward E r trackID packet layerName w)"
  by (simp add: Router_Forward_def good_Forwarder_Forward split: option.splits)

lemma good_subscribeTracks:
  assumes "s < nextRef w"
  shows "good w (snd (subscribeTracks E r s ids w))"
  using assms
proof (induction ids arbitrary: w)
  case (Cons k ids)
  show ?case
  proof (cases "gm_get (ro_tracks (routers w r)) k")
    case None
    then show ?thesis using Cons by simp
  next
    case (Some track)
    let ?w = "snd (AddDownTrack E s track w)"
    have fs: "routers ?w = routers w" "forwarders ?w = forwarders w"
      "\<And>t. tk_trackID (tracks ?w t) = tk_trackID (tracks w t)"
      by (rule AddDownTrack_frame)+
    have "good w (snd (subscribeTracks E r s (k # ids) w))" if w: "wf w"
    proof -
      have track: "track < nextRef w"
        using wf_parts(7) [OF w, of r] Some by (simp add: router_ok_def)
      have 1: "good w ?w" by (rule good_AddDownTrack [OF Cons.prems track])
      define w2 where "w2 = (case gm_get (ro_forwarders (routers ?w r)) k of
                  Some forwarder \<Rightarrow> connectDownTrack forwarder s k ?w | None \<Rightarrow> ?w)"
      have "good ?w w2"
        using wf_parts(7) [OF w, of r]
        by (auto simp: w2_def fs router_ok_def fwTrackID_def good_connectDownTrack split: option.splits)
      with 1 have 2: "good w w2" by (rule good.frame_trans)
      then have "s < nextRef w2"
        using Cons.prems w by (auto simp: good_def extends_lt)
      with Cons.IH have 3: "good w (snd (subscribeTracks E r s ids w2))"
        using good.frame_trans [OF 2] by blast
      show ?thesis
        using 1 3 by (simp add: Some split_beta w2_def split: option.splits)
    qed
    then show ?thesis by (auto simp: good_def)
  qed
qed simp

lemma good_Router_Subscribe:
  assumes "s < nextRef w"
  shows "good w (snd (Router_Subscribe E r s w))"
proof -
  let ?w = "upd_router r (\<lambda>x. x\<lparr>ro_subscribers := ref_add s (ro_subscribers x)\<rparr>) w"
  have "good w ?w"
    by (rule routerHeap.good_upd)
       (use assms in \<open>auto simp: keepsRouter_def router_ok_def upd_router_def fwTrackID_def
          dest!: wf_parts(7) [where x = r]\<close>)
  moreover have "good ?w (snd (Router_Subscribe E r s w))"
    unfolding Router_Subscribe_def Let_def by (rule good_subscribeTracks) (simp add: assms)
  ultimately show ?thesis by (rule good.frame_trans)
qed

lemma good_Unsubscribe: "good w (Unsubscribe r s w)"
  unfolding Unsubscribe_def
  by (rule routerHeap.good_upd)
     (auto simp: keepsRouter_def router_ok_def upd_router_def fwTrackID_def dest!: wf_parts(7) [where x = r])

lemma good_Router_Close: "good w (Router_Close E r w)"
proof (cases "ro_closed (routers w r)")
  case False
  define ts where "ts = rangeVals E w (ro_tracks (routers w r))"
  define fs where "fs = rangeVals E w (ro_forwarders (routers w r))"
  define w1 where "w1 = fold (Forwarder_Close E) fs (fold (TrackReceiver_Close E) ts w)"
  have w1: "good w w1"
    unfolding w1_def
    by (rule good.frame_trans [of _ "fold (TrackReceiver_Close E) ts w"]; rule good_fold)
       (rule good_TrackReceiver_Close good_Forwarder_Close)+
  have "routers (fold (TrackReceiver_Close E) ts w) = routers w"
    by (rule same_fold) simp
  moreover have "routers w1 = routers (fold (TrackReceiver_Close E) ts w)"
    unfolding w1_def by (rule same_fold) simp
  ultimately have ro: "routers w1 = routers w" by simp
  have closed: "tk_closed (tracks w1 t)" if "gm_get (ro_tracks (routers w r)) k = Some t" for k t
    using trackFamily.fold_closes [of t ts E w] that by (auto simp: w1_def ts_def)
  have closed': "fw_closed (forwarders w1 f)" if "gm_get (ro_forwarders (routers w r)) k = Some f" for k f
    using forwarderFamily.fold_closes [of f fs E] that by (auto simp: w1_def fs_def)
  have "good w1 (upd_router r (\<lambda>x. x\<lparr>ro_closed := True\<rparr>) w1)"
    by (rule routerHeap.good_upd)
       (use closed closed' in \<open>auto simp: keepsRouter_def router_ok_def upd_router_def fwTrackID_def ro
          dest!: wf_parts(7) [where x = r]\<close>)
  with w1 False show ?thesis
    by (auto simp: Router_Close_eq w1_def ts_def fs_def intro: good.frame_trans)
qed (simp add: Router_Close_def)

lemma good_Subscriber_Subscribe:
  assumes "s < nextRef w" and "router < nextRef w"
  shows "good w (snd (Subscriber_Subscribe E s router w))"
proof -
  define w1 where "w1 = upd_subscriber s (\<lambda>x. x\<lparr>su_routers := ref_add router (su_routers x)\<rparr>) w"
  have 1: "good w w1"
    unfolding w1_def
    by (rule subscriberHeap.good_upd)
       (use assms in \<open>auto simp: keepsSubscriber_def subscriber_ok_def upd_subscriber_def dtTrackID_def
          dest!: wf_parts(8) [where x = s]\<close>)
  have 2: "good w (snd (Router_Subscribe E router s w1))"
    by (rule good.frame_trans [OF 1 good_Router_Subscribe]) (simp add: w1_def assms)
  show ?thesis
    using 2 good.frame_trans [OF 2 good_Negotiate [of _ E s]]
    by (simp add: Subscriber_Subscribe_def Let_def split_beta w1_def split: option.splits)
qed

lemma good_Subscriber_Close: "good w (snd (Subscriber_Close E s w))"
proof (cases "su_closed (subscribers w s)")
  case False
  define w1 where "w1 = fold DownTrack_Close (rangeVals E w (su_downTracks (subscribers w s)))
                 (fold (\<lambda>r. Unsubscribe r s) (rangeRef E w (su_routers (subscribers w s))) w)"
  have 1: "good w w1"
    unfolding w1_def
    by (rule good.frame_trans [OF _ good_closeAll], rule good_fold) (rule good_Unsubscribe)
  have su: "subscribers w1 = subscribers w"
    by (simp add: w1_def)
  have closed: "dt_closed (downtracks w1 d)" if "gm_get (su_downTracks (subscribers w s)) k = Some d" for k d
    using that by (auto simp: w1_def)
  have "good w1 (upd_subscriber s (\<lambda>x. x\<lparr>su_closed := True, su_routers := []\<rparr>) w1)"
    by (rule subscriberHeap.good_upd)
       (use closed in \<open>auto simp: keepsSubscriber_def subscriber_ok_def upd_subscriber_def dtTrackID_def su
          dest!: wf_parts(8) [where x = s]\<close>)
  from good.frame_trans [OF good.frame_trans [OF 1 this] good_world(1)] False show ?thesis
    by (simp add: Subscriber_Close_eq w1_def)
qed (simp add: Subscriber_Close_def)

subsection \<open>Connecting a subscriber\<close>

lemma connectDownTrack_frame [simp]:
  "subscribers (connectDownTrack f s k w) = subscribers w"
  "downtracks (connectDownTrack f s k w) = downtracks w"
  "tracks (connectDownTrack f s k w) = tracks w" "layers (connectDownTrack f s k w) = layers w"
  "routers (connectDownTrack f s k w) = routers w"
  "fw_closed (forwarders (connectDownTrack f s k w) x) = fw_closed (forwarders w x)"
  by (simp_all add: connectDownTrack_def Forwarder_AddDownTrack_def upd_forwarder_def split: option.splits)

lemma connectDownTrack_members:
  "d \<in> set (fw_downTracks (forwarders w x)) \<Longrightarrow>
   d \<in> set (fw_downTracks (forwarders (connectDownTrack f s k w) x))"
  by (auto simp: connectDownTrack_def Forwarder_AddDownTrack_def upd_forwarder_def split: option.splits)

lemma connectDownTrack_connects:
  "GetDownTrack w s k = Some d \<Longrightarrow> \<not> fw_closed (forwarders w f) \<Longrightarrow>
   d \<in> set (fw_downTracks (forwarders (connectDownTrack f s k w) f))"
  by (simp add: connectDownTrack_def Forwarder_AddDownTrack_def upd_forwarder_def)

text \<open>What a round of \<open>Subscribe\<close> keeps: the downtracks the subscriber has and the members of
  the forwarders.\<close>

definition connected :: "ref \<Rightarrow> world \<Rightarrow> world \<Rightarrow> bool" where
  "connected s v w \<longleftrightarrow> routers w = routers v \<and> layers w = layers v
     \<and> (\<forall>t. tk_trackID (tracks w t) = tk_trackID (tracks v t) \<and> tk_layers (tracks w t) = tk_layers (tracks v t))
     \<and> su_closed (subscribers w s) = su_closed (subscribers v s)
     \<and> (\<forall>k d. GetDownTrack v s k = Some d \<longrightarrow> GetDownTrack w s k = Some d)
     \<and> (\<forall>f. fw_closed (forwarders w f) = fw_closed (forwarders v f)
          \<and> set (fw_downTracks (forwarders v f)) \<subseteq> set (fw_downTracks (forwarders w f)))"

interpretation connected: frame "connected s" for s
  by unfold_locales (simp_all add: connected_def, blast)

lemma connected_AddDownTrack: "connected s w (snd (AddDownTrack E s t w))"
  using AddDownTrack_frame [where E = E and s = s and track = t and w = w] AddDownTrack_keeps
  by (simp add: connected_def)

lemma connected_connectDownTrack: "connected s w (connectDownTrack f s k w)"
  by (auto simp: connected_def GetDownTrack_def connectDownTrack_members)

lemma GetBestLayer_cong:
  assumes "layers w = layers v" and "tk_layers (tracks w t) = tk_layers (tracks v t)"
  shows "GetBestLayer w t = GetBestLayer v t"
proof -
  have "firstActive w ls ns = firstActive v ls ns" for ls ns
    by (induction ns) (simp_all add: IsActive_def assms split: option.splits)
  then show ?thesis by (simp only: GetBestLayer_def assms)
qed

lemma connected_subscribeTracks:
  "subscribeTracks E r s ids w = (None, w') \<Longrightarrow> connected s w w'"
proof (induction ids arbitrary: w)
  case (Cons k ids)
  show ?case
  proof (cases "gm_get (ro_tracks (routers w r)) k")
    case None
    with Cons show ?thesis by simp
  next
    case (Some track)
    define w1 where "w1 = snd (AddDownTrack E s track w)"
    define w2 where "w2 = (case gm_get (ro_forwarders (routers w1 r)) k of
                  Some forwarder \<Rightarrow> connectDownTrack forwarder s k w1 | None \<Rightarrow> w1)"
    have "subscribeTracks E r s ids w2 = (None, w')"
      using Cons.prems Some by (auto simp: w1_def w2_def split_beta split: option.splits if_splits)
    moreover have "connected s w w2"
      using connected_AddDownTrack [of s w E track]
      by (auto simp: w1_def w2_def intro: connected.frame_trans connected_connectDownTrack split: option.splits)
    ultimately show ?thesis
      using Cons.IH connected.frame_trans by blast
  qed
qed (simp add: connected.frame_refl)

text \<open>One round of the loop of \<open>Subscribe\<close>, when \<open>AddDownTrack\<close> gives no error.\<close>

definition subscribeRound :: "env \<Rightarrow> ref \<Rightarrow> ref \<Rightarrow> string \<Rightarrow> world \<Rightarrow> world" where
  "subscribeRound E r s k w =
     (case gm_get (ro_tracks (routers w r)) k of
        None \<Rightarrow> w
      | Some track \<Rightarrow>
          (let w = snd (AddDownTrack E s track w)
           in case gm_get (ro_forwarders (routers w r)) k of
                Some forwarder \<Rightarrow> connectDownTrack forwarder s k w
              | None \<Rightarrow> w))"

lemma subscribeTracks_round:
  "subscribeTracks E r s (k # ids) w = (None, w') \<Longrightarrow>
   subscribeTracks E r s ids (subscribeRound E r s k w) = (None, w')"
  by (auto simp: subscribeRound_def Let_def split_beta split: option.splits if_splits)

lemma connected_subscribeRound: "connected s w (subscribeRound E r s k w)"
  using connected_AddDownTrack [of s w E]
  by (auto simp: subscribeRound_def Let_def connected.frame_refl intro: connected.frame_trans
      connected_connectDownTrack split: option.splits)

lemma subscribeTracks_connects:
  assumes "subscribeTracks E r s ids w = (None, w')" and "k \<in> set ids"
    and "gm_get (ro_tracks (routers w r)) k = Some t" and "tk_trackID (tracks w t) = k"
    and "gm_get (ro_forwarders (routers w r)) k = Some f"
    and "\<not> su_closed (subscribers w s)" and "GetBestLayer w t \<noteq> None" and "\<not> fw_closed (forwarders w f)"
  shows "\<exists>d. GetDownTrack w' s k = Some d \<and> d \<in> set (fw_downTracks (forwarders w' f))"
  using assms
proof (induction ids arbitrary: w)
  case (Cons j ids)
  define step where "step = subscribeRound E r s j w"
  have rest: "subscribeTracks E r s ids step = (None, w')" and con: "connected s w step"
    using Cons.prems(1) by (auto simp: step_def subscribeTracks_round connected_subscribeRound)
  show ?case
  proof (cases "j = k")
    case True
    define w1 where "w1 = snd (AddDownTrack E s t w)"
    have ok: "AddDownTrack E s t w = (None, w1)"
      using Cons.prems(1,3) True by (auto simp: w1_def split_beta prod_eq_iff split: option.splits if_splits)
    obtain d where d: "GetDownTrack w1 s k = Some d"
      using AddDownTrack_connects [OF ok] Cons.prems by auto
    have fw: "\<not> fw_closed (forwarders w1 f)"
      using Cons.prems(8) AddDownTrack_frame(2) [of E s t w] by (simp add: w1_def)
    have "step = connectDownTrack f s k w1"
      using Cons.prems(3,5) True AddDownTrack_frame(3) [of E s t w]
      by (simp add: step_def subscribeRound_def w1_def)
    then have "GetDownTrack step s k = Some d \<and> d \<in> set (fw_downTracks (forwarders step f))"
      using connectDownTrack_connects [OF d fw] d by (simp add: GetDownTrack_def)
    with connected_subscribeTracks [OF rest] show ?thesis
      by (auto simp: connected_def)
  next
    case False
    have "layers step = layers w" "tk_layers (tracks step t) = tk_layers (tracks w t)"
      using con by (simp_all add: connected_def)
    then have "GetBestLayer step t = GetBestLayer w t" by (rule GetBestLayer_cong)
    with False Cons.IH [OF rest] Cons.prems con show ?thesis
      by (simp add: connected_def)
  qed
qed simp

lemma router_closed_Forward:
  assumes "wf w" and "ro_closed (routers w r)"
  shows "Router_Forward E r trackID packet layerName w = w"
  using wf_parts(7) [OF assms(1), of r] assms
  by (auto simp: Router_Forward_def router_ok_def forwarder_closed_Forward split: option.splits)

lemma ro_closed_Router_Close: "ro_closed (routers (Router_Close E r w) r)"
  by (simp add: Router_Close_eq upd_router_def)

interpretation routerClose: closer "Router_Close E r" "\<lambda>w. ro_closed (routers w r)" wf for E r
  by unfold_locales
     (erule goodD(1) [OF good_Router_Close], rule ro_closed_Router_Close, simp add: Router_Close_def)

interpretation subscriberClose: closer "\<lambda>w. snd (Subscriber_Close E s w)"
    "\<lambda>w. su_closed (subscribers w s)" wf for E s
  by unfold_locales
     (erule goodD(1) [OF good_Subscriber_Close],
      auto simp: Subscriber_Close_eq upd_subscriber_def call_def Let_def)

subsection \<open>Tracks that come later\<close>

lemma connected_connectDownTrack_other: "connected s w (connectDownTrack f x k w)"
  by (auto simp: connected_def GetDownTrack_def connectDownTrack_members)

lemma connected_other: "connected s w (snd (AddDownTrack E sub t w))"
proof (cases "sub = s")
  case False
  then have "subscribers (snd (AddDownTrack E sub t w)) s = subscribers w s"
    using AddDownTrack_frame(1) [of s sub E t w] by simp
  then show ?thesis
    using AddDownTrack_frame(2-10) [where E = E and s = sub and track = t and w = w]
    by (simp add: connected_def GetDownTrack_def)
qed (simp add: connected_AddDownTrack)

lemma connected_negotiation:
  assumes "\<And>x. su_closed (g x) = su_closed x \<and> su_downTracks (g x) = su_downTracks x"
  shows "connected s w (upd_subscriber x g w)"
  using assms by (simp add: connected_def GetDownTrack_def upd_subscriber_def)

lemma connected_call [simp]: "connected s w (snd (call E e w))"
  by (simp add: connected_def GetDownTrack_def call_def Let_def)

lemma connected_doNegotiate: "connected s w (snd (doNegotiate E x w))"
proof -
  define pc where "pc = su_pc (subscribers w x)"
  define w1 where "w1 = snd (call E (CreateOffer pc) w)"
  define w2 where "w2 = snd (call E (SetLocalDescription pc (sdpOf E (hist w) (CreateOffer pc))) w1)"
  have 1: "connected s w w1" "connected s w w2"
    using connected.frame_trans [OF connected_call connected_call] by (simp_all add: w1_def w2_def)
  have "connected s v (resetNegotiationState x v)" for v
    unfolding resetNegotiationState_def by (rule connected_negotiation) simp
  moreover have "connected s v (snd (SendOffer E p offer v))" for v p offer
    by (simp add: SendOffer_def SendNotification_def wsConn_WriteMessage_def connected.frame_refl)
  ultimately show ?thesis
    using 1 connected.frame_trans unfolding doNegotiate_def split_beta Let_def
    by (auto simp: pc_def [symmetric] w1_def [symmetric] w2_def [symmetric] split: option.splits)
qed

lemma connected_Negotiate: "connected s w (snd (Negotiate E x w))"
  unfolding Negotiate_def
  by (auto simp: connected.frame_refl
      intro!: connected_negotiation connected.frame_trans [OF connected_negotiation connected_doNegotiate])

lemma connected_addTrackTo: "connected s w (addTrackTo E track f k sub w)"
  using connected_other [of s w E sub track]
    connected.frame_trans [OF connected.frame_trans [OF connected_other [of s w E sub track]
      connected_connectDownTrack_other] connected_Negotiate]
  by (simp add: addTrackTo_def split_beta split: option.splits)

text \<open>pion's constructors of a local track and an RTP sender succeed.\<close>

definition sendersOk :: "env \<Rightarrow> bool" where
  "sendersOk E \<longleftrightarrow> (\<forall>h codec a b pc t. callErr E h (NewTrackLocal codec a b) = None
                                   \<and> callErr E h (AddTrackToPC pc t) = None)"

lemma AddDownTrack_succeeds: "sendersOk E \<Longrightarrow> fst (AddDownTrack E s t w) = None"
  by (auto simp: AddDownTrack_def NewDownTrack_def Let_def split_beta sendersOk_def
      split: option.splits sum.splits)

lemma addTrackTo_connects:
  assumes "sendersOk E" and "\<not> su_closed (subscribers w s)" and "GetBestLayer w track \<noteq> None"
    and "tk_trackID (tracks w track) = k" and "\<not> fw_closed (forwarders w f)"
  defines "w' \<equiv> addTrackTo E track f k s w"
  shows "\<exists>d. GetDownTrack w' s k = Some d \<and> d \<in> set (fw_downTracks (forwarders w' f))"
proof -
  define w1 where "w1 = snd (AddDownTrack E s track w)"
  have ok: "AddDownTrack E s track w = (None, w1)"
    using AddDownTrack_succeeds [OF assms(1)] by (simp add: w1_def prod_eq_iff)
  obtain d where d: "GetDownTrack w1 s k = Some d"
    using AddDownTrack_connects [OF ok assms(2,3)] assms(4) by auto
  have fw: "\<not> fw_closed (forwarders w1 f)"
    using assms(5) AddDownTrack_frame(2) [of E s track w] by (simp add: w1_def)
  have w': "w' = snd (Negotiate E s (connectDownTrack f s k w1))"
    by (simp add: w'_def addTrackTo_def ok)
  have "connected s (connectDownTrack f s k w1) w'"
    unfolding w' by (rule connected_Negotiate)
  moreover have "GetDownTrack (connectDownTrack f s k w1) s k = Some d"
    using d by (simp add: GetDownTrack_def)
  ultimately show ?thesis
    using connectDownTrack_connects [OF d fw] by (auto simp: connected_def)
qed

lemma addTrackTo_all:
  assumes "sendersOk E" and "s \<in> set subs" and "\<not> su_closed (subscribers w s)"
    and "GetBestLayer w track \<noteq> None" and "tk_trackID (tracks w track) = k"
    and "\<not> fw_closed (forwarders w f)"
  defines "w' \<equiv> fold (addTrackTo E track f k) subs w"
  shows "\<exists>d. GetDownTrack w' s k = Some d \<and> d \<in> set (fw_downTracks (forwarders w' f))"
proof -
  obtain pre post where subs: "subs = pre @ s # post"
    using assms(2) by (auto simp: in_set_conv_decomp)
  define w1 where "w1 = fold (addTrackTo E track f k) pre w"
  define w2 where "w2 = addTrackTo E track f k s w1"
  have w1: "connected s w w1"
    unfolding w1_def by (rule connected.frame_fold) (rule connected_addTrackTo)
  have w': "connected s w2 w'"
    unfolding w'_def w2_def w1_def subs by (simp, rule connected.frame_fold) (rule connected_addTrackTo)
  have "GetBestLayer w1 track = GetBestLayer w track"
    using w1 by (intro GetBestLayer_cong) (simp_all add: connected_def)
  then have "\<exists>d. GetDownTrack w2 s k = Some d \<and> d \<in> set (fw_downTracks (forwarders w2 f))"
    unfolding w2_def using assms(1,3-6) w1 by (intro addTrackTo_connects) (auto simp: connected_def)
  with w' show ?thesis unfolding connected_def by blast
qed

text \<open>What a router gets with a track, whatever happens to the subscribers.\<close>

lemma AddTrack_routers:
  fixes E :: env and w :: world and r track :: ref
  assumes "\<not> ro_closed (routers w r)"
  defines "k \<equiv> tk_trackID (tracks w track)"
  shows "routers (AddTrack E r track w) = (routers w)(r := (routers w r)
    \<lparr>ro_tracks := gm_put k track (ro_tracks (routers w r)),
     ro_forwarders := gm_put k (nextRef w) (ro_forwarders (routers w r))\<rparr>)"
proof -
  define w1 where "w1 = upd_router r (\<lambda>x. x\<lparr>ro_tracks := gm_put k track (ro_tracks x)\<rparr>) w"
  define w2 where "w2 = snd (NewForwarder track w1)"
  define w3 where "w3 = upd_router r (\<lambda>x. x\<lparr>ro_forwarders := gm_put k (nextRef w1) (ro_forwarders x)\<rparr>) w2"
  define w4 where "w4 = fold (addTrackTo E track (nextRef w1) k) (rangeRef E w3 (ro_subscribers (routers w3 r))) w3"
  have "AddTrack E r track w = Broadcast E (ro_session (routers w4 r)) (ro_id (routers w4 r)) ''trackAdded''
        (trackAddedParams (ro_id (routers w4 r)) (tracks w4 track)) w4"
    unfolding AddTrack_def Let_def split_beta NewForwarder_ref w4_def w3_def w2_def w1_def k_def
    by (simp only: assms(1) if_False)
  then obtain h where "AddTrack E r track w = w4\<lparr>hist := h\<rparr>"
    using broadcaster.fold_sends by (metis Broadcast_def)
  moreover have "connected 0 w3 w4"
    unfolding w4_def by (rule connected.frame_fold) (rule connected_addTrackTo)
  ultimately have "routers (AddTrack E r track w) = routers w3"
    by (simp add: connected_def)
  also have "\<dots> = (routers w)(r := (routers w r)
    \<lparr>ro_tracks := gm_put k track (ro_tracks (routers w r)),
     ro_forwarders := gm_put k (nextRef w) (ro_forwarders (routers w r))\<rparr>)"
    by (simp add: w3_def w2_def w1_def NewForwarder_def Let_def split_beta upd_defs fresh_def fun_eq_iff)
  finally show ?thesis .
qed

subsection \<open>Properties\<close>

text \<open>A subscription connects the subscriber to what is there. When subscribing an open
  subscriber to a router returns no error, then for every track of the router that has a
  layer to start from and an open forwarder, the subscriber has a downtrack under the track's
  ID, and it is in the forwarder's set; and the router remembers the subscriber for tracks
  that come later.\<close>

theorem Router_Subscribe_connects:
  assumes "wf w" and ok: "Router_Subscribe E r s w = (None, w')" and "\<not> su_closed (subscribers w s)"
    and t: "gm_get (ro_tracks (routers w r)) k = Some t" and "GetBestLayer w t \<noteq> None"
    and f: "gm_get (ro_forwarders (routers w r)) k = Some f" and "\<not> fw_closed (forwarders w f)"
  shows "s \<in> set (ro_subscribers (routers w' r))
    \<and> (\<exists>d. GetDownTrack w' s k = Some d \<and> d \<in> set (fw_downTracks (forwarders w' f)))"
proof -
  define w1 where "w1 = upd_router r (\<lambda>x. x\<lparr>ro_subscribers := ref_add s (ro_subscribers x)\<rparr>) w"
  define ids where "ids = rangeStr E w1 (ro_tracks (routers w1 r))"
  have st: "subscribeTracks E r s ids w1 = (None, w')"
    using ok by (simp add: Router_Subscribe_def Let_def w1_def ids_def)
  have same: "layers w1 = layers w" "tracks w1 = tracks w" "forwarders w1 = forwarders w"
    "subscribers w1 = subscribers w" "ro_tracks (routers w1 r) = ro_tracks (routers w r)"
    "ro_forwarders (routers w1 r) = ro_forwarders (routers w r)" "s \<in> set (ro_subscribers (routers w1 r))"
    by (simp_all add: w1_def upd_router_def)
  have "GetBestLayer w1 t = GetBestLayer w t"
    by (rule GetBestLayer_cong) (simp_all add: same)
  moreover have "k \<in> set ids" and "tk_trackID (tracks w t) = k"
    using t wf_parts(7) [OF assms(1), of r] by (auto simp: ids_def same router_ok_def set_gm_keys)
  ultimately show ?thesis
    using subscribeTracks_connects [OF st, of k t f] connected_subscribeTracks [OF st] assms
    by (simp add: same connected_def)
qed

text \<open>A closed router is silent. After \<open>Close\<close> on any well-formed store, no packet of any
  track is forwarded, no track is added, all tracks and forwarders of the router are closed
  with the downtracks these fed, and closing again changes nothing.\<close>

theorem closed_router_silent:
  fixes E :: env and r :: ref and w :: world
  assumes "wf w"
  defines "w' \<equiv> Router_Close E r w"
  shows "wf w' \<and> Router_Forward E r trackID packet layerName w' = w' \<and> AddTrack E r track w' = w'
    \<and> (\<forall>t\<in>set (gm_vals (ro_tracks (routers w' r))). tk_closed (tracks w' t))
    \<and> (\<forall>f\<in>set (gm_vals (ro_forwarders (routers w' r))). fw_closed (forwarders w' f)
          \<and> (\<forall>d\<in>set (fw_downTracks (forwarders w' f)). dt_closed (downtracks w' d)))
    \<and> (Router_Close E r ^^ Suc n) w = w'"
proof -
  have w': "wf w'" unfolding w'_def by (rule routerClose.cls_inv) fact
  have closed: "ro_closed (routers w' r)" unfolding w'_def by (rule routerClose.cls_closes)
  have ok: "router_ok w' r" by (rule wf_parts(7) [OF w'])
  have t: "\<forall>t\<in>set (gm_vals (ro_tracks (routers w' r))). tk_closed (tracks w' t)"
    using ok closed by (auto simp: router_ok_def gm_vals_iff)
  have f: "\<forall>f\<in>set (gm_vals (ro_forwarders (routers w' r))). fw_closed (forwarders w' f)"
    using ok closed by (auto simp: router_ok_def gm_vals_iff)
  then have d: "\<forall>f\<in>set (gm_vals (ro_forwarders (routers w' r))).
      \<forall>d\<in>set (fw_downTracks (forwarders w' f)). dt_closed (downtracks w' d)"
    using wf_parts(6) [OF w'] by (auto simp: forwarder_ok_def)
  show ?thesis
    using w' closed t f d router_closed_Forward [OF w' closed, of E trackID packet layerName]
      routerClose.cls_iterated [of n E r w]
    by (simp add: AddTrack_def w'_def)
qed


text \<open>The example track in a router (reference 4) with its forwarder (reference 5).\<close>

definition exampleRouter :: world where
  "exampleRouter = AddTrack env0 4 1 (snd (NewRouter ''ann'' 0 exampleTrack))"

lemma wf_exampleRouter: "wf exampleRouter"
proof -
  have "good exampleTrack exampleRouter"
    unfolding exampleRouter_def
    by (rule good.frame_trans [OF good_NewRouter good_AddTrack]) (simp_all add: nextRef_exampleTrack)
  then show ?thesis using wf_exampleTrack by (rule goodD(1))
qed

lemmas example_eval =
  exampleRouter_def exampleTrack_def track_defs downtrack_defs forwarder_defs notify_defs
  subscriber_defs router_defs upd_defs world_defs world0_def gm_get_def gm_put_def gm_keys_def
  LayerMid_def LayerLow_def LayerHigh_def LayerDefault_def env0_def GetBestLayer_def
  zeroTrackRemote_def LayerReceiver_SSRC_def Codec_def Let_def ref_add_def rangeStr_def rangeRef_def
  range_order_def

lemma exampleRouter_facts:
  "gm_get (ro_tracks (routers exampleRouter 4)) ''cam'' = Some 1"
  "gm_get (ro_forwarders (routers exampleRouter 4)) ''cam'' = Some 5"
  "\<not> fw_closed (forwarders exampleRouter 5)" "\<not> su_closed (subscribers exampleRouter 0)"
  "GetBestLayer exampleRouter 1 \<noteq> None"
  "gm_vals (ro_tracks (routers exampleRouter 4)) = [1]"
  by (simp_all add: example_eval gm_vals_def eval_nat_numeral)

lemma exampleRouter_subscribe: "fst (Router_Subscribe env0 4 0 exampleRouter) = None"
  by (simp add: example_eval eval_nat_numeral)

theorem Router_Subscribe_connects_witness:
  "\<exists>d. GetDownTrack (snd (Router_Subscribe env0 4 0 exampleRouter)) 0 ''cam'' = Some d
     \<and> d \<in> set (fw_downTracks (forwarders (snd (Router_Subscribe env0 4 0 exampleRouter)) 5))"
proof -
  have "Router_Subscribe env0 4 0 exampleRouter = (None, snd (Router_Subscribe env0 4 0 exampleRouter))"
    using exampleRouter_subscribe by (simp add: prod_eq_iff)
  from Router_Subscribe_connects [OF wf_exampleRouter this exampleRouter_facts(4,1,5,2,3)]
  show ?thesis by blast
qed

theorem closed_router_silent_witness:
  "Router_Forward env0 4 ''cam'' examplePacket LayerHigh (Router_Close env0 4 exampleRouter)
     = Router_Close env0 4 exampleRouter"
  using closed_router_silent [OF wf_exampleRouter, where E = env0 and r = 4 and trackID = "''cam''"
      and packet = examplePacket and layerName = LayerHigh] by blast

text \<open>The same router with subscriber 0 waiting, before its track.\<close>

definition exampleWaiting :: world where
  "exampleWaiting = snd (Router_Subscribe env0 4 0 (snd (NewRouter ''ann'' 0 exampleTrack)))"

lemma wf_exampleWaiting: "wf exampleWaiting"
proof -
  have "good exampleTrack exampleWaiting"
    unfolding exampleWaiting_def
    by (rule good.frame_trans [OF good_NewRouter good_Router_Subscribe]) (simp_all add: nextRef_exampleTrack)
  then show ?thesis using wf_exampleTrack by (rule goodD(1))
qed

lemma exampleWaiting_facts:
  "\<not> ro_closed (routers exampleWaiting 4)" "1 < nextRef exampleWaiting"
  "GetBestLayer exampleWaiting 1 \<noteq> None" "0 \<in> set (ro_subscribers (routers exampleWaiting 4))"
  "\<not> su_closed (subscribers exampleWaiting 0)" "tk_trackID (tracks exampleWaiting 1) = ''cam''"
  by (simp_all add: exampleWaiting_def example_eval eval_nat_numeral)

lemma sendersOk_env0: "sendersOk env0"
  by (simp add: sendersOk_def env0_def)


subsection \<open>What subscribing does to a track ID that is taken\<close>

text \<open>
  Downtracks are found by track ID alone. A subscriber that already has one under an ID gets
  no other: if it is closed, as after its publisher closed and published again, it stays
  closed and nothing is delivered; if it belongs to another publisher's track, it is added to
  the new track's forwarder and carries the packets of both.
\<close>

theorem republished_track_lost:
  assumes "wf w" and "s < nextRef w" and "Router_Subscribe E r s w = (None, w')"
    and d: "GetDownTrack w s k = Some d" and "dt_closed (downtracks w d)"
  shows "GetDownTrack w' s k = Some d \<and> dt_closed (downtracks w' d)"
proof -
  have "connected s (upd_router r (\<lambda>x. x\<lparr>ro_subscribers := ref_add s (ro_subscribers x)\<rparr>) w) w'"
    by (rule connected_subscribeTracks) (use assms(3) in \<open>simp add: Router_Subscribe_def Let_def\<close>)
  then have "GetDownTrack w' s k = Some d"
    using d by (simp add: connected_def GetDownTrack_def upd_router_def)
  moreover have "extends w w'"
    using good_Router_Subscribe [OF assms(2), of E r] assms(1,3) by (simp add: good_def)
  moreover have "d < nextRef w"
    using wf_parts(8) [OF assms(1), of s] d by (simp add: subscriber_ok_def GetDownTrack_def)
  ultimately show ?thesis
    using assms(5) extends_fields(8) by blast
qed

theorem shared_track_ID:
  assumes "wf w" and "Router_Subscribe E r s w = (None, w')" and "\<not> su_closed (subscribers w s)"
    and "gm_get (ro_tracks (routers w r)) k = Some t" and "GetBestLayer w t \<noteq> None"
    and "gm_get (ro_forwarders (routers w r)) k = Some f" and "\<not> fw_closed (forwarders w f)"
    and d: "GetDownTrack w s k = Some d"
  shows "d \<in> set (fw_downTracks (forwarders w' f))"
proof -
  define w1 where "w1 = upd_router r (\<lambda>x. x\<lparr>ro_subscribers := ref_add s (ro_subscribers x)\<rparr>) w"
  have st: "subscribeTracks E r s (rangeStr E w1 (ro_tracks (routers w1 r))) w1 = (None, w')"
    using assms(2) by (simp add: Router_Subscribe_def Let_def w1_def)
  have same: "layers w1 = layers w" "tracks w1 = tracks w" "forwarders w1 = forwarders w"
    "subscribers w1 = subscribers w" "ro_tracks (routers w1 r) = ro_tracks (routers w r)"
    "ro_forwarders (routers w1 r) = ro_forwarders (routers w r)"
    by (simp_all add: w1_def upd_router_def)
  have "GetBestLayer w1 t = GetBestLayer w t"
    by (rule GetBestLayer_cong) (simp_all add: same)
  moreover have "tk_trackID (tracks w t) = k"
    using wf_parts(7) [OF assms(1), of r] assms(4) by (simp add: router_ok_def)
  ultimately obtain d' where "GetDownTrack w' s k = Some d'" "d' \<in> set (fw_downTracks (forwarders w' f))"
    using subscribeTracks_connects [OF st, of k t f] assms(3-7) by (auto simp: same set_gm_keys)
  moreover have "GetDownTrack w' s k = Some d"
    using connected_subscribeTracks [OF st] d by (simp add: connected_def GetDownTrack_def same)
  ultimately show ?thesis by simp
qed

subsection \<open>Subscribing after closing\<close>

lemma subscribeTracks_closed:
  "su_closed (subscribers w s) \<Longrightarrow> fst (subscribeTracks E r s ids w) = None
     \<and> routers (snd (subscribeTracks E r s ids w)) = routers w
     \<and> subscribers (snd (subscribeTracks E r s ids w)) = subscribers w"
proof (induction ids arbitrary: w)
  case (Cons k ids)
  define v where "v = (case gm_get (ro_forwarders (routers w r)) k of
      Some forwarder \<Rightarrow> connectDownTrack forwarder s k w | None \<Rightarrow> w)"
  have v: "subscribers v = subscribers w" "routers v = routers w"
    by (simp_all add: v_def split: option.splits)
  from Cons.IH [of v] Cons.prems v show ?case
    by (cases "gm_get (ro_tracks (routers w r)) k") (simp_all add: Cons.IH AddDownTrack_def v_def)
qed simp

text \<open>A subscriber that is closed can still subscribe: it is told that this succeeded and is
  registered with the router, and closing it again does not take it out any more.\<close>

theorem closed_subscriber_registers:
  fixes E :: env and w :: world and s r :: ref
  assumes "su_closed (subscribers w s)"
  defines "w' \<equiv> snd (Subscriber_Subscribe E s r w)"
  shows "fst (Subscriber_Subscribe E s r w) = None \<and> s \<in> set (ro_subscribers (routers w' r))
    \<and> Subscriber_Close E s w' = (None, w')"
proof -
  define w1 where "w1 = upd_router r (\<lambda>x. x\<lparr>ro_subscribers := ref_add s (ro_subscribers x)\<rparr>)
      (upd_subscriber s (\<lambda>x. x\<lparr>su_routers := ref_add r (su_routers x)\<rparr>) w)"
  have w1: "su_closed (subscribers w1 s)" "s \<in> set (ro_subscribers (routers w1 r))"
    using assms(1) by (simp_all add: w1_def upd_router_def upd_subscriber_def)
  obtain e w2 where st: "subscribeTracks E r s (rangeStr E w1 (ro_tracks (routers w1 r))) w1 = (e, w2)"
    by fastforce
  with subscribeTracks_closed [OF w1(1), of E r "rangeStr E w1 (ro_tracks (routers w1 r))"]
  have "e = None" "routers w2 = routers w1" "subscribers w2 = subscribers w1" by simp_all
  moreover have "Subscriber_Subscribe E s r w = (case subscribeTracks E r s (rangeStr E w1 (ro_tracks (routers w1 r))) w1 of
      (Some err, w) \<Rightarrow> (Some err, w) | (None, w) \<Rightarrow> Negotiate E s w)"
    unfolding Subscriber_Subscribe_def Router_Subscribe_def Let_def w1_def ..
  ultimately have "Subscriber_Subscribe E s r w = (None, w2)" "su_closed (subscribers w2 s)"
    using st w1 by (simp_all add: Negotiate_def)
  then show ?thesis
    using w1(2) \<open>routers w2 = routers w1\<close> by (simp add: w'_def Subscriber_Close_def)
qed

end
