(* ===== verification/Publisher.thy ===== *)
theory Publisher
  imports Router
begin

section \<open>Publishers (\<open>publisher.go\<close>)\<close>

text \<open>
  The upstream side of a peer: its tracks by track ID, the router it fills, and one reading
  goroutine per layer. The callbacks the constructor installs on the peer connection are
  operations of their own, run when pion calls them; the one for data messages, which
  broadcasts, is in theory \<open>Session\<close>.
\<close>

text \<open>\<open>SFU.NewPeerConnection\<close>: the new connection is a fresh reference.\<close>

definition NewPeerConnection :: "env \<Rightarrow> world \<Rightarrow> (string + ref) \<times> world" where
  "NewPeerConnection E w =
     (case call E (NewPC (ICEServers (sfu_config w))) w of
        (Some err, w) \<Rightarrow> (Inl err, w)
      | (None, w) \<Rightarrow> (let (pc, w) = fresh w in (Inr pc, w)))"

text \<open>The states of a peer connection that the callbacks tell apart.\<close>

datatype pc_state = PCFailed | PCClosed | PCOther

definition newPublisher :: "env \<Rightarrow> ref \<Rightarrow> world \<Rightarrow> (string + ref) \<times> world" where
  "newPublisher E peer w =
     (case NewPeerConnection E w of
        (Inl err, w) \<Rightarrow> (Inl err, w)
      | (Inr pc, w) \<Rightarrow>
         (let (router, w) = NewRouter (pe_id (peers w peer)) (pe_session (peers w peer)) w;
              (p, w) = fresh w
          in (Inr p, upd_publisher p (\<lambda>_. \<lparr>pu_peer = peer, pu_pc = pc, pu_router = router,
                       pu_tracks = [], pu_closed = False\<rparr>) w)))"

definition layerNameOf :: "TrackRemote \<Rightarrow> string" where
  "layerNameOf remoteTrack =
     (if rt_RID remoteTrack = '''' then LayerDefault else rt_RID remoteTrack)"

definition onTrack :: "env \<Rightarrow> ref \<Rightarrow> TrackRemote \<Rightarrow> world \<Rightarrow> world" where
  "onTrack E p remoteTrack w =
     (if pu_closed (publishers w p) then w
      else (let trackID = rt_ID remoteTrack;
                layerName = layerNameOf remoteTrack;
                found = gm_get (pu_tracks (publishers w p)) trackID;
                (track, w) = (case found of
                   Some track \<Rightarrow> (track, w)
                 | None \<Rightarrow>
                    (let (track, w) = NewTrackReceiver trackID (rt_StreamID remoteTrack)
                                        (rt_Kind remoteTrack) w
                     in (track, upd_publisher p
                           (\<lambda>x. x\<lparr>pu_tracks := gm_put trackID track (pu_tracks x)\<rparr>) w)));
                (receiver, w) = NewLayerReceiver remoteTrack layerName w;
                w = SetPeerConnection receiver (pu_pc (publishers w p)) w;
                w = AddLayer track layerName receiver w;
                w = (if found = None
                     then (let w = AddTrack E (pu_router (publishers w p)) track w;
                               peer = peers w (pu_peer (publishers w p))
                           in AddRouter (pe_session peer) (pe_id peer)
                                (pu_router (publishers w p)) w)
                     else w)
            in spawn (ReadRTP p receiver track layerName) w))"

text \<open>One round of \<open>readRTP\<close>; when reading fails the deferred \<open>Close\<close> runs and the goroutine
  ends (\<open>False\<close>).\<close>

definition readRTP_round :: "env \<Rightarrow> ref \<Rightarrow> ref \<Rightarrow> ref \<Rightarrow> string \<Rightarrow> world \<Rightarrow> bool \<times> world" where
  "readRTP_round E p receiver track layerName w =
     (case LayerReceiver_ReadRTP E receiver w of
        (Inl err, w) \<Rightarrow> (False, LayerReceiver_Close receiver w)
      | (Inr packet, w) \<Rightarrow>
          (True, Router_Forward E (pu_router (publishers w p)) (tk_trackID (tracks w track))
                   packet layerName w))"

definition Publisher_HandleOffer :: "env \<Rightarrow> ref \<Rightarrow> string \<Rightarrow> world \<Rightarrow> (string + string) \<times> world" where
  "Publisher_HandleOffer E p offer w =
     (let pc = pu_pc (publishers w p)
      in case call E (SetRemoteDescription pc offer) w of
           (Some err, w) \<Rightarrow> (Inl err, w)
         | (None, w1) \<Rightarrow>
            (let answer = sdpOf E (hist w1) (CreateAnswer pc)
             in case call E (CreateAnswer pc) w1 of
                  (Some err, w) \<Rightarrow> (Inl err, w)
                | (None, w) \<Rightarrow>
                   (case call E (SetLocalDescription pc answer) w of
                      (Some err, w) \<Rightarrow> (Inl err, w)
                    | (None, w) \<Rightarrow> (Inr answer, w))))"

definition Publisher_AddICECandidate :: "env \<Rightarrow> ref \<Rightarrow> string \<Rightarrow> world \<Rightarrow> string option \<times> world" where
  "Publisher_AddICECandidate E p candidate w =
     call E (AddICE (pu_pc (publishers w p)) candidate) w"

definition Publisher_Close :: "env \<Rightarrow> ref \<Rightarrow> world \<Rightarrow> string option \<times> world" where
  "Publisher_Close E p w =
     (if pu_closed (publishers w p) then (None, w)
      else (let w = upd_publisher p (\<lambda>x. x\<lparr>pu_closed := True\<rparr>) w;
                w = fold (TrackReceiver_Close E) (rangeVals E w (pu_tracks (publishers w p))) w;
                w = Router_Close E (pu_router (publishers w p)) w
            in call E (ClosePC (pu_pc (publishers w p))) w))"

text \<open>The callbacks of \<open>newPublisher\<close>.\<close>

definition Publisher_onICECandidate :: "env \<Rightarrow> ref \<Rightarrow> string option \<Rightarrow> world \<Rightarrow> world" where
  "Publisher_onICECandidate E p c w =
     snd (SendCandidate E (pu_peer (publishers w p)) c ''publisher'' w)"

definition Publisher_onConnectionStateChange :: "env \<Rightarrow> ref \<Rightarrow> pc_state \<Rightarrow> world \<Rightarrow> world" where
  "Publisher_onConnectionStateChange E p state w =
     (if state = PCFailed \<or> state = PCClosed then snd (Publisher_Close E p w) else w)"

lemmas publisher_defs [go_defs] =
  NewPeerConnection_def newPublisher_def onTrack_def readRTP_round_def
  Publisher_HandleOffer_def Publisher_AddICECandidate_def Publisher_Close_def
  Publisher_onICECandidate_def Publisher_onConnectionStateChange_def

subsection \<open>Well-formedness\<close>

lemma NewPeerConnection_cases:
  "NewPeerConnection E w = (case fst (call E (NewPC (ICEServers (sfu_config w))) w) of
      Some err \<Rightarrow> (Inl err, snd (call E (NewPC (ICEServers (sfu_config w))) w))
    | None \<Rightarrow> (Inr (nextRef (snd (call E (NewPC (ICEServers (sfu_config w))) w))), snd (fresh (snd (call E (NewPC (ICEServers (sfu_config w))) w)))))"
  by (simp add: NewPeerConnection_def split_beta split: option.splits)

lemma good_NewPeerConnection: "good w (snd (NewPeerConnection E w))"
  using good.frame_trans [OF good_world(1) good_world(3)]
  by (simp add: NewPeerConnection_cases split: option.splits)

lemma NewPeerConnection_frame [simp]:
  "peers (snd (NewPeerConnection E w)) = peers w"
  "nextRef w \<le> nextRef (snd (NewPeerConnection E w))"
  by (simp_all add: NewPeerConnection_cases call_def fresh_def Let_def split: option.splits)

lemma good_newPublisher:
  assumes "peer < nextRef w"
  shows "good w (snd (newPublisher E peer w))"
proof (cases "NewPeerConnection E w")
  case (Pair r w1)
  have w1: "good w w1" and n1: "nextRef w \<le> nextRef w1" and p1: "peers w1 = peers w"
    using good_NewPeerConnection [of w E] NewPeerConnection_frame [where E = E and w = w] Pair by simp_all
  show ?thesis
  proof (cases r)
    case (Inl err)
    then show ?thesis using w1 Pair by (simp add: newPublisher_def)
  next
    case (Inr pc)
    define w2 where "w2 = snd (NewRouter (pe_id (peers w1 peer)) (pe_session (peers w1 peer)) w1)"
    have id: "ro_id (routers w2 (nextRef w1)) = pe_id (peers w2 peer)"
      by (simp add: w2_def NewRouter_def Let_def split_beta upd_router_def fresh_def)
    have w2: "good w1 w2" if "wf w1"
      unfolding w2_def
      by (rule good_NewRouter) (use wf_parts(10) [OF that, of peer] in \<open>simp add: peer_ok_def\<close>)
    have n2: "nextRef w2 = Suc (nextRef w1)" by (simp add: w2_def)
    have w3: "good w2 (upd_publisher (nextRef w2) (\<lambda>_. \<lparr>pu_peer = peer, pu_pc = pc,
        pu_router = nextRef w1, pu_tracks = [], pu_closed = False\<rparr>) (snd (fresh w2)))"
      by (rule publisherHeap.good_new)
         (use assms n1 id in \<open>simp add: publisher_ok_def upd_publisher_def n2 fresh_def\<close>)
    have "good w (snd (newPublisher E peer w))" if "wf w"
      using good.frame_trans [OF w1 good.frame_trans [OF w2 w3]] goodD(1) [OF w1 that] Pair Inr
      by (simp add: newPublisher_def split_beta Let_def w2_def)
    then show ?thesis by (auto simp: good_def)
  qed
qed

text \<open>What the new publisher is.\<close>

lemma newPublisher_result:
  assumes "newPublisher E peer w = (Inr p, w')"
  shows "nextRef w \<le> p \<and> p < nextRef w' \<and> peers w' = peers w \<and> sessions w' = sessions w
    \<and> sfu_sessions w' = sfu_sessions w \<and> \<not> pu_closed (publishers w' p) \<and> pu_peer (publishers w' p) = peer
    \<and> nextRef w \<le> pu_router (publishers w' p) \<and> pu_router (publishers w' p) < nextRef w'
    \<and> ro_id (routers w' (pu_router (publishers w' p))) = pe_id (peers w peer)
    \<and> ro_session (routers w' (pu_router (publishers w' p))) = pe_session (peers w peer)
    \<and> \<not> ro_closed (routers w' (pu_router (publishers w' p)))"
  using assms
  by (auto simp: newPublisher_def NewPeerConnection_cases NewRouter_def Let_def split_beta upd_defs
      fresh_def call_def split: option.splits)

lemma newPublisher_frame:
  fixes E :: env and peer :: ref and w :: world
  defines "w' \<equiv> snd (newPublisher E peer w)"
  shows "peers w' = peers w" "sessions w' = sessions w" "sfu_sessions w' = sfu_sessions w"
  unfolding w'_def
  by (auto simp: newPublisher_def NewPeerConnection_cases NewRouter_def Let_def split_beta upd_defs
      fresh_def call_def split: option.splits)


text \<open>The track a publisher has for a track ID, made when it has none.\<close>

definition trackFor :: "ref \<Rightarrow> TrackRemote \<Rightarrow> world \<Rightarrow> ref \<times> world" where
  "trackFor p remoteTrack w =
     (case gm_get (pu_tracks (publishers w p)) (rt_ID remoteTrack) of
        Some track \<Rightarrow> (track, w)
      | None \<Rightarrow>
          (let (track, w) = NewTrackReceiver (rt_ID remoteTrack) (rt_StreamID remoteTrack)
                              (rt_Kind remoteTrack) w
           in (track, upd_publisher p
                 (\<lambda>x. x\<lparr>pu_tracks := gm_put (rt_ID remoteTrack) track (pu_tracks x)\<rparr>) w)))"

lemma onTrack_eq:
  "onTrack E p remoteTrack w =
     (if pu_closed (publishers w p) then w
      else (let (track, w1) = trackFor p remoteTrack w;
                (receiver, w2) = NewLayerReceiver remoteTrack (layerNameOf remoteTrack) w1;
                w3 = SetPeerConnection receiver (pu_pc (publishers w2 p)) w2;
                w4 = AddLayer track (layerNameOf remoteTrack) receiver w3;
                w5 = (if gm_get (pu_tracks (publishers w p)) (rt_ID remoteTrack) = None
                      then (let w = AddTrack E (pu_router (publishers w4 p)) track w4;
                                peer = peers w (pu_peer (publishers w p))
                            in AddRouter (pe_session peer) (pe_id peer) (pu_router (publishers w p)) w)
                      else w4)
            in spawn (ReadRTP p receiver track (layerNameOf remoteTrack)) w5))"
  by (simp add: onTrack_def trackFor_def Let_def split_beta split: option.splits)

lemma good_trackFor:
  "good w (snd (trackFor p remoteTrack w))"
proof (cases "gm_get (pu_tracks (publishers w p)) (rt_ID remoteTrack)")
  case None
  define w1 where "w1 = snd (NewTrackReceiver (rt_ID remoteTrack) (rt_StreamID remoteTrack) (rt_Kind remoteTrack) w)"
  have n: "nextRef w1 = Suc (nextRef w)" "tk_trackID (tracks w1 (nextRef w)) = rt_ID remoteTrack"
    by (simp_all add: w1_def NewTrackReceiver_def Let_def split_beta upd_track_def)
  have "good w1 (upd_publisher p (\<lambda>x. x\<lparr>pu_tracks := gm_put (rt_ID remoteTrack) (nextRef w) (pu_tracks x)\<rparr>) w1)"
    by (rule publisherHeap.good_upd)
       (use n in \<open>auto simp: keepsPublisher_def publisher_ok_def upd_publisher_def
          dest!: wf_parts(9) [where x = p] split: if_splits\<close>)
  then show ?thesis
    using good.frame_trans [OF good_NewTrackReceiver] None by (simp add: trackFor_def split_beta Let_def w1_def)
qed (simp add: trackFor_def)

lemma trackFor_ref:
  assumes "wf w"
  shows "fst (trackFor p remoteTrack w) < nextRef (snd (trackFor p remoteTrack w))"
  using wf_parts(9) [OF assms, of p]
  by (auto simp: trackFor_def publisher_ok_def split_beta Let_def split: option.splits)

text \<open>The three parts of \<^const>\<open>onTrack\<close> after the track is found: the new layer receiver, the
  publication of a new track, the reading goroutine.\<close>

lemma good_receiveLayer:
  fixes w :: world and remoteTrack :: TrackRemote and pc t :: ref
  defines "r \<equiv> nextRef w"
  defines "w4 \<equiv> AddLayer t (layerNameOf remoteTrack) r
      (SetPeerConnection r pc (snd (NewLayerReceiver remoteTrack (layerNameOf remoteTrack) w)))"
  shows "good w w4" "wf w \<Longrightarrow> r < nextRef w4"
proof -
  define w3 where "w3 = SetPeerConnection r pc (snd (NewLayerReceiver remoteTrack (layerNameOf remoteTrack) w))"
  have 3: "good w w3"
    unfolding w3_def by (rule good.frame_trans [OF good_NewLayerReceiver good_SetPeerConnection])
  have n: "r < nextRef w3"
    by (simp add: w3_def r_def SetPeerConnection_def)
  have 4: "good w3 w4"
    unfolding w4_def w3_def [symmetric] by (rule good_AddLayer) (rule n)
  show "good w w4" by (rule good.frame_trans [OF 3 4])
  show "wf w \<Longrightarrow> r < nextRef w4"
    using goodD(2) [OF 4 goodD(1) [OF 3]] n by (simp add: extends_lt)
qed

lemma good_publishTrack:
  fixes E :: env and p t :: ref and w :: world
  assumes t: "t < nextRef w"
  defines "w5 \<equiv> AddTrack E (pu_router (publishers w p)) t w"
  shows "good w (AddRouter (pe_session (peers w5 (pu_peer (publishers w5 p))))
      (pe_id (peers w5 (pu_peer (publishers w5 p)))) (pu_router (publishers w5 p)) w5)"
proof (rule good_then)
  show "good w w5"
    unfolding w5_def by (rule good_AddTrack) (rule t)
next
  assume "wf w5"
  then have "publisher_ok w5 p" by (rule wf_parts)
  then show "good w5 (AddRouter (pe_session (peers w5 (pu_peer (publishers w5 p))))
      (pe_id (peers w5 (pu_peer (publishers w5 p)))) (pu_router (publishers w5 p)) w5)"
    by (intro good_AddRouter) (simp_all add: publisher_ok_def)
qed

lemma good_onTrack:
  assumes p: "p < nextRef w"
  shows "good w (onTrack E p remoteTrack w)"
proof (cases "pu_closed (publishers w p)")
  case False
  let ?l = "layerNameOf remoteTrack"
  define t where "t = fst (trackFor p remoteTrack w)"
  define w1 where "w1 = snd (trackFor p remoteTrack w)"
  define w2 where "w2 = snd (NewLayerReceiver remoteTrack ?l w1)"
  define w4 where "w4 = AddLayer t ?l (nextRef w1) (SetPeerConnection (nextRef w1) (pu_pc (publishers w2 p)) w2)"
  define w5 where "w5 = AddTrack E (pu_router (publishers w4 p)) t w4"
  define w6 where "w6 = AddRouter (pe_session (peers w5 (pu_peer (publishers w5 p))))
      (pe_id (peers w5 (pu_peer (publishers w5 p)))) (pu_router (publishers w5 p)) w5"
  define w7 where "w7 = (if gm_get (pu_tracks (publishers w p)) (rt_ID remoteTrack) = None then w6 else w4)"
  have eq: "onTrack E p remoteTrack w = spawn (ReadRTP p (nextRef w1) t ?l) w7"
    unfolding onTrack_eq Let_def split_beta NewLayerReceiver_ref w7_def w6_def w5_def w4_def w2_def w1_def t_def
    by (simp add: False)
  have 1: "good w w1" unfolding w1_def by (rule good_trackFor)
  have 4: "good w1 w4" "wf w1 \<Longrightarrow> nextRef w1 < nextRef w4"
    unfolding w4_def w2_def by (rule good_receiveLayer, erule good_receiveLayer(2))
  have "good w (spawn (ReadRTP p (nextRef w1) t ?l) w7)" if w: "wf w"
  proof -
    note w1 = goodD [OF 1 w]
    note w4 = goodD [OF 4(1) w1(1)]
    have t: "t < nextRef w1"
      unfolding t_def w1_def by (rule trackFor_ref [OF w])
    have 7: "good w4 w7"
      unfolding w7_def w6_def w5_def using good_publishTrack [of t w4] extends_lt [OF w4(2) t] by simp
    have "good w7 (spawn (ReadRTP p (nextRef w1) t ?l) w7)"
      using t p 4(2) [OF w1(1)] goodD(2) [OF 7 w4(1)] w1(2) w4(2)
      by (intro good_spawn) (simp add: extends_lt)
    then show ?thesis
      using good.frame_trans [OF 1 good.frame_trans [OF 4(1) 7]] good.frame_trans by blast
  qed
  then show ?thesis
    unfolding eq by (auto simp: good_def)
qed (simp add: onTrack_def)

lemma good_LayerReceiver_ReadRTP: "good w (snd (LayerReceiver_ReadRTP E r w))"
  using good.frame_trans [OF good_world(1) good_world(1)]
  by (auto simp: LayerReceiver_ReadRTP_def split_beta split: option.splits)

lemma good_readRTP_round: "good w (snd (readRTP_round E p receiver track layerName w))"
  using good_LayerReceiver_ReadRTP [of w E receiver]
    good.frame_trans [OF good_LayerReceiver_ReadRTP [of w E receiver] good_LayerReceiver_Close]
    good.frame_trans [OF good_LayerReceiver_ReadRTP [of w E receiver] good_Router_Forward]
  by (simp add: readRTP_round_def split_beta split: sum.splits)

lemma good_Publisher_HandleOffer: "good w (snd (Publisher_HandleOffer E p offer w))"
  using good.frame_trans [OF good_world(1) good_world(1)]
    good.frame_trans [OF good.frame_trans [OF good_world(1) good_world(1)] good_world(1)]
  by (simp add: Publisher_HandleOffer_def Let_def split_beta split: option.splits)

lemma good_Publisher_AddICECandidate: "good w (snd (Publisher_AddICECandidate E p candidate w))"
  by (simp add: Publisher_AddICECandidate_def)

lemma good_Publisher_Close: "good w (snd (Publisher_Close E p w))"
proof (cases "pu_closed (publishers w p)")
  case False
  define w1 where "w1 = upd_publisher p (\<lambda>x. x\<lparr>pu_closed := True\<rparr>) w"
  have 1: "good w w1"
    unfolding w1_def
    by (rule publisherHeap.good_upd)
       (auto simp: keepsPublisher_def publisher_ok_def upd_publisher_def dest!: wf_parts(9) [where x = p])
  have 2: "good v (fold (TrackReceiver_Close E) ts v)" for ts v
    by (rule good_fold) (rule good_TrackReceiver_Close)
  show ?thesis
    using good.frame_trans [OF 1 good.frame_trans [OF 2 good.frame_trans [OF good_Router_Close good_world(1)]]] False
    by (simp add: Publisher_Close_def Let_def w1_def)
qed (simp add: Publisher_Close_def)

lemma good_Publisher_callbacks:
  "good w (Publisher_onICECandidate E p c w)" "good w (Publisher_onConnectionStateChange E p state w)"
  by (simp_all add: Publisher_onICECandidate_def good_SendCandidate
      Publisher_onConnectionStateChange_def good_Publisher_Close)

end
