(* ===== verification/Peer.thy ===== *)
theory Peer
  imports Publisher
begin

section \<open>Peers (\<open>peer.go\<close>, \<open>newSubscriber\<close> of \<open>subscriber.go\<close>)\<close>

text \<open>
  A client: its publisher, its subscriber and its WebSocket connection. The publisher and
  the subscriber are nil until the constructor has made them; using a nil one is a panic.
\<close>

subsection \<open>Construction\<close>

definition newSubscriber :: "env \<Rightarrow> ref \<Rightarrow> world \<Rightarrow> (string + ref) \<times> world" where
  "newSubscriber E peer w =
     (case NewPeerConnection E w of
        (Inl err, w) \<Rightarrow> (Inl err, w)
      | (Inr pc, w) \<Rightarrow>
         (let (s, w) = fresh w;
              w = upd_subscriber s (\<lambda>_. \<lparr>su_peer = peer, su_pc = pc, su_downTracks = [],
                    su_routers = [], su_dataChannel = None, su_closed = False,
                    su_negotiating = False, su_needsOffer = False\<rparr>) w
          in case call E (CreateDataChannel pc) w of
               (Some err, w) \<Rightarrow> (Inl err, w)
             | (None, w) \<Rightarrow>
                (let (dc, w) = fresh w
                 in (Inr s, upd_subscriber s (\<lambda>x. x\<lparr>su_dataChannel := Some dc\<rparr>) w))))"

definition newPeer :: "env \<Rightarrow> string \<Rightarrow> ref \<Rightarrow> ref \<Rightarrow> world \<Rightarrow> (string + ref) \<times> world" where
  "newPeer E peerID session conn w =
     (let (p, w) = fresh w;
          w = upd_peer p (\<lambda>_. \<lparr>pe_id = peerID, pe_session = session, pe_publisher = None,
                pe_subscriber = None, pe_conn = conn, pe_closed = False\<rparr>) w
      in case newPublisher E p w of
           (Inl err, w) \<Rightarrow> (Inl err, w)
         | (Inr publisher, w) \<Rightarrow>
            (let w = upd_peer p (\<lambda>x. x\<lparr>pe_publisher := Some publisher\<rparr>) w
             in case newSubscriber E p w of
                  (Inl err, w) \<Rightarrow> (Inl err, snd (Publisher_Close E publisher w))
                | (Inr subscriber, w) \<Rightarrow>
                    (Inr p, upd_peer p (\<lambda>x. x\<lparr>pe_subscriber := Some subscriber\<rparr>) w)))"

text \<open>The callbacks of \<open>newSubscriber\<close>.\<close>

definition Subscriber_onICECandidate :: "env \<Rightarrow> ref \<Rightarrow> string option \<Rightarrow> world \<Rightarrow> world" where
  "Subscriber_onICECandidate E s c w =
     snd (SendCandidate E (su_peer (subscribers w s)) c ''subscriber'' w)"

definition Subscriber_onConnectionStateChange :: "env \<Rightarrow> ref \<Rightarrow> pc_state \<Rightarrow> world \<Rightarrow> world" where
  "Subscriber_onConnectionStateChange E s state w =
     (if state = PCFailed \<or> state = PCClosed then snd (Subscriber_Close E s w) else w)"

subsection \<open>Operations\<close>

text \<open>The value and the world of a nil dereference.\<close>

definition nilPanic :: "'a \<Rightarrow> world \<Rightarrow> 'a \<times> world" where
  "nilPanic x w = (x, w\<lparr>panicked := True\<rparr>)"

definition Peer_HandleOffer :: "env \<Rightarrow> ref \<Rightarrow> string \<Rightarrow> world \<Rightarrow> (string + string) \<times> world" where
  "Peer_HandleOffer E p offer w =
     (case pe_publisher (peers w p) of
        None \<Rightarrow> nilPanic (Inl '''') w
      | Some publisher \<Rightarrow> Publisher_HandleOffer E publisher offer w)"

definition Peer_HandleAnswer :: "env \<Rightarrow> ref \<Rightarrow> string \<Rightarrow> world \<Rightarrow> string option \<times> world" where
  "Peer_HandleAnswer E p answer w =
     (case pe_subscriber (peers w p) of
        None \<Rightarrow> nilPanic None w
      | Some subscriber \<Rightarrow> Subscriber_HandleAnswer E subscriber answer w)"

definition Peer_AddICECandidate ::
  "env \<Rightarrow> ref \<Rightarrow> string \<Rightarrow> string \<Rightarrow> world \<Rightarrow> string option \<times> world" where
  "Peer_AddICECandidate E p candidate target w =
     (if target = ''subscriber''
      then (case pe_subscriber (peers w p) of
              None \<Rightarrow> nilPanic None w
            | Some subscriber \<Rightarrow> Subscriber_AddICECandidate E subscriber candidate w)
      else (case pe_publisher (peers w p) of
              None \<Rightarrow> nilPanic None w
            | Some publisher \<Rightarrow> Publisher_AddICECandidate E publisher candidate w))"

definition Peer_Subscribe :: "env \<Rightarrow> ref \<Rightarrow> ref \<Rightarrow> world \<Rightarrow> string option \<times> world" where
  "Peer_Subscribe E p router w =
     (case pe_subscriber (peers w p) of
        None \<Rightarrow> nilPanic None w
      | Some subscriber \<Rightarrow> Subscriber_Subscribe E subscriber router w)"

definition Peer_SetLayer :: "env \<Rightarrow> ref \<Rightarrow> string \<Rightarrow> string \<Rightarrow> world \<Rightarrow> world" where
  "Peer_SetLayer E p trackID layer w =
     (case pe_subscriber (peers w p) of
        None \<Rightarrow> snd (nilPanic () w)
      | Some subscriber \<Rightarrow> SetLayer E subscriber trackID layer w)"

definition Peer_GetLayer :: "ref \<Rightarrow> string \<Rightarrow> world \<Rightarrow> (string \<times> string) option \<times> world" where
  "Peer_GetLayer p trackID w =
     (case pe_subscriber (peers w p) of
        None \<Rightarrow> nilPanic None w
      | Some subscriber \<Rightarrow> (Subscriber_GetLayer w subscriber trackID, w))"

definition Peer_SendData :: "env \<Rightarrow> ref \<Rightarrow> u8 list \<Rightarrow> world \<Rightarrow> string option \<times> world" where
  "Peer_SendData E p data w =
     (if pe_closed (peers w p) then (None, w)
      else (case pe_subscriber (peers w p) of
              None \<Rightarrow> nilPanic None w
            | Some subscriber \<Rightarrow> Subscriber_SendData E subscriber data w))"

text \<open>The connection of a peer is never nil; errors of the three closings are only logged.\<close>

definition Peer_Close :: "env \<Rightarrow> ref \<Rightarrow> world \<Rightarrow> world" where
  "Peer_Close E p w =
     (if pe_closed (peers w p) then w
      else (let w = upd_peer p (\<lambda>x. x\<lparr>pe_closed := True\<rparr>) w;
                w = (case pe_publisher (peers w p) of
                       None \<Rightarrow> w | Some publisher \<Rightarrow> snd (Publisher_Close E publisher w));
                w = (case pe_subscriber (peers w p) of
                       None \<Rightarrow> w | Some subscriber \<Rightarrow> snd (Subscriber_Close E subscriber w))
            in snd (wsConn_Close E (pe_conn (peers w p)) w)))"

lemmas peer_defs [go_defs] =
  newSubscriber_def newPeer_def Subscriber_onICECandidate_def Subscriber_onConnectionStateChange_def
  nilPanic_def Peer_HandleOffer_def Peer_HandleAnswer_def Peer_AddICECandidate_def
  Peer_Subscribe_def Peer_SetLayer_def Peer_GetLayer_def Peer_SendData_def Peer_Close_def

subsection \<open>Frames\<close>

lemma Unsubscribe_frame [simp]:
  "peers (Unsubscribe r s w) = peers w" "sessions (Unsubscribe r s w) = sessions w"
  "sfu_sessions (Unsubscribe r s w) = sfu_sessions w" "publishers (Unsubscribe r s w) = publishers w"
  by (simp_all add: Unsubscribe_def upd_router_def)

lemma call_frame [simp]:
  "peers (snd (call E e w)) = peers w" "sessions (snd (call E e w)) = sessions w"
  "sfu_sessions (snd (call E e w)) = sfu_sessions w" "publishers (snd (call E e w)) = publishers w"
  "subscribers (snd (call E e w)) = subscribers w" "routers (snd (call E e w)) = routers w"
  by (simp_all add: call_def Let_def)

lemma Router_Close_frame [simp]:
  "peers (Router_Close E r w) = peers w" "sessions (Router_Close E r w) = sessions w"
  "sfu_sessions (Router_Close E r w) = sfu_sessions w" "publishers (Router_Close E r w) = publishers w"
  "subscribers (Router_Close E r w) = subscribers w"
proof -
  have "peers (fold (Forwarder_Close E) fs v) = peers v" "sessions (fold (Forwarder_Close E) fs v) = sessions v"
    "sfu_sessions (fold (Forwarder_Close E) fs v) = sfu_sessions v"
    "publishers (fold (Forwarder_Close E) fs v) = publishers v"
    "subscribers (fold (Forwarder_Close E) fs v) = subscribers v" for fs v
    by (rule same_fold, simp)+
  moreover have "peers (fold (TrackReceiver_Close E) ts v) = peers v"
    "sessions (fold (TrackReceiver_Close E) ts v) = sessions v"
    "sfu_sessions (fold (TrackReceiver_Close E) ts v) = sfu_sessions v"
    "publishers (fold (TrackReceiver_Close E) ts v) = publishers v"
    "subscribers (fold (TrackReceiver_Close E) ts v) = subscribers v" for ts v
    by (rule same_fold, simp)+
  ultimately show "peers (Router_Close E r w) = peers w" "sessions (Router_Close E r w) = sessions w"
    "sfu_sessions (Router_Close E r w) = sfu_sessions w" "publishers (Router_Close E r w) = publishers w"
    "subscribers (Router_Close E r w) = subscribers w"
    by (simp_all add: Router_Close_def Let_def upd_router_def)
qed

lemma Subscriber_Close_frame [simp]:
  "peers (snd (Subscriber_Close E s w)) = peers w" "sessions (snd (Subscriber_Close E s w)) = sessions w"
  "sfu_sessions (snd (Subscriber_Close E s w)) = sfu_sessions w"
  "publishers (snd (Subscriber_Close E s w)) = publishers w"
proof -
  have "peers (fold (\<lambda>r. Unsubscribe r s) rs v) = peers v"
    "sessions (fold (\<lambda>r. Unsubscribe r s) rs v) = sessions v"
    "sfu_sessions (fold (\<lambda>r. Unsubscribe r s) rs v) = sfu_sessions v"
    "publishers (fold (\<lambda>r. Unsubscribe r s) rs v) = publishers v" for rs v
    by (rule same_fold, simp)+
  then show "peers (snd (Subscriber_Close E s w)) = peers w" "sessions (snd (Subscriber_Close E s w)) = sessions w"
    "sfu_sessions (snd (Subscriber_Close E s w)) = sfu_sessions w"
    "publishers (snd (Subscriber_Close E s w)) = publishers w"
    by (simp_all add: Subscriber_Close_eq upd_subscriber_def)
qed

lemma Publisher_Close_frame [simp]:
  "peers (snd (Publisher_Close E p w)) = peers w" "sessions (snd (Publisher_Close E p w)) = sessions w"
  "sfu_sessions (snd (Publisher_Close E p w)) = sfu_sessions w"
  "subscribers (snd (Publisher_Close E p w)) = subscribers w"
proof -
  have "peers (fold (TrackReceiver_Close E) ts v) = peers v"
    "sessions (fold (TrackReceiver_Close E) ts v) = sessions v"
    "sfu_sessions (fold (TrackReceiver_Close E) ts v) = sfu_sessions v"
    "subscribers (fold (TrackReceiver_Close E) ts v) = subscribers v" for ts v
    by (rule same_fold, simp)+
  then show "peers (snd (Publisher_Close E p w)) = peers w" "sessions (snd (Publisher_Close E p w)) = sessions w"
    "sfu_sessions (snd (Publisher_Close E p w)) = sfu_sessions w"
    "subscribers (snd (Publisher_Close E p w)) = subscribers w"
    by (simp_all add: Publisher_Close_def Let_def upd_publisher_def)
qed

lemma Peer_Close_frame:
  "sessions (Peer_Close E p w) = sessions w" "sfu_sessions (Peer_Close E p w) = sfu_sessions w"
  "peers (Peer_Close E p w) = (peers w)(p := (peers w p)\<lparr>pe_closed := True\<rparr>)"
  by (cases "peers w p"; simp add: Peer_Close_def wsConn_Close_def Let_def upd_peer_def split: option.splits;
      auto simp: fun_upd_idem)+

subsection \<open>Well-formedness\<close>

lemma good_newSubscriber:
  assumes "peer < nextRef w"
  shows "good w (snd (newSubscriber E peer w))"
proof (cases "NewPeerConnection E w")
  case (Pair r w1)
  have w1: "good w w1" and n1: "nextRef w \<le> nextRef w1"
    using good_NewPeerConnection [of w E] NewPeerConnection_frame [where E = E and w = w] Pair by simp_all
  have w2: "good w1 (upd_subscriber (nextRef w1) (\<lambda>_. \<lparr>su_peer = peer, su_pc = pc, su_downTracks = [],
      su_routers = [], su_dataChannel = None, su_closed = False, su_negotiating = False,
      su_needsOffer = False\<rparr>) (snd (fresh w1)))" for pc
    by (rule subscriberHeap.good_new) (use assms n1 in \<open>simp add: subscriber_ok_def upd_subscriber_def\<close>)
  have w3: "good v (upd_subscriber s (\<lambda>x. x\<lparr>su_dataChannel := Some dc\<rparr>) v)" for s dc v
    by (rule good_upd_negotiation) simp
  show ?thesis
    using w1 good.frame_trans [OF w1 good.frame_trans [OF w2 good_world(1)]]
      good.frame_trans [OF w1 good.frame_trans [OF w2 good.frame_trans [OF good_world(1)
        good.frame_trans [OF good_world(3) w3]]]] Pair
    by (simp add: newSubscriber_def split_beta Let_def split: sum.splits option.splits)
qed

lemma newSubscriber_result:
  "newSubscriber E peer w = (Inr s, w') \<Longrightarrow>
     nextRef w \<le> s \<and> s < nextRef w' \<and> \<not> su_closed (subscribers w' s) \<and> su_peer (subscribers w' s) = peer
     \<and> su_downTracks (subscribers w' s) = []"
  "peers (snd (newSubscriber E peer w)) = peers w" "sessions (snd (newSubscriber E peer w)) = sessions w"
  "sfu_sessions (snd (newSubscriber E peer w)) = sfu_sessions w"
  "publishers (snd (newSubscriber E peer w)) = publishers w"
  "routers (snd (newSubscriber E peer w)) = routers w"
  by (auto simp: newSubscriber_def NewPeerConnection_cases Let_def split_beta upd_defs fresh_def call_def
      split: option.splits)

lemma good_upd_peer_set:
  assumes "x < nextRef w"
  shows "pe_publisher (peers w p) = None \<Longrightarrow> good w (upd_peer p (\<lambda>y. y\<lparr>pe_publisher := Some x\<rparr>) w)"
    and "pe_subscriber (peers w p) = None \<Longrightarrow> good w (upd_peer p (\<lambda>y. y\<lparr>pe_subscriber := Some x\<rparr>) w)"
  by (rule peerHeap.good_upd;
      use assms in \<open>auto simp: keepsPeer_def peer_ok_def upd_peer_def dest!: wf_parts(10) [where x = p]\<close>)+

text \<open>What every step of \<^const>\<open>newPeer\<close> for the new peer \<open>p\<close> leaves alone: the sessions and the
  peers that were there before.\<close>

definition onlyPeer :: "ref \<Rightarrow> world \<Rightarrow> world \<Rightarrow> bool" where
  "onlyPeer p v w \<longleftrightarrow> good v w \<and> sessions w = sessions v \<and> sfu_sessions w = sfu_sessions v
     \<and> (\<forall>q<p. peers w q = peers v q)"

interpretation onlyPeer: frame "onlyPeer p" for p
  by unfold_locales (auto simp: onlyPeer_def intro: good.frame_trans)

lemma onlyPeer_parts:
  "p < nextRef w \<Longrightarrow> onlyPeer p w (snd (newPublisher E p w))"
  "p < nextRef w \<Longrightarrow> onlyPeer p w (snd (newSubscriber E p w))"
  "onlyPeer p w (snd (Publisher_Close E pu w))"
  by (simp_all add: onlyPeer_def good_newPublisher good_newSubscriber newPublisher_frame newSubscriber_result
      good_Publisher_Close)

lemma newPeer_publisher:
  assumes P: "newPublisher E p w = (Inr pu, v)" and p: "p < nextRef w" "pe_publisher (peers w p) = None"
  defines "w' \<equiv> upd_peer p (\<lambda>x. x\<lparr>pe_publisher := Some pu\<rparr>) v"
  shows "onlyPeer p w w'" "p < nextRef w'" "peers w' p = (peers w p)\<lparr>pe_publisher := Some pu\<rparr>"
    "pu_peer (publishers w' pu) = p" "\<not> pu_closed (publishers w' pu)"
proof -
  have f: "onlyPeer p w v" "peers v = peers w"
    using onlyPeer_parts(1) [OF p(1), of E] newPublisher_frame(1) [of E p w] P by simp_all
  have pu: "nextRef w \<le> pu" "pu < nextRef v" "\<not> pu_closed (publishers v pu)" "pu_peer (publishers v pu) = p"
    using newPublisher_result [OF P] by auto
  have "onlyPeer p v w'"
    unfolding w'_def onlyPeer_def using good_upd_peer_set(1) [OF pu(2), of p] p(2) f(2) by (simp add: upd_peer_def)
  then show "onlyPeer p w w'" using onlyPeer.frame_trans [OF f(1)] by simp
  show "p < nextRef w'" "peers w' p = (peers w p)\<lparr>pe_publisher := Some pu\<rparr>"
    "pu_peer (publishers w' pu) = p" "\<not> pu_closed (publishers w' pu)"
    using pu p(1) f(2) by (simp_all add: w'_def upd_peer_def)
qed

lemma newPeer_subscriber:
  assumes S: "newSubscriber E p w = (Inr su, v)" and p: "p < nextRef w" "pe_subscriber (peers w p) = None"
  defines "w' \<equiv> upd_peer p (\<lambda>x. x\<lparr>pe_subscriber := Some su\<rparr>) v"
  shows "onlyPeer p w w'" "p < nextRef w'" "peers w' p = (peers w p)\<lparr>pe_subscriber := Some su\<rparr>"
    "su_peer (subscribers w' su) = p" "\<not> su_closed (subscribers w' su)" "publishers w' = publishers w"
proof -
  have f: "onlyPeer p w v" "peers v = peers w" "publishers v = publishers w"
    using onlyPeer_parts(2) [OF p(1), of E] newSubscriber_result(2,5) [of E p w] S by simp_all
  have su: "nextRef w \<le> su" "su < nextRef v" "\<not> su_closed (subscribers v su)" "su_peer (subscribers v su) = p"
    using newSubscriber_result(1) [OF S] by auto
  have "onlyPeer p v w'"
    unfolding w'_def onlyPeer_def using good_upd_peer_set(2) [OF su(2), of p] p(2) f(2) by (simp add: upd_peer_def)
  then show "onlyPeer p w w'" using onlyPeer.frame_trans [OF f(1)] by simp
  show "p < nextRef w'" "peers w' p = (peers w p)\<lparr>pe_subscriber := Some su\<rparr>"
    "su_peer (subscribers w' su) = p" "\<not> su_closed (subscribers w' su)" "publishers w' = publishers w"
    using su p(1) f(2,3) by (simp_all add: w'_def upd_peer_def)
qed

lemma newPeer_object:
  fixes w :: world and peerID conn session
  defines "w1 \<equiv> upd_peer (nextRef w) (\<lambda>_. \<lparr>pe_id = peerID, pe_session = session, pe_publisher = None,
      pe_subscriber = None, pe_conn = conn, pe_closed = False\<rparr>) (snd (fresh w))"
  assumes "session < nextRef w"
  shows "onlyPeer (nextRef w) w w1" "nextRef w < nextRef w1"
    "pe_publisher (peers w1 (nextRef w)) = None" "pe_subscriber (peers w1 (nextRef w)) = None"
proof -
  have "good w w1"
    unfolding w1_def by (rule peerHeap.good_new) (use assms in \<open>simp add: peer_ok_def upd_peer_def\<close>)
  then show "onlyPeer (nextRef w) w w1" by (simp add: onlyPeer_def w1_def upd_peer_def fresh_def)
qed (simp_all add: w1_def upd_peer_def fresh_def)

lemma newPeer_good_result:
  assumes s: "session < nextRef w" and w: "wf w" and np: "newPeer E peerID session conn w = (r, w')"
  shows "good w w' \<and> sessions w' = sessions w \<and> sfu_sessions w' = sfu_sessions w
    \<and> (\<forall>q < nextRef w. peers w' q = peers w q)
    \<and> (\<forall>p. r = Inr p \<longrightarrow> nextRef w \<le> p \<and> p < nextRef w'
         \<and> (\<exists>pu su. peers w' p = \<lparr>pe_id = peerID, pe_session = session, pe_publisher = Some pu,
              pe_subscriber = Some su, pe_conn = conn, pe_closed = False\<rparr>
              \<and> pu_peer (publishers w' pu) = p \<and> su_peer (subscribers w' su) = p
              \<and> \<not> su_closed (subscribers w' su) \<and> \<not> pu_closed (publishers w' pu)))"
proof -
  define p where "p = nextRef w"
  define w1 where "w1 = upd_peer p (\<lambda>_. \<lparr>pe_id = peerID, pe_session = session, pe_publisher = None,
      pe_subscriber = None, pe_conn = conn, pe_closed = False\<rparr>) (snd (fresh w))"
  have 1: "onlyPeer p w w1" and p1: "p < nextRef w1"
    and none: "pe_publisher (peers w1 p) = None" "pe_subscriber (peers w1 p) = None"
    unfolding w1_def p_def using newPeer_object [OF s] by blast+
  obtain rp w2 where P: "newPublisher E p w1 = (rp, w2)" by fastforce
  show ?thesis
  proof (cases rp)
    case (Inl err)
    then have "r = Inl err" "w' = w2"
      using np P unfolding newPeer_def by (simp_all add: split_beta Let_def w1_def p_def)
    then show ?thesis
      using onlyPeer.frame_trans [OF 1 onlyPeer_parts(1) [OF p1, of E]] P by (simp add: onlyPeer_def p_def)
  next
    case (Inr pu)
    define w3 where "w3 = upd_peer p (\<lambda>x. x\<lparr>pe_publisher := Some pu\<rparr>) w2"
    note 3 = newPeer_publisher [OF P [unfolded Inr] p1, folded w3_def]
    note w3 = onlyPeer.frame_trans [OF 1 3(1) [OF none(1)]]
    obtain rs w4 where S: "newSubscriber E p w3 = (rs, w4)" by fastforce
    show ?thesis
    proof (cases rs)
      case (Inl err)
      then have "w' = snd (Publisher_Close E pu w4)" "r = Inl err"
        using np P S \<open>rp = Inr pu\<close> unfolding newPeer_def by (simp_all add: split_beta Let_def w1_def p_def w3_def)
      then show ?thesis
        using onlyPeer.frame_trans [OF w3 onlyPeer.frame_trans [OF onlyPeer_parts(2) [OF 3(2) [OF none(1)], of E]
          onlyPeer_parts(3) [of _ _ E pu]]] S by (simp add: onlyPeer_def p_def)
    next
      case (Inr su)
      then have w': "w' = upd_peer p (\<lambda>x. x\<lparr>pe_subscriber := Some su\<rparr>) w4" "r = Inr p"
        using np P S \<open>rp = Inr pu\<close> unfolding newPeer_def by (simp_all add: split_beta Let_def w1_def p_def w3_def)
      note 4 = newPeer_subscriber [OF S [unfolded Inr], folded w'(1)]
      show ?thesis
        using onlyPeer.frame_trans [OF w3 4(1)] 3 4 none w'(2)
        by (simp add: onlyPeer_def p_def w1_def upd_peer_def)
    qed
  qed
qed

text \<open>The operations of a peer whose publisher and subscriber are there do not panic.\<close>

definition complete :: "world \<Rightarrow> ref \<Rightarrow> bool" where
  "complete w p \<longleftrightarrow> pe_publisher (peers w p) \<noteq> None \<and> pe_subscriber (peers w p) \<noteq> None"

lemma complete_extends: "extends v w \<Longrightarrow> p < nextRef v \<Longrightarrow> complete v p \<Longrightarrow> complete w p"
  using extends_fields(23,24) [of v w p] by (auto simp: complete_def)

lemma good_Peer_HandleOffer: "complete w p \<Longrightarrow> good w (snd (Peer_HandleOffer E p offer w))"
  by (auto simp: complete_def Peer_HandleOffer_def good_Publisher_HandleOffer)

lemma good_Peer_HandleAnswer:
  assumes "complete w p" shows "good w (snd (Peer_HandleAnswer E p answer w))"
proof (cases "wf w")
  case True
  then show ?thesis
    using assms wf_parts(10) [OF True, of p]
    by (auto simp: complete_def Peer_HandleAnswer_def peer_ok_def good_Subscriber_HandleAnswer)
qed (simp add: good_def)

lemma good_Peer_AddICECandidate: "complete w p \<Longrightarrow> good w (snd (Peer_AddICECandidate E p c target w))"
  by (auto simp: complete_def Peer_AddICECandidate_def good_Subscriber_AddICECandidate
      good_Publisher_AddICECandidate)

lemma good_Peer_Subscribe:
  assumes "complete w p" and "router < nextRef w"
  shows "good w (snd (Peer_Subscribe E p router w))"
proof (cases "wf w")
  case True
  then show ?thesis
    using assms wf_parts(10) [OF True, of p]
    by (auto simp: complete_def Peer_Subscribe_def peer_ok_def good_Subscriber_Subscribe)
qed (simp add: good_def)

lemma good_Peer_SetLayer: "complete w p \<Longrightarrow> good w (Peer_SetLayer E p trackID layer w)"
  by (auto simp: complete_def Peer_SetLayer_def good_SetLayer)

lemma good_Peer_GetLayer: "complete w p \<Longrightarrow> snd (Peer_GetLayer p trackID w) = w"
  by (auto simp: complete_def Peer_GetLayer_def)

lemma good_Peer_SendData: "complete w p \<Longrightarrow> good w (snd (Peer_SendData E p data w))"
  by (auto simp: complete_def Peer_SendData_def good_Subscriber_SendData)

lemma good_Peer_Close: "good w (Peer_Close E p w)"
proof (cases "pe_closed (peers w p)")
  case False
  have 1: "good w (upd_peer p (\<lambda>x. x\<lparr>pe_closed := True\<rparr>) w)"
    by (rule peerHeap.good_upd)
       (auto simp: keepsPeer_def peer_ok_def upd_peer_def dest!: wf_parts(10) [where x = p])
  have 2: "good v (case x of None \<Rightarrow> v | Some publisher \<Rightarrow> snd (Publisher_Close E publisher v))" for x v
    by (simp add: good_Publisher_Close split: option.splits)
  have 3: "good v (case x of None \<Rightarrow> v | Some subscriber \<Rightarrow> snd (Subscriber_Close E subscriber v))" for x v
    by (simp add: good_Subscriber_Close split: option.splits)
  show ?thesis
    using good.frame_trans [OF 1 good.frame_trans [OF 2 good.frame_trans [OF 3 good_world(1)]]] False
    by (simp add: Peer_Close_def Let_def wsConn_Close_def)
qed (simp add: Peer_Close_def)

interpretation peerClose: closer "Peer_Close E p" "\<lambda>w. pe_closed (peers w p)" wf for E p
  by unfold_locales (erule goodD(1) [OF good_Peer_Close], simp add: Peer_Close_frame, simp add: Peer_Close_def)

interpretation peerFamily: closing_family "Peer_Close E" "\<lambda>p w. pe_closed (peers w p)" for E
  by unfold_locales (simp_all add: Peer_Close_frame)

interpretation publisherClose: closer "\<lambda>w. snd (Publisher_Close E p w)"
    "\<lambda>w. pu_closed (publishers w p)" wf for E p
proof unfold_locales
  show "pu_closed (publishers (snd (Publisher_Close E p w)) p)" for w
  proof -
    have "publishers (fold (TrackReceiver_Close E) ts v) = publishers v" for ts v
      by (rule same_fold) simp
    then show ?thesis by (simp add: Publisher_Close_def Let_def upd_publisher_def)
  qed
qed (erule goodD(1) [OF good_Publisher_Close], simp add: Publisher_Close_def)

lemma good_Subscriber_callbacks:
  "good w (Subscriber_onICECandidate E s c w)" "good w (Subscriber_onConnectionStateChange E s state w)"
  by (simp_all add: Subscriber_onICECandidate_def good_SendCandidate
      Subscriber_onConnectionStateChange_def good_Subscriber_Close)

text \<open>What closing a peer closes.\<close>

lemma Peer_Close_closes:
  fixes E :: env and p :: ref and w :: world
  assumes "\<not> pe_closed (peers w p)" and "pe_publisher (peers w p) = Some pu"
    and "pe_subscriber (peers w p) = Some su"
  defines "w' \<equiv> Peer_Close E p w"
  shows "pu_closed (publishers w' pu)" and "su_closed (subscribers w' su)"
    and "last (hist w') = (CloseWS (pe_conn (peers w p)), snd (last (hist w')))" and "hist w' \<noteq> []"
proof -
  define w1 where "w1 = snd (Publisher_Close E pu (upd_peer p (\<lambda>x. x\<lparr>pe_closed := True\<rparr>) w))"
  define w2 where "w2 = snd (Subscriber_Close E su w1)"
  have p: "peers w2 p = (peers w p)\<lparr>pe_closed := True\<rparr>"
    by (simp add: w2_def w1_def upd_peer_def)
  have "w' = snd (wsConn_Close E (pe_conn (peers w2 p)) w2)"
    using assms(1-3) unfolding w'_def Peer_Close_def w1_def w2_def
    by (simp add: Let_def upd_peer_def)
  then have w': "w' = snd (call E (CloseWS (pe_conn (peers w p))) w2)"
    by (simp add: wsConn_Close_def p)
  have "pu_closed (publishers w1 pu)"
    unfolding w1_def by (rule publisherClose.cls_closes)
  then show "pu_closed (publishers w' pu)"
    by (simp add: w' w2_def)
  have "su_closed (subscribers w2 su)"
    unfolding w2_def by (rule subscriberClose.cls_closes)
  then show "su_closed (subscribers w' su)" by (simp add: w')
  show "last (hist w') = (CloseWS (pe_conn (peers w p)), snd (last (hist w')))" and "hist w' \<noteq> []"
    by (simp_all add: w')
qed

subsection \<open>A connection that is never closed\<close>

text \<open>When the data channel of a new subscriber cannot be made, the peer connection that has been
  made for it is dropped without being closed.\<close>

theorem newSubscriber_leaks:
  fixes E :: env and w :: world
  defines "made \<equiv> NewPC (ICEServers (sfu_config w))"
  assumes "callErr E (hist w) made = None"
    and "callErr E (hist w @ [(made, None)]) (CreateDataChannel (nextRef w)) = Some err"
  shows "fst (newSubscriber E peer w) = Inl err
    \<and> hist (snd (newSubscriber E peer w)) = hist w @ [(made, None), (CreateDataChannel (nextRef w), Some err)]"
  using assms(2,3)
  by (simp add: newSubscriber_def NewPeerConnection_def made_def call_def fresh_def upd_subscriber_def Let_def)

end
