(* ===== verification/Session.thy ===== *)
theory Session
  imports Peer
begin

section \<open>Sessions and the server (\<open>session.go\<close>, \<open>sfu.go\<close>)\<close>

text \<open>
  A session is a room: its peers and their routers by peer ID. The server is the table of
  sessions. \<open>Broadcast\<close> and \<open>AddRouter\<close>, which the router and the publisher call, are in
  theory \<open>Notify\<close>.
\<close>

subsection \<open>Sessions\<close>

definition newSession :: "string \<Rightarrow> world \<Rightarrow> ref \<times> world" where
  "newSession sessionID w =
     (let (s, w) = fresh w
      in (s, upd_session s (\<lambda>_. \<lparr>se_id = sessionID, se_peers = [], se_routers = []\<rparr>) w))"

definition AddPeer :: "env \<Rightarrow> ref \<Rightarrow> string \<Rightarrow> ref \<Rightarrow> world \<Rightarrow> ref result \<times> world" where
  "AddPeer E s peerID conn w =
     (case newPeer E peerID s conn w of
        (Inl err, w) \<Rightarrow> (Inl (ErrExternal err), w)
      | (Inr peer, w) \<Rightarrow>
          (Inr peer, upd_session s (\<lambda>x. x\<lparr>se_peers := gm_put peerID peer (se_peers x)\<rparr>) w))"

definition GetPeer :: "world \<Rightarrow> ref \<Rightarrow> string \<Rightarrow> ref result" where
  "GetPeer w s peerID =
     (case gm_get (se_peers (sessions w s)) peerID of
        None \<Rightarrow> Inl ErrPeerNotFound | Some peer \<Rightarrow> Inr peer)"

definition RemovePeer :: "env \<Rightarrow> ref \<Rightarrow> string \<Rightarrow> world \<Rightarrow> world" where
  "RemovePeer E s peerID w =
     (let w = (case gm_get (se_peers (sessions w s)) peerID of
                 None \<Rightarrow> w
               | Some peer \<Rightarrow>
                   upd_session s (\<lambda>x. x\<lparr>se_peers := gm_del peerID (se_peers x)\<rparr>)
                     (Peer_Close E peer w))
      in case gm_get (se_routers (sessions w s)) peerID of
           None \<Rightarrow> w
         | Some router \<Rightarrow>
             upd_session s (\<lambda>x. x\<lparr>se_routers := gm_del peerID (se_routers x)\<rparr>)
               (Router_Close E router w))"

definition GetRouter :: "world \<Rightarrow> ref \<Rightarrow> string \<Rightarrow> ref option" where
  "GetRouter w s peerID = gm_get (se_routers (sessions w s)) peerID"

definition liftErr :: "string option \<times> world \<Rightarrow> unit result \<times> world" where
  "liftErr r = (case r of (Some err, w) \<Rightarrow> (Inl (ErrExternal err), w) | (None, w) \<Rightarrow> (Inr (), w))"

definition Session_Subscribe ::
  "env \<Rightarrow> ref \<Rightarrow> string \<Rightarrow> string \<Rightarrow> world \<Rightarrow> unit result \<times> world" where
  "Session_Subscribe E s subscriberID publisherID w =
     (case gm_get (se_peers (sessions w s)) subscriberID of
        None \<Rightarrow> (Inl ErrPeerNotFound, w)
      | Some subscriber \<Rightarrow>
         (case gm_get (se_routers (sessions w s)) publisherID of
            None \<Rightarrow> (Inl ErrPeerNotFound, w)
          | Some router \<Rightarrow> liftErr (Peer_Subscribe E subscriber router w)))"

text \<open>The inner and the outer loop of \<open>NotifyExistingTracks\<close>.\<close>

definition notifyTracks :: "env \<Rightarrow> ref \<Rightarrow> string \<Rightarrow> ref \<Rightarrow> world \<Rightarrow> world" where
  "notifyTracks E peer peerID router w =
     (let m = GetTracks w router
      in fold (\<lambda>trackID w. case gm_get m trackID of
             Some track \<Rightarrow>
               snd (SendNotification E peer ''trackAdded''
                 [(''kind'', JStr (tk_kind (tracks w track))), (''peerId'', JStr peerID),
                  (''streamId'', JStr (tk_streamID (tracks w track))), (''trackId'', JStr trackID)] w)
           | None \<Rightarrow> w)
         (rangeStr E w m) w)"

definition NotifyExistingTracks :: "env \<Rightarrow> ref \<Rightarrow> ref \<Rightarrow> world \<Rightarrow> world" where
  "NotifyExistingTracks E s peer w =
     (let m = se_routers (sessions w s)
      in fold (\<lambda>peerID w.
           if peerID = pe_id (peers w peer) then w
           else (case gm_get m peerID of
                   Some router \<Rightarrow> notifyTracks E peer peerID router w
                 | None \<Rightarrow> w))
         (rangeStr E w m) w)"

definition broadcastDataTo ::
  "env \<Rightarrow> (string, ref) gomap \<Rightarrow> string \<Rightarrow> u8 list \<Rightarrow> string \<Rightarrow> world \<Rightarrow> world" where
  "broadcastDataTo E m senderPeerID data peerID w =
     (if peerID \<noteq> senderPeerID
      then (case gm_get m peerID of
              Some peer \<Rightarrow> snd (Peer_SendData E peer data w)
            | None \<Rightarrow> w)
      else w)"

definition BroadcastData :: "env \<Rightarrow> ref \<Rightarrow> string \<Rightarrow> u8 list \<Rightarrow> world \<Rightarrow> world" where
  "BroadcastData E s senderPeerID data w =
     (let m = se_peers (sessions w s)
      in fold (broadcastDataTo E m senderPeerID data) (rangeStr E w m) w)"

definition Session_Close :: "env \<Rightarrow> ref \<Rightarrow> world \<Rightarrow> world" where
  "Session_Close E s w =
     (let w = fold (Peer_Close E) (rangeVals E w (se_peers (sessions w s))) w;
          w = fold (Router_Close E) (rangeVals E w (se_routers (sessions w s))) w
      in upd_session s (\<lambda>x. x\<lparr>se_peers := [], se_routers := []\<rparr>) w)"

text \<open>The callback for data messages that the publisher's \<open>onDataChannel\<close> installs.\<close>

definition Publisher_onMessage :: "env \<Rightarrow> ref \<Rightarrow> u8 list \<Rightarrow> world \<Rightarrow> world" where
  "Publisher_onMessage E p data w =
     (let peer = peers w (pu_peer (publishers w p))
      in BroadcastData E (pe_session peer) (pe_id peer) data w)"

text \<open>\<open>onDataChannel\<close> installs three callbacks on a data channel of the client; what they do when the
  channel opens, closes or has a message. Opening and closing are logged only.\<close>

datatype dc_event = DCOpened | DCMessage "u8 list" | DCClosed

definition onDataChannel :: "env \<Rightarrow> ref \<Rightarrow> dc_event \<Rightarrow> world \<Rightarrow> world" where
  "onDataChannel E p event w =
     (case event of
        DCMessage data \<Rightarrow> Publisher_onMessage E p data w
      | DCOpened \<Rightarrow> w
      | DCClosed \<Rightarrow> w)"

subsection \<open>The server\<close>

text \<open>\<open>NewSFU\<close> is in theory \<open>World\<close>.\<close>

definition GetOrCreateSession :: "string \<Rightarrow> world \<Rightarrow> ref \<times> world" where
  "GetOrCreateSession sessionID w =
     (case gm_get (sfu_sessions w) sessionID of
        Some session \<Rightarrow> (session, w)
      | None \<Rightarrow>
         (let (session, w) = newSession sessionID w
          in (session, w\<lparr>sfu_sessions := gm_put sessionID session (sfu_sessions w)\<rparr>)))"

definition GetSession :: "world \<Rightarrow> string \<Rightarrow> ref result" where
  "GetSession w sessionID =
     (case gm_get (sfu_sessions w) sessionID of
        None \<Rightarrow> Inl ErrSessionNotFound | Some session \<Rightarrow> Inr session)"

definition DeleteSession :: "env \<Rightarrow> string \<Rightarrow> world \<Rightarrow> world" where
  "DeleteSession E sessionID w =
     (case gm_get (sfu_sessions w) sessionID of
        None \<Rightarrow> w
      | Some session \<Rightarrow>
          (let w = Session_Close E session w
           in w\<lparr>sfu_sessions := gm_del sessionID (sfu_sessions w)\<rparr>))"

lemmas session_defs [go_defs] =
  newSession_def AddPeer_def GetPeer_def RemovePeer_def GetRouter_def liftErr_def
  Session_Subscribe_def notifyTracks_def NotifyExistingTracks_def broadcastDataTo_def
  BroadcastData_def Session_Close_def Publisher_onMessage_def GetOrCreateSession_def
  GetSession_def DeleteSession_def

subsection \<open>Well-formedness\<close>

lemma good_newSession: "good w (snd (newSession sessionID w))"
  unfolding newSession_def split_beta Let_def fst_fresh snd_conv
  by (rule sessionHeap.good_new) (simp add: session_ok_def upd_session_def)

lemma newSession_ref [simp]: "fst (newSession sessionID w) = nextRef w"
  and nextRef_newSession [simp]: "nextRef (snd (newSession sessionID w)) = Suc (nextRef w)"
  and se_id_newSession [simp]: "se_id (sessions (snd (newSession sessionID w)) (nextRef w)) = sessionID"
  by (simp_all add: newSession_def Let_def split_beta upd_session_def)

text \<open>The table of sessions.\<close>

lemma good_sfu_sessions:
  assumes "wf w \<Longrightarrow> gm_ok m"
    and "\<And>k s. wf w \<Longrightarrow> gm_get m k = Some s \<Longrightarrow> gm_get (sfu_sessions w) k \<noteq> Some s \<Longrightarrow>
           s < nextRef w \<and> se_id (sessions w s) = k"
  shows "good w (w\<lparr>sfu_sessions := m\<rparr>)"
proof (rule goodI)
  assume w: "wf w"
  show e: "extends w (w\<lparr>sfu_sessions := m\<rparr>)" by (simp add: extends_refl)
  show "wf (w\<lparr>sfu_sessions := m\<rparr>)"
    by (rule wf_step [OF w e]) (use assms [OF w] in simp_all)
qed

lemma good_GetOrCreateSession:
  shows "good w (snd (GetOrCreateSession sessionID w))"
    and "wf w \<Longrightarrow> fst (GetOrCreateSession sessionID w) < nextRef (snd (GetOrCreateSession sessionID w))"
proof -
  define w1 where "w1 = snd (newSession sessionID w)"
  have "good w1 (w1\<lparr>sfu_sessions := gm_put sessionID (nextRef w) (sfu_sessions w1)\<rparr>)"
    by (rule good_sfu_sessions)
       (auto simp: w1_def dest: wf_parts(12) split: if_splits)
  then have "good w (w1\<lparr>sfu_sessions := gm_put sessionID (nextRef w) (sfu_sessions w1)\<rparr>)"
    unfolding w1_def by (rule good.frame_trans [OF good_newSession])
  then show "good w (snd (GetOrCreateSession sessionID w))"
    by (simp add: GetOrCreateSession_def split_beta Let_def w1_def split: option.splits)
  show "wf w \<Longrightarrow> fst (GetOrCreateSession sessionID w) < nextRef (snd (GetOrCreateSession sessionID w))"
    by (auto simp: GetOrCreateSession_def split_beta Let_def wf_def split: option.splits)
qed

lemma AddPeer_good_result:
  assumes s: "s < nextRef w" and w: "wf w" and ap: "AddPeer E s peerID conn w = (r, w')"
  shows "good w w'"
    and "r = Inr p \<Longrightarrow> p < nextRef w' \<and> complete w' p \<and> gm_get (se_peers (sessions w' s)) peerID = Some p
           \<and> pe_conn (peers w' p) = conn \<and> pe_id (peers w' p) = peerID \<and> \<not> pe_closed (peers w' p)"
    and "k \<noteq> peerID \<Longrightarrow> gm_get (se_peers (sessions w' s)) k = gm_get (se_peers (sessions w s)) k"
proof -
  obtain r1 w1 where np: "newPeer E peerID s conn w = (r1, w1)" by fastforce
  note R = newPeer_good_result [OF s w np]
  have 2: "good w1 (upd_session s (\<lambda>x. x\<lparr>se_peers := gm_put peerID p (se_peers x)\<rparr>) w1)"
    if "r1 = Inr p" for p
    by (rule sessionHeap.good_upd)
       (use R that in \<open>auto simp: keepsSession_def session_ok_def upd_session_def
          dest!: wf_parts(11) [where x = s] split: if_splits\<close>)
  show "good w w'"
    using ap np R good.frame_trans [OF _ 2] by (auto simp: AddPeer_def split: sum.splits)
  show "r = Inr p \<Longrightarrow> p < nextRef w' \<and> complete w' p \<and> gm_get (se_peers (sessions w' s)) peerID = Some p
           \<and> pe_conn (peers w' p) = conn \<and> pe_id (peers w' p) = peerID \<and> \<not> pe_closed (peers w' p)"
    using ap np R by (auto simp: AddPeer_def complete_def upd_session_def split: sum.splits)
  show "k \<noteq> peerID \<Longrightarrow> gm_get (se_peers (sessions w' s)) k = gm_get (se_peers (sessions w s)) k"
    using ap np R by (auto simp: AddPeer_def upd_session_def split: sum.splits)
qed

lemma session_peer:
  assumes "wf w" and "gm_get (se_peers (sessions w s)) k = Some p"
  shows "p < nextRef w" and "complete w p" and "pe_id (peers w p) = k" and "pe_session (peers w p) = s"
  using wf_parts(11) [OF assms(1), of s] assms(2) by (auto simp: session_ok_def complete_def)

lemma session_router:
  assumes "wf w" and "gm_get (se_routers (sessions w s)) k = Some r"
  shows "r < nextRef w" and "ro_id (routers w r) = k"
  using wf_parts(11) [OF assms(1), of s] assms(2) by (auto simp: session_ok_def)

lemma good_upd_session_del:
  "good w (upd_session s (\<lambda>x. x\<lparr>se_peers := gm_del k (se_peers x)\<rparr>) w)"
  "good w (upd_session s (\<lambda>x. x\<lparr>se_routers := gm_del k (se_routers x)\<rparr>) w)"
  "good w (upd_session s (\<lambda>x. x\<lparr>se_peers := [], se_routers := []\<rparr>) w)"
  by (rule sessionHeap.good_upd;
      auto simp: keepsSession_def session_ok_def upd_session_def dest!: wf_parts(11) [where x = s]
        split: if_splits)+

lemma good_RemovePeer: "good w (RemovePeer E s peerID w)"
proof -
  define w1 where "w1 = (case gm_get (se_peers (sessions w s)) peerID of
                 None \<Rightarrow> w
               | Some peer \<Rightarrow>
                   upd_session s (\<lambda>x. x\<lparr>se_peers := gm_del peerID (se_peers x)\<rparr>)
                     (Peer_Close E peer w))"
  have 1: "good w w1"
    using good.frame_trans [OF good_Peer_Close good_upd_session_del(1)]
    by (simp add: w1_def split: option.splits)
  show ?thesis
    using 1 good.frame_trans [OF 1 good.frame_trans [OF good_Router_Close good_upd_session_del(2)]]
    by (simp add: RemovePeer_def w1_def [symmetric] Let_def split: option.splits)
qed

lemma good_Session_Subscribe: "good w (snd (Session_Subscribe E s subscriberID publisherID w))"
proof (cases "wf w")
  case True
  then show ?thesis
    using session_peer(2) [OF True] session_router(1) [OF True]
    by (auto simp: Session_Subscribe_def liftErr_def good_Peer_Subscribe split_beta split: option.splits)
qed (simp add: good_def)

lemma good_notifyTracks: "good w (notifyTracks E peer peerID router w)"
  unfolding notifyTracks_def Let_def
  by (rule good_fold) (simp add: good_SendNotification split: option.splits)

lemma good_NotifyExistingTracks: "good w (NotifyExistingTracks E s peer w)"
  unfolding NotifyExistingTracks_def Let_def
  by (rule good_fold) (simp add: good_notifyTracks split: option.splits)

lemma good_BroadcastData: "good w (BroadcastData E s senderPeerID data w)"
  unfolding BroadcastData_def Let_def
proof (rule good_fold)
  fix k t assume w: "wf w" and t: "extends w t"
  have "complete t p" if "gm_get (se_peers (sessions w s)) k = Some p" for p
    by (rule complete_extends [OF t]) (rule session_peer [OF w that])+
  then show "good t (broadcastDataTo E (se_peers (sessions w s)) senderPeerID data k t)"
    by (simp add: broadcastDataTo_def good_Peer_SendData split: option.splits)
qed

lemma good_Session_Close: "good w (Session_Close E s w)"
proof -
  have 1: "good v (fold (Peer_Close E) ps v)" "good v (fold (Router_Close E) rs v)" for ps rs v
    by (rule good_fold, rule good_Peer_Close good_Router_Close)+
  show ?thesis
    unfolding Session_Close_def Let_def
    by (rule good.frame_trans [OF 1(1) good.frame_trans [OF 1(2) good_upd_session_del(3)]])
qed

lemma good_DeleteSession: "good w (DeleteSession E sessionID w)"
proof -
  have "good v (v\<lparr>sfu_sessions := gm_del sessionID (sfu_sessions v)\<rparr>)" for v
    by (rule good_sfu_sessions) (auto dest: wf_parts(12) split: if_splits)
  then show ?thesis
    by (auto simp: DeleteSession_def Let_def intro: good.frame_trans [OF good_Session_Close]
        split: option.splits)
qed

lemma good_Publisher_onMessage: "good w (Publisher_onMessage E p data w)"
  by (simp add: Publisher_onMessage_def Let_def good_BroadcastData)

lemma good_onDataChannel: "good w (onDataChannel E p event w)"
  by (simp add: onDataChannel_def good_Publisher_onMessage split: dc_event.splits)

subsection \<open>Telling a new peer what is there\<close>

definition trackSends :: "ref \<Rightarrow> string \<Rightarrow> (string, ref) gomap \<Rightarrow> world \<Rightarrow> string \<Rightarrow> effect multiset" where
  "trackSends peer peerID m w trackID =
     (case gm_get m trackID of
        None \<Rightarrow> {#}
      | Some t \<Rightarrow> notificationTo w peer ''trackAdded''
          [(''kind'', JStr (tk_kind (tracks w t))), (''peerId'', JStr peerID),
           (''streamId'', JStr (tk_streamID (tracks w t))), (''trackId'', JStr trackID)])"

interpretation trackNotifier: announcer
  "\<lambda>trackID w. case gm_get m trackID of
       Some t \<Rightarrow> snd (SendNotification E peer ''trackAdded''
          [(''kind'', JStr (tk_kind (tracks w t))), (''peerId'', JStr peerID),
           (''streamId'', JStr (tk_streamID (tracks w t))), (''trackId'', JStr trackID)] w)
     | None \<Rightarrow> w"
  "trackSends peer peerID m" for E peer peerID m
proof unfold_locales
  fix trackID :: string and w :: world
  show "\<exists>h. (case gm_get m trackID of
       Some t \<Rightarrow> snd (SendNotification E peer ''trackAdded''
          [(''kind'', JStr (tk_kind (tracks w t))), (''peerId'', JStr peerID),
           (''streamId'', JStr (tk_streamID (tracks w t))), (''trackId'', JStr trackID)] w)
     | None \<Rightarrow> w) = w\<lparr>hist := hist w @ h\<rparr> \<and> mset (map fst h) = trackSends peer peerID m w trackID"
  proof (cases "gm_get m trackID")
    case None
    then show ?thesis by (intro exI [of _ "[]"]) (simp add: trackSends_def)
  next
    case (Some t)
    then show ?thesis using SendNotification_sends by (simp add: trackSends_def)
  qed
  show "trackSends peer peerID m (w\<lparr>hist := h\<rparr>) trackID = trackSends peer peerID m w trackID" for h
    by (simp add: trackSends_def notificationTo_def split: option.splits)
qed

definition routerSends :: "ref \<Rightarrow> (string, ref) gomap \<Rightarrow> world \<Rightarrow> string \<Rightarrow> effect multiset" where
  "routerSends peer m w peerID =
     (if peerID = pe_id (peers w peer) then {#}
      else (case gm_get m peerID of
              None \<Rightarrow> {#}
            | Some r \<Rightarrow> (\<Sum>trackID\<in>set (gm_keys (ro_tracks (routers w r))).
                           trackSends peer peerID (ro_tracks (routers w r)) w trackID)))"

lemma notifyTracks_sends:
  assumes "gm_ok (ro_tracks (routers w r))"
  shows "\<exists>h. notifyTracks E peer peerID r w = w\<lparr>hist := hist w @ h\<rparr>
    \<and> mset (map fst h) = (\<Sum>trackID\<in>set (gm_keys (ro_tracks (routers w r))).
                           trackSends peer peerID (ro_tracks (routers w r)) w trackID)"
  unfolding notifyTracks_def GetTracks_def Let_def
  by (rule trackNotifier.fold_sends_set [OF distinct_rangeStr [OF assms], unfolded set_rangeStr])

text \<open>The routers of a well-formed store have tables in order, and the loop does not change them.\<close>

lemma NotifyExisting_fold:
  assumes "\<And>r. gm_ok (ro_tracks (routers w r))"
  shows "\<exists>h. fold (\<lambda>peerID w.
           if peerID = pe_id (peers w peer) then w
           else (case gm_get m peerID of
                   Some router \<Rightarrow> notifyTracks E peer peerID router w
                 | None \<Rightarrow> w)) ks w = w\<lparr>hist := hist w @ h\<rparr>
    \<and> mset (map fst h) = (\<Sum>k\<leftarrow>ks. routerSends peer m w k)"
  using assms
proof (induction ks arbitrary: w)
  case Nil
  show ?case by (rule exI [of _ "[]"]) simp
next
  case (Cons k ks)
  let ?f = "\<lambda>peerID w. if peerID = pe_id (peers w peer) then w
           else (case gm_get m peerID of
                   Some router \<Rightarrow> notifyTracks E peer peerID router w
                 | None \<Rightarrow> w)"
  have "\<exists>h. ?f k w = w\<lparr>hist := hist w @ h\<rparr> \<and> mset (map fst h) = routerSends peer m w k"
  proof (cases "k = pe_id (peers w peer) \<or> gm_get m k = None")
    case True
    then show ?thesis by (intro exI [of _ "[]"]) (auto simp: routerSends_def)
  next
    case False
    then show ?thesis
      using notifyTracks_sends [OF Cons.prems] by (auto simp: routerSends_def)
  qed
  then obtain h where h: "?f k w = w\<lparr>hist := hist w @ h\<rparr>" "mset (map fst h) = routerSends peer m w k"
    by (elim exE conjE)
  have "gm_ok (ro_tracks (routers (?f k w) r))" for r
    unfolding h(1) using Cons.prems by simp
  from Cons.IH [OF this] obtain h'
    where h': "fold ?f ks (?f k w) = (?f k w)\<lparr>hist := hist (?f k w) @ h'\<rparr>"
      "mset (map fst h') = (\<Sum>j\<leftarrow>ks. routerSends peer m (?f k w) j)"
    by (elim exE conjE)
  have same: "routerSends peer m (w\<lparr>hist := hh\<rparr>) j = routerSends peer m w j" for hh j
    using trackNotifier.sends_hist by (simp add: routerSends_def split: option.splits)
  have "fold ?f (k # ks) w = w\<lparr>hist := hist w @ h @ h'\<rparr>"
    using h'(1) by (simp add: h(1))
  moreover have "mset (map fst (h @ h')) = (\<Sum>j\<leftarrow>k # ks. routerSends peer m w j)"
    using h(2) h'(2) unfolding h(1) same by simp
  ultimately show ?case by (intro exI conjI)
qed

subsection \<open>Properties\<close>

text \<open>C36: A new peer is told of what is there. \<open>NotifyExistingTracks\<close> sends the peer, if it is
  open, exactly one \<open>trackAdded\<close> message for each track of each other peer's router in the
  session, with that track's ID, stream and kind; it changes nothing but the history of calls,
  and a failed write does not keep back the other messages.\<close>

theorem NotifyExistingTracks_sends:
  assumes w: "wf w"
  shows "\<exists>h. NotifyExistingTracks E s peer w = w\<lparr>hist := hist w @ h\<rparr>
    \<and> mset (map fst h) = (\<Sum>k\<in>set (gm_keys (se_routers (sessions w s))).
                           routerSends peer (se_routers (sessions w s)) w k)"
proof -
  define m where "m = se_routers (sessions w s)"
  have "gm_ok (ro_tracks (routers w r))" for r
    using wf_parts(7) [OF w, of r] by (simp add: router_ok_def)
  from NotifyExisting_fold [OF this, where peer = peer and m = m and E = E and ks = "rangeStr E w m"]
  obtain h where h: "NotifyExistingTracks E s peer w = w\<lparr>hist := hist w @ h\<rparr>"
    "mset (map fst h) = (\<Sum>k\<leftarrow>rangeStr E w m. routerSends peer m w k)"
    unfolding NotifyExistingTracks_def Let_def m_def [symmetric] by (elim exE conjE)
  have "distinct (rangeStr E w m)"
    using wf_parts(11) [OF w, of s] by (simp add: m_def session_ok_def)
  then have "(\<Sum>k\<leftarrow>rangeStr E w m. routerSends peer m w k) = (\<Sum>k\<in>set (gm_keys m). routerSends peer m w k)"
    by (simp add: sum_list_distinct_conv_sum_set)
  with h show ?thesis by (auto simp: m_def)
qed



text \<open>The example router in session 0, whose new peer is peer 0.\<close>

theorem NotifyExistingTracks_sends_witness:
  "\<exists>h. NotifyExistingTracks env0 0 0 (AddRouter 0 ''ann'' 4 exampleRouter)
         = (AddRouter 0 ''ann'' 4 exampleRouter)\<lparr>hist := hist (AddRouter 0 ''ann'' 4 exampleRouter) @ h\<rparr>
     \<and> mset (map fst h) = {#WriteWS 0 (rpcNotification ''trackAdded''
          [(''kind'', JStr ''video''), (''peerId'', JStr ''ann''), (''streamId'', JStr ''stream''),
           (''trackId'', JStr ''cam'')])#}"
proof -
  let ?w = "AddRouter 0 ''ann'' 4 exampleRouter"
  have eval: "ro_tracks (routers ?w 4) = [(''cam'', 1)]" "se_routers (sessions ?w 0) = [(''ann'', 4)]"
    "ro_id (routers exampleRouter 4) = ''ann''" "4 < nextRef exampleRouter"
    "pe_id (peers ?w 0) = ''''" "\<not> pe_closed (peers ?w 0)" "pe_conn (peers ?w 0) = 0"
    "tk_kind (tracks ?w 1) = ''video''" "tk_streamID (tracks ?w 1) = ''stream''"
    by (simp_all add: example_eval eval_nat_numeral)
  have w: "wf ?w"
    by (rule goodD(1) [OF good_AddRouter wf_exampleRouter]) (simp_all add: eval)
  have sends: "routerSends 0 [(''ann'', 4)] ?w ''ann'' = {#WriteWS 0 (rpcNotification ''trackAdded''
          [(''kind'', JStr ''video''), (''peerId'', JStr ''ann''), (''streamId'', JStr ''stream''),
           (''trackId'', JStr ''cam'')])#}"
    using eval(8,9)
    by (simp add: routerSends_def trackSends_def notificationTo_def eval(1,5,6,7) gm_get_def gm_keys_def)
  have "(\<Sum>k\<in>set (gm_keys (se_routers (sessions ?w 0))). routerSends 0 (se_routers (sessions ?w 0)) ?w k)
      = routerSends 0 [(''ann'', 4)] ?w ''ann''"
    by (simp add: eval(2) gm_keys_def)
  with NotifyExistingTracks_sends [OF w, of env0 0 0] show ?thesis
    unfolding sends by simp
qed

interpretation routerFamily: closing_family "Router_Close E" "\<lambda>r w. ro_closed (routers w r)" for E
proof unfold_locales
  have "routers (fold (Forwarder_Close E) fs v) = routers v"
    "routers (fold (TrackReceiver_Close E) ts v) = routers v" for fs ts v
    by (rule same_fold, simp)+
  then show "ro_closed (routers w j) \<Longrightarrow> ro_closed (routers (Router_Close E r w) j)" for j r w
    by (simp add: Router_Close_eq upd_router_def)
qed (rule ro_closed_Router_Close)

lemma closePeers_frame:
  "sessions (fold (Peer_Close E) ps w) = sessions w"
  "sfu_sessions (fold (Peer_Close E) ps w) = sfu_sessions w"
  by (rule same_fold, simp add: Peer_Close_frame)+

lemma closeRouters_frame:
  "peers (fold (Router_Close E) rs w) = peers w" "sessions (fold (Router_Close E) rs w) = sessions w"
  "sfu_sessions (fold (Router_Close E) rs w) = sfu_sessions w"
  by (rule same_fold, simp)+

text \<open>C38: Deleting a session closes all of it. Afterwards the server does not know the session any
  more and knows the other sessions as before; every peer of the session is closed and gets no
  message; and every router of it is closed and forwards nothing.\<close>

theorem DeleteSession_complete:
  fixes E :: env and k :: string and w :: world
  assumes w: "wf w" and s: "GetSession w k = Inr s"
  defines "w' \<equiv> DeleteSession E k w"
  shows "GetSession w' k = Inl ErrSessionNotFound
    \<and> (\<forall>j\<in>- {k}. GetSession w' j = GetSession w j)
    \<and> (\<forall>p\<in>set (gm_vals (se_peers (sessions w s))).
         pe_closed (peers w' p) \<and> SendNotification E p meth params w' = (None, w'))
    \<and> (\<forall>r\<in>set (gm_vals (se_routers (sessions w s))).
         ro_closed (routers w' r) \<and> Router_Forward E r trackID packet layer w' = w')"
proof -
  define ps where "ps = rangeVals E w (se_peers (sessions w s))"
  define w1 where "w1 = fold (Peer_Close E) ps w"
  define rs where "rs = rangeVals E w1 (se_routers (sessions w s))"
  define w2 where "w2 = fold (Router_Close E) rs w1"
  have k: "gm_get (sfu_sessions w) k = Some s"
    using s by (auto simp: GetSession_def split: option.splits)
  have w': "w' = (upd_session s (\<lambda>x. x\<lparr>se_peers := [], se_routers := []\<rparr>) w2)
      \<lparr>sfu_sessions := gm_del k (sfu_sessions w)\<rparr>"
    using k unfolding w'_def DeleteSession_def Session_Close_def
    by (simp add: Let_def w2_def w1_def ps_def rs_def closePeers_frame closeRouters_frame upd_session_def)
  have ok: "gm_ok (se_peers (sessions w s))" "gm_ok (se_routers (sessions w s))"
    using wf_parts(11) [OF w, of s] by (simp_all add: session_ok_def)
  have wf': "wf w'" unfolding w'_def by (rule goodD(1) [OF good_DeleteSession w])
  have p: "pe_closed (peers w' p)" if "p \<in> set (gm_vals (se_peers (sessions w s)))" for p
    using that peerFamily.fold_closes [of p ps E w]
    by (simp add: w' w2_def closeRouters_frame w1_def ps_def gm_vals_iff ok upd_session_def)
  have r: "ro_closed (routers w' r)" if "r \<in> set (gm_vals (se_routers (sessions w s)))" for r
    using that routerFamily.fold_closes [of r rs E w1]
    by (simp add: w' w2_def rs_def gm_vals_iff ok upd_session_def)
  show ?thesis
    using p r router_closed_Forward [OF wf' r] by (simp add: SendNotification_def) (simp add: w' GetSession_def)
qed

theorem DeleteSession_complete_witness:
  "GetSession (DeleteSession env0 ''room'' (exampleRoom\<lparr>sfu_sessions := [(''room'', 1)]\<rparr>)) ''room''
     = Inl ErrSessionNotFound
   \<and> pe_closed (peers (DeleteSession env0 ''room'' (exampleRoom\<lparr>sfu_sessions := [(''room'', 1)]\<rparr>)) 3)"
proof -
  let ?w = "exampleRoom\<lparr>sfu_sessions := [(''room'', 1)]\<rparr>"
  have "good exampleRoom ?w"
    by (rule good_sfu_sessions) (auto simp: exampleRoom_def gm_get_def gm_ok_def gm_keys_def split: if_splits)
  then have w: "wf ?w" by (rule goodD(1)) (rule wf_exampleRoom)
  have "GetSession ?w ''room'' = Inr 1" "3 \<in> set (gm_vals (se_peers (sessions ?w 1)))"
    by (simp_all add: GetSession_def exampleRoom_def gm_get_def gm_vals_def)
  with DeleteSession_complete [OF w this(1), of env0] show ?thesis by blast
qed

end
