(* ===== verification/Signaling.thy ===== *)
theory Signaling
  imports Session "HOL-Library.Monad_Syntax"
begin

section \<open>JSON-RPC signalling (\<open>signaling.go\<close>)\<close>

text \<open>
  One handler per WebSocket connection turns requests into calls of the sessions. A message
  arrives as the JSON value its text denotes; how a value is stored into the request and
  parameter structs follows \<open>encoding/json\<close>: members are matched to fields up to the case
  of ASCII letters, unknown members are ignored, a later member overwrites an earlier one,
  \<open>null\<close> leaves a string as it is, and a value of another type is an error.
\<close>

subsection \<open>Decoding\<close>

definition asciiLower :: "char \<Rightarrow> char" where
  "asciiLower c = (let n = of_char c :: nat in if 65 \<le> n \<and> n \<le> 90 then char_of (n + 32) else c)"

definition sameKey :: "string \<Rightarrow> string \<Rightarrow> bool" where
  "sameKey k name \<longleftrightarrow> map asciiLower k = map asciiLower name"

text \<open>The members of an object in the order of the text, stored into one field.\<close>

fun decodeField ::
  "('a \<Rightarrow> json \<Rightarrow> 'a option) \<Rightarrow> string \<Rightarrow> 'a \<Rightarrow> (string \<times> json) list \<Rightarrow> 'a option" where
  "decodeField dec name cur [] = Some cur"
| "decodeField dec name cur ((k, v) # ms) =
     (if sameKey k name
      then (case dec cur v of None \<Rightarrow> None | Some cur' \<Rightarrow> decodeField dec name cur' ms)
      else decodeField dec name cur ms)"

fun storeString :: "string \<Rightarrow> json \<Rightarrow> string option" where
  "storeString cur (JStr x) = Some x"
| "storeString cur JNull = Some cur"
| "storeString cur _ = None"

definition storeAny :: "json \<Rightarrow> json \<Rightarrow> json option" where
  "storeAny cur j = Some j"

definition storeRaw :: "json option \<Rightarrow> json \<Rightarrow> json option option" where
  "storeRaw cur j = Some (Some j)"

abbreviation stringField :: "string \<Rightarrow> (string \<times> json) list \<Rightarrow> string option" where
  "stringField name ms \<equiv> decodeField storeString name '''' ms"

text \<open>A struct is stored from an object; \<open>null\<close> stores nothing.\<close>

fun members :: "json \<Rightarrow> (string \<times> json) list option" where
  "members (JObj ms) = Some ms"
| "members JNull = Some []"
| "members _ = None"

text \<open>Parameters that a request does not have are an empty text, which does not parse.\<close>

definition paramMembers :: "json option \<Rightarrow> (string \<times> json) list option" where
  "paramMembers params = Option.bind params members"

record rpcRequest =
  rq_JSONRPC :: string
  rq_ID :: json
  rq_Method :: string
  rq_Params :: "json option"

definition decodeRequest :: "json \<Rightarrow> rpcRequest option" where
  "decodeRequest j =
     do {
       ms \<leftarrow> members j;
       version \<leftarrow> stringField ''jsonrpc'' ms;
       ident \<leftarrow> decodeField storeAny ''id'' JNull ms;
       meth \<leftarrow> stringField ''method'' ms;
       params \<leftarrow> decodeField storeRaw ''params'' None ms;
       Some \<lparr>rq_JSONRPC = version, rq_ID = ident, rq_Method = meth, rq_Params = params\<rparr>
     }"

record sessionParams =
  SessionID :: string
  PeerID :: string

record joinParams = sessionParams +
  Offer :: string

record subscribeParams = sessionParams +
  TargetPeerID :: string

record candidateParams = sessionParams +
  Candidate :: string
  Target :: string

record answerParams = sessionParams +
  Answer :: string

record setLayerParams = sessionParams +
  TrackID :: string
  LayerParam :: string

record getLayerParams = sessionParams +
  LayerTrackID :: string

definition decodeJoin :: "env \<Rightarrow> json option \<Rightarrow> joinParams option" where
  "decodeJoin E params =
     do {
       ms \<leftarrow> paramMembers params;
       session \<leftarrow> stringField ''sessionId'' ms;
       peer \<leftarrow> stringField ''peerId'' ms;
       offer \<leftarrow> decodeField (decodeSdp E) ''offer'' '''' ms;
       Some \<lparr>SessionID = session, PeerID = peer, Offer = offer\<rparr>
     }"

definition decodeSubscribe :: "json option \<Rightarrow> subscribeParams option" where
  "decodeSubscribe params =
     do {
       ms \<leftarrow> paramMembers params;
       session \<leftarrow> stringField ''sessionId'' ms;
       peer \<leftarrow> stringField ''peerId'' ms;
       target \<leftarrow> stringField ''targetPeerId'' ms;
       Some \<lparr>SessionID = session, PeerID = peer, TargetPeerID = target\<rparr>
     }"

definition decodeCandidateParams :: "env \<Rightarrow> json option \<Rightarrow> candidateParams option" where
  "decodeCandidateParams E params =
     do {
       ms \<leftarrow> paramMembers params;
       session \<leftarrow> stringField ''sessionId'' ms;
       peer \<leftarrow> stringField ''peerId'' ms;
       candidate \<leftarrow> decodeField (decodeCandidate E) ''candidate'' '''' ms;
       target \<leftarrow> stringField ''target'' ms;
       Some \<lparr>SessionID = session, PeerID = peer, Candidate = candidate, Target = target\<rparr>
     }"

definition decodeAnswer :: "env \<Rightarrow> json option \<Rightarrow> answerParams option" where
  "decodeAnswer E params =
     do {
       ms \<leftarrow> paramMembers params;
       session \<leftarrow> stringField ''sessionId'' ms;
       peer \<leftarrow> stringField ''peerId'' ms;
       answer \<leftarrow> decodeField (decodeSdp E) ''answer'' '''' ms;
       Some \<lparr>SessionID = session, PeerID = peer, Answer = answer\<rparr>
     }"

definition decodeLeave :: "json option \<Rightarrow> sessionParams option" where
  "decodeLeave params =
     do {
       ms \<leftarrow> paramMembers params;
       session \<leftarrow> stringField ''sessionId'' ms;
       peer \<leftarrow> stringField ''peerId'' ms;
       Some \<lparr>SessionID = session, PeerID = peer\<rparr>
     }"

definition decodeSetLayer :: "json option \<Rightarrow> setLayerParams option" where
  "decodeSetLayer params =
     do {
       ms \<leftarrow> paramMembers params;
       session \<leftarrow> stringField ''sessionId'' ms;
       peer \<leftarrow> stringField ''peerId'' ms;
       track \<leftarrow> stringField ''trackId'' ms;
       layer \<leftarrow> stringField ''layer'' ms;
       Some \<lparr>SessionID = session, PeerID = peer, TrackID = track, LayerParam = layer\<rparr>
     }"

definition decodeGetLayer :: "json option \<Rightarrow> getLayerParams option" where
  "decodeGetLayer params =
     do {
       ms \<leftarrow> paramMembers params;
       session \<leftarrow> stringField ''sessionId'' ms;
       peer \<leftarrow> stringField ''peerId'' ms;
       track \<leftarrow> stringField ''trackId'' ms;
       Some \<lparr>SessionID = session, PeerID = peer, LayerTrackID = track\<rparr>
     }"

subsection \<open>Responses\<close>

definition JSONRPCParseError :: int where "JSONRPCParseError = - 32700"
definition JSONRPCInvalidParams :: int where "JSONRPCInvalidParams = - 32602"
definition JSONRPCMethodNotFound :: int where "JSONRPCMethodNotFound = - 32601"
definition JSONRPCServerError :: int where "JSONRPCServerError = - 32000"

record rpcError =
  err_Code :: int
  err_Message :: string

record rpcResponse =
  rs_JSONRPC :: string
  rs_ID :: json
  rs_Result :: "json option"
  rs_Error :: "rpcError option"

definition successResponse :: "json \<Rightarrow> json \<Rightarrow> rpcResponse" where
  "successResponse ident res =
     \<lparr>rs_JSONRPC = ''2.0'', rs_ID = ident, rs_Result = Some res, rs_Error = None\<rparr>"

definition errorResponse :: "json \<Rightarrow> int \<Rightarrow> string \<Rightarrow> rpcResponse" where
  "errorResponse ident code message =
     \<lparr>rs_JSONRPC = ''2.0'', rs_ID = ident, rs_Result = None,
      rs_Error = Some \<lparr>err_Code = code, err_Message = message\<rparr>\<rparr>"

definition encodeResponse :: "rpcResponse \<Rightarrow> json" where
  "encodeResponse r =
     JObj ([(''jsonrpc'', JStr (rs_JSONRPC r)), (''id'', rs_ID r)]
       @ (case rs_Result r of None \<Rightarrow> [] | Some res \<Rightarrow> [(''result'', res)])
       @ (case rs_Error r of None \<Rightarrow> []
          | Some e \<Rightarrow> [(''error'', JObj [(''code'', JNum (err_Code e)),
                                       (''message'', JStr (err_Message e))])]))"

definition joinResult :: "string \<Rightarrow> json" where
  "joinResult answer = JObj [(''answer'', JSdp answer)]"

definition getLayerResult :: "string \<Rightarrow> string \<Rightarrow> json" where
  "getLayerResult current target =
     JObj [(''currentLayer'', JStr current), (''targetLayer'', JStr target)]"

declare joinResult_def [simp] getLayerResult_def [simp]

definition successTrue :: json where
  "successTrue = JObj [(''success'', JBool True)]"

definition serverError :: "json \<Rightarrow> go_error \<Rightarrow> rpcResponse" where
  "serverError ident err = errorResponse ident JSONRPCServerError (errorText err)"

definition invalidParams :: "json \<Rightarrow> rpcResponse" where
  "invalidParams ident = errorResponse ident JSONRPCInvalidParams ''Invalid params''"

subsection \<open>The handlers\<close>

definition handleJoin :: "env \<Rightarrow> ref \<Rightarrow> rpcRequest \<Rightarrow> world \<Rightarrow> rpcResponse \<times> world" where
  "handleJoin E conn req w =
     (case decodeJoin E (rq_Params req) of
        None \<Rightarrow> (invalidParams (rq_ID req), w)
      | Some params \<Rightarrow>
         (let (session, w) = GetOrCreateSession (SessionID params) w
          in case AddPeer E session (PeerID params) conn w of
               (Inl err, w) \<Rightarrow> (serverError (rq_ID req) err, w)
             | (Inr peer, w) \<Rightarrow>
                (case Peer_HandleOffer E peer (Offer params) w of
                   (Inl err, w) \<Rightarrow> (serverError (rq_ID req) (ErrExternal err), w)
                 | (Inr answer, w) \<Rightarrow>
                    (successResponse (rq_ID req) (joinResult answer),
                     spawn (NotifyExisting session peer) w))))"

definition handleSubscribe :: "env \<Rightarrow> rpcRequest \<Rightarrow> world \<Rightarrow> rpcResponse \<times> world" where
  "handleSubscribe E req w =
     (case decodeSubscribe (rq_Params req) of
        None \<Rightarrow> (invalidParams (rq_ID req), w)
      | Some params \<Rightarrow>
         (case GetSession w (SessionID params) of
            Inl err \<Rightarrow> (serverError (rq_ID req) err, w)
          | Inr session \<Rightarrow>
             (case Session_Subscribe E session (PeerID params) (TargetPeerID params) w of
                (Inl err, w) \<Rightarrow> (serverError (rq_ID req) err, w)
              | (Inr _, w) \<Rightarrow> (successResponse (rq_ID req) successTrue, w))))"

text \<open>The lookups of session and peer that four handlers begin with.\<close>

definition lookupPeer :: "world \<Rightarrow> string \<Rightarrow> string \<Rightarrow> ref result" where
  "lookupPeer w sessionID peerID =
     (case GetSession w sessionID of Inl err \<Rightarrow> Inl err | Inr session \<Rightarrow> GetPeer w session peerID)"

definition handleCandidate :: "env \<Rightarrow> rpcRequest \<Rightarrow> world \<Rightarrow> rpcResponse \<times> world" where
  "handleCandidate E req w =
     (case decodeCandidateParams E (rq_Params req) of
        None \<Rightarrow> (invalidParams (rq_ID req), w)
      | Some params \<Rightarrow>
         (case lookupPeer w (SessionID params) (PeerID params) of
            Inl err \<Rightarrow> (serverError (rq_ID req) err, w)
          | Inr peer \<Rightarrow>
             (case Peer_AddICECandidate E peer (Candidate params) (Target params) w of
                (Some err, w) \<Rightarrow> (serverError (rq_ID req) (ErrExternal err), w)
              | (None, w) \<Rightarrow> (successResponse (rq_ID req) successTrue, w))))"

definition handleAnswer :: "env \<Rightarrow> rpcRequest \<Rightarrow> world \<Rightarrow> rpcResponse \<times> world" where
  "handleAnswer E req w =
     (case decodeAnswer E (rq_Params req) of
        None \<Rightarrow> (invalidParams (rq_ID req), w)
      | Some params \<Rightarrow>
         (case lookupPeer w (SessionID params) (PeerID params) of
            Inl err \<Rightarrow> (serverError (rq_ID req) err, w)
          | Inr peer \<Rightarrow>
             (case Peer_HandleAnswer E peer (Answer params) w of
                (Some err, w) \<Rightarrow> (serverError (rq_ID req) (ErrExternal err), w)
              | (None, w) \<Rightarrow> (successResponse (rq_ID req) successTrue, w))))"

definition handleLeave :: "env \<Rightarrow> rpcRequest \<Rightarrow> world \<Rightarrow> rpcResponse \<times> world" where
  "handleLeave E req w =
     (case decodeLeave (rq_Params req) of
        None \<Rightarrow> (invalidParams (rq_ID req), w)
      | Some params \<Rightarrow>
         (case GetSession w (SessionID params) of
            Inl err \<Rightarrow> (serverError (rq_ID req) err, w)
          | Inr session \<Rightarrow>
             (successResponse (rq_ID req) successTrue, RemovePeer E session (PeerID params) w)))"

definition handleSetLayer :: "env \<Rightarrow> rpcRequest \<Rightarrow> world \<Rightarrow> rpcResponse \<times> world" where
  "handleSetLayer E req w =
     (case decodeSetLayer (rq_Params req) of
        None \<Rightarrow> (invalidParams (rq_ID req), w)
      | Some params \<Rightarrow>
         (case lookupPeer w (SessionID params) (PeerID params) of
            Inl err \<Rightarrow> (serverError (rq_ID req) err, w)
          | Inr peer \<Rightarrow>
             (successResponse (rq_ID req) successTrue,
              Peer_SetLayer E peer (TrackID params) (LayerParam params) w)))"

definition handleGetLayer :: "rpcRequest \<Rightarrow> world \<Rightarrow> rpcResponse \<times> world" where
  "handleGetLayer req w =
     (case decodeGetLayer (rq_Params req) of
        None \<Rightarrow> (invalidParams (rq_ID req), w)
      | Some params \<Rightarrow>
         (case lookupPeer w (SessionID params) (PeerID params) of
            Inl err \<Rightarrow> (serverError (rq_ID req) err, w)
          | Inr peer \<Rightarrow>
             (case Peer_GetLayer peer (LayerTrackID params) w of
                (None, w) \<Rightarrow> (errorResponse (rq_ID req) JSONRPCServerError ''Track not found'', w)
              | (Some (current, target), w) \<Rightarrow>
                 (successResponse (rq_ID req)
                    (getLayerResult current target), w))))"

definition handleRequest :: "env \<Rightarrow> ref \<Rightarrow> rpcRequest \<Rightarrow> world \<Rightarrow> rpcResponse \<times> world" where
  "handleRequest E conn req w =
     (if rq_Method req = ''join'' then handleJoin E conn req w
      else if rq_Method req = ''subscribe'' then handleSubscribe E req w
      else if rq_Method req = ''candidate'' then handleCandidate E req w
      else if rq_Method req = ''answer'' then handleAnswer E req w
      else if rq_Method req = ''leave'' then handleLeave E req w
      else if rq_Method req = ''setLayer'' then handleSetLayer E req w
      else if rq_Method req = ''getLayer'' then handleGetLayer req w
      else (errorResponse (rq_ID req) JSONRPCMethodNotFound ''Method not found'', w))"

subsection \<open>The loop of a connection\<close>

definition sendError :: "env \<Rightarrow> ref \<Rightarrow> json \<Rightarrow> int \<Rightarrow> string \<Rightarrow> world \<Rightarrow> world" where
  "sendError E conn ident code message w =
     snd (wsConn_WriteMessage E conn (encodeResponse (errorResponse ident code message)) w)"

text \<open>One round of \<open>run\<close>: a message whose text is not JSON is \<open>None\<close>.\<close>

definition handleMessage :: "env \<Rightarrow> ref \<Rightarrow> json option \<Rightarrow> world \<Rightarrow> world" where
  "handleMessage E conn message w =
     (case Option.bind message decodeRequest of
        None \<Rightarrow> sendError E conn JNull JSONRPCParseError ''Parse error'' w
      | Some request \<Rightarrow>
         (let (response, w) = handleRequest E conn request w
          in snd (wsConn_WriteMessage E conn (encodeResponse response) w)))"

text \<open>A whole connection when nothing else runs: the messages until reading fails, then the
  deferred \<open>Close\<close> of \<open>HandleWebSocket\<close>.\<close>

definition handleConnection :: "env \<Rightarrow> ref \<Rightarrow> json option list \<Rightarrow> world \<Rightarrow> world" where
  "handleConnection E conn messages w =
     snd (wsConn_Close E conn (fold (handleMessage E conn) messages w))"

text \<open>\<open>HandleWebSocket\<close>: the request becomes a WebSocket, unless upgrading it fails, and the connection
  is served until reading fails. A connection that is opened is a fresh reference.\<close>

definition openWebSocket :: "env \<Rightarrow> world \<Rightarrow> ref option \<times> world" where
  "openWebSocket E w =
     (case call E UpgradeWS w of
        (Some err, w) \<Rightarrow> (None, w)
      | (None, w) \<Rightarrow> (let (conn, w) = newWSConn w in (Some conn, w)))"

definition HandleWebSocket :: "env \<Rightarrow> json option list \<Rightarrow> world \<Rightarrow> world" where
  "HandleWebSocket E messages w =
     (case openWebSocket E w of
        (None, w) \<Rightarrow> w
      | (Some conn, w) \<Rightarrow> handleConnection E conn messages w)"

lemmas decode_defs [go_defs] =
  paramMembers_def decodeRequest_def decodeJoin_def decodeSubscribe_def decodeCandidateParams_def
  decodeAnswer_def decodeLeave_def decodeSetLayer_def decodeGetLayer_def

lemmas response_defs =
  successResponse_def errorResponse_def serverError_def invalidParams_def

lemmas handler_defs [go_defs] =
  handleJoin_def handleSubscribe_def lookupPeer_def handleCandidate_def handleAnswer_def
  handleLeave_def handleSetLayer_def handleGetLayer_def handleRequest_def sendError_def
  handleMessage_def handleConnection_def

subsection \<open>Well-formedness\<close>

lemma lookupPeer_complete:
  assumes "wf w" and "lookupPeer w sessionID peerID = Inr p"
  shows "complete w p" and "p < nextRef w"
  using assms session_peer [OF assms(1)]
  by (auto simp: lookupPeer_def GetSession_def GetPeer_def split: option.splits)

lemma good_handleJoin: "good w (snd (handleJoin E conn req w))"
proof (cases "wf w")
  case w: True
  show ?thesis
  proof (cases "decodeJoin E (rq_Params req)")
    case None
    then show ?thesis by (simp add: handleJoin_def)
  next
    case (Some params)
    obtain s w1 where G: "GetOrCreateSession (SessionID params) w = (s, w1)" by fastforce
    have 1: "good w w1" and s: "s < nextRef w1" and w1: "wf w1"
      using good_GetOrCreateSession [of w "SessionID params"] G w by (auto simp: good_def)
    obtain r w2 where A: "AddPeer E s (PeerID params) conn w1 = (r, w2)" by fastforce
    note AP = AddPeer_good_result [OF s w1 A]
    have 2: "good w w2" by (rule good.frame_trans [OF 1 AP(1)])
    show ?thesis
    proof (cases r)
      case (Inl err)
      then show ?thesis using 2 Some G A by (simp add: handleJoin_def)
    next
      case (Inr p)
      obtain r3 w3 where H: "Peer_HandleOffer E p (Offer params) w2 = (r3, w3)" by fastforce
      have p: "p < nextRef w2" "complete w2 p"
        using AP(2) [OF Inr] by simp_all
      have "good w2 w3"
        using good_Peer_HandleOffer [OF p(2), of E "Offer params"] H by simp
      then have 3: "good w w3" by (rule good.frame_trans [OF 2])
      have "extends w1 w3" "extends w2 w3"
        using \<open>good w2 w3\<close> AP(1) w1 by (auto simp: good_def intro: extends_trans)
      then have "good w3 (spawn (NotifyExisting s p) w3)"
        using s p by (intro good_spawn) (simp add: extends_lt)
      with 3 show ?thesis
        using Some G A H Inr by (auto simp: handleJoin_def intro: good.frame_trans split: sum.splits)
    qed
  qed
qed (simp add: good_def)

lemma good_handleSubscribe: "good w (snd (handleSubscribe E req w))"
  using good_Session_Subscribe
  by (simp add: handleSubscribe_def split_beta split: option.splits sum.splits)

lemma good_handleLeave: "good w (snd (handleLeave E req w))"
  by (simp add: handleLeave_def good_RemovePeer split: option.splits sum.splits)

lemma good_openWebSocket: "good w (snd (openWebSocket E w))"
  using good.frame_trans [OF good_world(1) good_world(3), of w UpgradeWS E]
  by (simp add: openWebSocket_def newWSConn_def split_beta Let_def split: option.splits)

lemma good_peerHandlers:
  "good w (snd (handleCandidate E req w))" "good w (snd (handleAnswer E req w))"
  "good w (snd (handleSetLayer E req w))" "good w (snd (handleGetLayer req w))"
proof -
  have "good w (snd (handleCandidate E req w)) \<and> good w (snd (handleAnswer E req w))
    \<and> good w (snd (handleSetLayer E req w)) \<and> good w (snd (handleGetLayer req w))" if w: "wf w"
    using lookupPeer_complete(1) [OF w]
    by (auto simp: handleCandidate_def handleAnswer_def handleSetLayer_def handleGetLayer_def split_beta
        good_Peer_AddICECandidate good_Peer_HandleAnswer good_Peer_SetLayer good_Peer_GetLayer
        split: option.splits sum.splits)
  then show "good w (snd (handleCandidate E req w))" "good w (snd (handleAnswer E req w))"
    "good w (snd (handleSetLayer E req w))" "good w (snd (handleGetLayer req w))"
    by (auto simp: good_def)
qed

lemma good_handleRequest: "good w (snd (handleRequest E conn req w))"
  by (simp add: handleRequest_def good_handleJoin good_handleSubscribe good_handleLeave good_peerHandlers)

lemma good_handleMessage: "good w (handleMessage E conn message w)"
  using good.frame_trans [OF good_handleRequest good_world(1)]
  by (simp add: handleMessage_def sendError_def wsConn_WriteMessage_def split_beta Let_def split: option.splits)

subsection \<open>Responses\<close>

definition wellformedResponse :: "json \<Rightarrow> rpcResponse \<Rightarrow> bool" where
  "wellformedResponse ident r \<longleftrightarrow>
     rs_JSONRPC r = ''2.0'' \<and> rs_ID r = ident \<and> (rs_Result r = None) \<noteq> (rs_Error r = None)"

lemma response_shape [simp]:
  "wellformedResponse ident (successResponse ident res)"
  "wellformedResponse ident (errorResponse ident code message)"
  "wellformedResponse ident (serverError ident err)" "wellformedResponse ident (invalidParams ident)"
  by (simp_all add: wellformedResponse_def response_defs)

lemma handler_responses:
  "wellformedResponse (rq_ID req) (fst (handleJoin E conn req w))"
  "wellformedResponse (rq_ID req) (fst (handleSubscribe E req w))"
  "wellformedResponse (rq_ID req) (fst (handleCandidate E req w))"
  "wellformedResponse (rq_ID req) (fst (handleAnswer E req w))"
  "wellformedResponse (rq_ID req) (fst (handleLeave E req w))"
  "wellformedResponse (rq_ID req) (fst (handleSetLayer E req w))"
  "wellformedResponse (rq_ID req) (fst (handleGetLayer req w))"
  by (simp_all add: handleJoin_def handleSubscribe_def handleCandidate_def handleAnswer_def handleLeave_def
      handleSetLayer_def handleGetLayer_def split_beta Let_def split: option.split sum.split)

lemma handleRequest_response: "wellformedResponse (rq_ID req) (fst (handleRequest E conn req w))"
  by (simp add: handleRequest_def handler_responses)

text \<open>The ID a response to a message must carry: that of the request, null when there is none.\<close>

definition messageID :: "json option \<Rightarrow> json" where
  "messageID message =
     (case Option.bind message decodeRequest of None \<Rightarrow> JNull | Some req \<Rightarrow> rq_ID req)"

subsection \<open>Choosing layers over the connection\<close>

lemma SendPLI_selectors [simp]: "subscribers (SendPLI E r w) = subscribers w" "peers (SendPLI E r w) = peers w"
  "sessions (SendPLI E r w) = sessions w" "sfu_sessions (SendPLI E r w) = sfu_sessions w"
  by (simp_all add: SendPLI_def split: option.splits)

lemma requestKeyframe_selectors [simp]:
  "subscribers (requestKeyframe E d l w) = subscribers w" "peers (requestKeyframe E d l w) = peers w"
  "sessions (requestKeyframe E d l w) = sessions w" "sfu_sessions (requestKeyframe E d l w) = sfu_sessions w"
  by (simp_all add: requestKeyframe_def split: option.splits)

lemma SetLayer_effect:
  fixes E :: env and w :: world and layer :: string
  assumes "GetDownTrack w s trackID = Some d"
  defines "w' \<equiv> SetLayer E s trackID layer w"
  shows "Subscriber_GetLayer w' s trackID = Some (DownTrack_GetCurrentLayer w d, layer)"
    and "peers w' = peers w" "sessions w' = sessions w" "sfu_sessions w' = sfu_sessions w"
  using assms
  by (auto simp: SetLayer_def Subscriber_GetLayer_def GetDownTrack_def DownTrack_SetTargetLayer_def upd_dt_def
      DownTrack_GetCurrentLayer_def DownTrack_GetTargetLayer_def selsw.retarget_cur selsw.retarget_tgt)

subsection \<open>Properties\<close>


text \<open>C17: What a join that succeeds has done, on a well-formed server: the session exists under
  its ID, the peer is in it under its ID, open, with the connection the request came from; the
  response carries pion's answer; a goroutine that tells the peer of the existing tracks is
  started; and no other peer of the session was touched.\<close>

theorem join_success:
  assumes w: "wf w" and d: "decodeJoin E (rq_Params req) = Some params"
    and j: "handleJoin E conn req w = (resp, w')" and ok: "rs_Error resp = None"
  shows "\<exists>s p answer. gm_get (sfu_sessions w') (SessionID params) = Some s
    \<and> GetPeer w' s (PeerID params) = Inr p \<and> pe_conn (peers w' p) = conn \<and> \<not> pe_closed (peers w' p)
    \<and> rs_Result resp = Some (JObj [(''answer'', JSdp answer)])
    \<and> NotifyExisting s p \<in> set (tasks w')
    \<and> (\<forall>k\<in>- {PeerID params}. GetPeer w' s k = GetPeer (snd (GetOrCreateSession (SessionID params) w)) s k)"
proof -
  obtain s w1 where G: "GetOrCreateSession (SessionID params) w = (s, w1)" by fastforce
  have s: "s < nextRef w1" and w1: "wf w1"
    using good_GetOrCreateSession [of w "SessionID params"] G w by (auto simp: good_def)
  have tab: "gm_get (sfu_sessions w1) (SessionID params) = Some s"
    using G by (auto simp: GetOrCreateSession_def split_beta Let_def split: option.splits)
  obtain r w2 where A: "AddPeer E s (PeerID params) conn w1 = (r, w2)" by fastforce
  note AP = AddPeer_good_result [OF s w1 A]
  obtain p where r: "r = Inr p"
    using j ok d G A by (cases r) (auto simp: handleJoin_def response_defs)
  obtain r3 w3 where H: "Peer_HandleOffer E p (Offer params) w2 = (r3, w3)" by fastforce
  obtain answer where r3: "r3 = Inr answer"
    using j ok d G A H r by (cases r3) (auto simp: handleJoin_def response_defs)
  have w': "w' = spawn (NotifyExisting s p) w3"
    "resp = successResponse (rq_ID req) (JObj [(''answer'', JSdp answer)])"
    using j d G A H r r3 by (auto simp: handleJoin_def)
  have same: "peers w3 = peers w2" "sessions w3 = sessions w2" "sfu_sessions w3 = sfu_sessions w2"
    using H AP(2) [OF r]
    by (auto simp: Peer_HandleOffer_def complete_def Publisher_HandleOffer_def Let_def call_def
        split: option.splits prod.splits)
  have "sfu_sessions w2 = sfu_sessions w1"
    using A newPeer_good_result [OF s w1] by (auto simp: AddPeer_def upd_session_def split: prod.splits sum.splits)
  then show ?thesis
    using tab AP(2) [OF r] AP(3) G
    by (intro exI [of _ s] exI [of _ p] exI [of _ answer])
       (auto simp: w' same GetPeer_def spawn_def successResponse_def)
qed

text \<open>C37: A layer asked for is the layer reported. When a peer of a session has a downtrack for
  a track, then after a \<open>setLayer\<close> request for it, whatever layer it names, a \<open>getLayer\<close> request
  answers with that layer as the target and with the current layer as it was before.\<close>

theorem setLayer_getLayer:
  fixes E :: env and w :: world and setReq getReq :: rpcRequest
  assumes "decodeSetLayer (rq_Params setReq) = Some sp" and "decodeGetLayer (rq_Params getReq) = Some gp"
    and ids: "SessionID gp = SessionID sp" "PeerID gp = PeerID sp" "LayerTrackID gp = TrackID sp"
    and p: "lookupPeer w (SessionID sp) (PeerID sp) = Inr p" and s: "pe_subscriber (peers w p) = Some s"
    and dt: "GetDownTrack w s (TrackID sp) = Some d"
  defines "w' \<equiv> snd (handleSetLayer E setReq w)"
  shows "fst (handleSetLayer E setReq w) = successResponse (rq_ID setReq) successTrue
    \<and> handleGetLayer getReq w' =
       (successResponse (rq_ID getReq)
          (JObj [(''currentLayer'', JStr (DownTrack_GetCurrentLayer w d)),
                 (''targetLayer'', JStr (LayerParam sp))]), w')"
proof -
  have w': "w' = SetLayer E s (TrackID sp) (LayerParam sp) w"
    and r: "fst (handleSetLayer E setReq w) = successResponse (rq_ID setReq) successTrue"
    using assms by (simp_all add: handleSetLayer_def Peer_SetLayer_def)
  note L = SetLayer_effect [OF dt, of E "LayerParam sp", folded w']
  have "lookupPeer w' (SessionID sp) (PeerID sp) = Inr p"
    using p by (auto simp: lookupPeer_def GetSession_def GetPeer_def L split: option.splits)
  then have "handleGetLayer getReq w' =
       (successResponse (rq_ID getReq)
          (JObj [(''currentLayer'', JStr (DownTrack_GetCurrentLayer w d)),
                 (''targetLayer'', JStr (LayerParam sp))]), w')"
    using assms(2) ids s by (simp add: handleGetLayer_def Peer_GetLayer_def L)
  with r show ?thesis by simp
qed

lemmas decode_eval = paramMembers_def sameKey_def asciiLower_def

text \<open>The first join of an empty server.\<close>

definition joinRequest :: rpcRequest where
  "joinRequest = \<lparr>rq_JSONRPC = ''2.0'', rq_ID = JNum 1, rq_Method = ''join'',
     rq_Params = Some (JObj [(''sessionId'', JStr ''room''), (''peerId'', JStr ''ann''),
                             (''offer'', JSdp ''offer'')])\<rparr>"

lemma joinRequest_decodes:
  "decodeJoin env0 (rq_Params joinRequest) =
     Some \<lparr>SessionID = ''room'', PeerID = ''ann'', Offer = ''offer''\<rparr>"
  by (simp add: joinRequest_def decodeJoin_def decode_eval env0_def)

lemma joinRequest_succeeds: "rs_Error (fst (handleJoin env0 0 joinRequest world0)) = None"
  unfolding handleJoin_def joinRequest_decodes
  by (simp add: GetOrCreateSession_def newSession_def AddPeer_def newPeer_def newPublisher_def newSubscriber_def
      NewPeerConnection_def Peer_HandleOffer_def Publisher_HandleOffer_def example_eval response_defs eval_nat_numeral)

theorem join_success_witness:
  "\<exists>s p. gm_get (sfu_sessions (snd (handleJoin env0 0 joinRequest world0))) ''room'' = Some s
     \<and> GetPeer (snd (handleJoin env0 0 joinRequest world0)) s ''ann'' = Inr p
     \<and> NotifyExisting s p \<in> set (tasks (snd (handleJoin env0 0 joinRequest world0)))"
  using join_success [OF wf_world0 joinRequest_decodes, of 0 "fst (handleJoin env0 0 joinRequest world0)"
      "snd (handleJoin env0 0 joinRequest world0)"] joinRequest_succeeds
  by auto

text \<open>Downtrack 4 of the subscriber of a peer, which forwards layer \<open>high\<close>.\<close>

definition exampleCall :: world where
  "exampleCall = world0\<lparr>sfu_sessions := [(''room'', 1)],
     sessions := (\<lambda>_. \<lparr>se_id = ''room'', se_peers = [(''ann'', 2)], se_routers = []\<rparr>),
     peers := (\<lambda>_. (peers world0 2)\<lparr>pe_id := ''ann'', pe_session := 1, pe_subscriber := Some 3\<rparr>),
     subscribers := (\<lambda>_. (subscribers world0 3)\<lparr>su_peer := 2, su_downTracks := [(''cam'', 4)]\<rparr>),
     downtracks := (\<lambda>_. (downtracks world0 4)\<lparr>dt_selector := NewLayerSelector ''cam'' ''high''\<rparr>),
     nextRef := 5\<rparr>"

definition setLow :: rpcRequest where
  "setLow = \<lparr>rq_JSONRPC = ''2.0'', rq_ID = JNum 1, rq_Method = ''setLayer'',
     rq_Params = Some (JObj [(''sessionId'', JStr ''room''), (''peerId'', JStr ''ann''),
                             (''trackId'', JStr ''cam''), (''layer'', JStr ''low'')])\<rparr>"

definition getCam :: rpcRequest where
  "getCam = \<lparr>rq_JSONRPC = ''2.0'', rq_ID = JNum 2, rq_Method = ''getLayer'',
     rq_Params = Some (JObj [(''sessionId'', JStr ''room''), (''peerId'', JStr ''ann''),
                             (''trackId'', JStr ''cam'')])\<rparr>"

theorem setLayer_getLayer_witness:
  "rs_Result (fst (handleGetLayer getCam (snd (handleSetLayer env0 setLow exampleCall)))) =
     Some (JObj [(''currentLayer'', JStr ''high''), (''targetLayer'', JStr ''low'')])"
proof -
  have "decodeSetLayer (rq_Params setLow) =
      Some \<lparr>SessionID = ''room'', PeerID = ''ann'', TrackID = ''cam'', LayerParam = ''low''\<rparr>"
    "decodeGetLayer (rq_Params getCam) =
      Some \<lparr>SessionID = ''room'', PeerID = ''ann'', LayerTrackID = ''cam''\<rparr>"
    "lookupPeer exampleCall ''room'' ''ann'' = Inr 2"
    "pe_subscriber (peers exampleCall 2) = Some 3" "GetDownTrack exampleCall 3 ''cam'' = Some 4"
    "DownTrack_GetCurrentLayer exampleCall 4 = ''high''"
    by (simp_all add: setLow_def getCam_def decodeSetLayer_def decodeGetLayer_def decode_eval lookupPeer_def
        GetSession_def GetPeer_def GetDownTrack_def DownTrack_GetCurrentLayer_def GetCurrentLayer_def
        NewLayerSelector_def Let_def exampleCall_def world0_def gm_get_def)
  then show ?thesis
    using setLayer_getLayer [where w = exampleCall and setReq = setLow and getReq = getCam and E = env0
        and p = 2 and s = 3 and d = 4
        and sp = "\<lparr>SessionID = ''room'', PeerID = ''ann'', TrackID = ''cam'', LayerParam = ''low''\<rparr>"
        and gp = "\<lparr>SessionID = ''room'', PeerID = ''ann'', LayerTrackID = ''cam''\<rparr>"]
    by (simp add: successResponse_def)
qed

subsection \<open>Requests that are rejected\<close>

text \<open>The methods of requests about an existing session, and the session and peer they name.\<close>

definition peerMethods :: "string set" where
  "peerMethods = {''candidate'', ''answer'', ''setLayer'', ''getLayer''}"

definition sessionMethods :: "string set" where
  "sessionMethods = {''subscribe'', ''leave''} \<union> peerMethods"

definition requestKeys :: "env \<Rightarrow> rpcRequest \<Rightarrow> (string \<times> string) option" where
  "requestKeys E req =
     (let ps = rq_Params req
      in if rq_Method req = ''subscribe'' then map_option (\<lambda>x. (SessionID x, PeerID x)) (decodeSubscribe ps)
         else if rq_Method req = ''candidate'' then map_option (\<lambda>x. (SessionID x, PeerID x)) (decodeCandidateParams E ps)
         else if rq_Method req = ''answer'' then map_option (\<lambda>x. (SessionID x, PeerID x)) (decodeAnswer E ps)
         else if rq_Method req = ''leave'' then map_option (\<lambda>x. (SessionID x, PeerID x)) (decodeLeave ps)
         else if rq_Method req = ''setLayer'' then map_option (\<lambda>x. (SessionID x, PeerID x)) (decodeSetLayer ps)
         else map_option (\<lambda>x. (SessionID x, PeerID x)) (decodeGetLayer ps))"



end
