(* ===== verification/System.thy ===== *)
theory System
  imports Signaling
begin

section \<open>The running server\<close>

text \<open>
  The server as a transition system over worlds. A step is a new connection, a message on some
  connection, the end of a connection, one round of a waiting goroutine, a callback from pion, or a call of the
  package's interface by its user. Which step comes next is open, so a run is any interleaving
  of these operations, each of which runs as the component theories define it.
\<close>

subsection \<open>Goroutines\<close>

text \<open>One round of a goroutine; a loop that goes on is a task again. The first round of
  \<open>requestInitialKeyframe\<close> has two rounds left.\<close>

fun runTask :: "env \<Rightarrow> task \<Rightarrow> world \<Rightarrow> world" where
  "runTask E (ReadRTCP d) w =
     (let (more, w) = readRTCP_round E d w in if more then spawn (ReadRTCP d) w else w)"
| "runTask E (InitialKeyframe d 0) w = w"
| "runTask E (InitialKeyframe d (Suc n)) w =
     (let w = requestInitialKeyframe_round E d w
      in if n = 0 then w else spawn (InitialKeyframe d n) w)"
| "runTask E (LayerSwitched d layer) w = onLayerSwitch E d layer w"
| "runTask E (Renegotiate s) w = snd (Negotiate E s w)"
| "runTask E (NotifyExisting s p) w = NotifyExistingTracks E s p w"
| "runTask E (ReadRTP p r t layer) w =
     (let (more, w) = readRTP_round E p r t layer w
      in if more then spawn (ReadRTP p r t layer) w else w)"

text \<open>Taking one of the waiting goroutines.\<close>

definition dropTask :: "nat \<Rightarrow> world \<Rightarrow> world" where
  "dropTask i w = w\<lparr>tasks := take i (tasks w) @ drop (Suc i) (tasks w)\<rparr>"

subsection \<open>Steps\<close>

text \<open>The callbacks of pion run for the publishers and subscribers of complete peers.\<close>

inductive background_step :: "env \<Rightarrow> world \<Rightarrow> world \<Rightarrow> bool" for E :: env where
  goroutine: "i < length (tasks w) \<Longrightarrow> background_step E w (runTask E (tasks w ! i) (dropTask i w))"
| remote_track:
    "pe_publisher (peers w q) = Some p \<Longrightarrow> background_step E w (onTrack E p remoteTrack w)"
| data_channel:
    "pe_publisher (peers w q) = Some p \<Longrightarrow> background_step E w (onDataChannel E p event w)"
| publisher_candidate:
    "pe_publisher (peers w q) = Some p \<Longrightarrow> background_step E w (Publisher_onICECandidate E p c w)"
| publisher_state:
    "pe_publisher (peers w q) = Some p \<Longrightarrow>
     background_step E w (Publisher_onConnectionStateChange E p state w)"
| subscriber_candidate:
    "pe_subscriber (peers w q) = Some s \<Longrightarrow> background_step E w (Subscriber_onICECandidate E s c w)"
| subscriber_state:
    "pe_subscriber (peers w q) = Some s \<Longrightarrow>
     background_step E w (Subscriber_onConnectionStateChange E s state w)"
| delete_session: "background_step E w (DeleteSession E sessionID w)"
| set_active: "background_step E w (SetActive l active w)"

inductive sfu_step :: "env \<Rightarrow> world \<Rightarrow> world \<Rightarrow> bool" for E :: env where
  connect: "sfu_step E w (snd (openWebSocket E w))"
| message: "sfu_step E w (handleMessage E conn message w)"
| disconnect: "sfu_step E w (snd (wsConn_Close E conn w))"
| background: "background_step E w w' \<Longrightarrow> sfu_step E w w'"

text \<open>A run begins with a new server of any configuration.\<close>

definition started :: "world \<Rightarrow> bool" where
  "started w \<longleftrightarrow> (\<exists>config. NewSFU None config = Some w)"

abbreviation reachable :: "env \<Rightarrow> world \<Rightarrow> bool" where
  "reachable E \<equiv> reach started (sfu_step E)"

lemma started_world0: "started world0"
  unfolding started_def by (rule exI [of _ "sfu_config world0"]) (simp add: NewSFU_def)

subsection \<open>Steps extend the store and keep it well formed\<close>

lemma good_dropTask: "good w (dropTask i w)"
proof (rule goodI)
  assume w: "wf w"
  show e: "extends w (dropTask i w)" by (simp add: dropTask_def extends_def)
  show "wf (dropTask i w)"
    by (rule wf_step [OF w e]) (auto simp: dropTask_def dest: in_set_takeD in_set_dropD)
qed

lemma good_respawn:
  assumes "good w (snd r)" and "wf w \<Longrightarrow> task_ok w t"
  shows "good w (if fst r then spawn t (snd r) else snd r)"
  using assms good_then [OF assms(1) good_spawn]
  by (auto simp: good_def intro: ok_extends(11))

lemma good_runTask:
  assumes "task_ok w t"
  shows "good w (runTask E t w)"
proof (cases t)
  case (ReadRTCP d)
  with good_respawn [OF good_readRTCP_round, of w t E d] assms show ?thesis
    by (simp add: split_beta Let_def split: if_splits)
next
  case (InitialKeyframe d n)
  with assms good_respawn [of w "(n \<noteq> 1, requestInitialKeyframe_round E d w)"
      "InitialKeyframe d (n - 1)"] show ?thesis
    by (cases n) (auto simp: Let_def good_requestInitialKeyframe_round)
next
  case (Renegotiate s)
  then show ?thesis by (simp add: good_Negotiate)
next
  case (ReadRTP p r tr l)
  with good_respawn [OF good_readRTP_round, of w t E p r tr l] assms show ?thesis
    by (simp add: split_beta Let_def split: if_splits)
qed (simp_all add: onLayerSwitch_def good_requestKeyframe good_NotifyExistingTracks)

lemma good_background_step: "background_step E w w' \<Longrightarrow> good w w'"
proof (induction rule: background_step.induct)
  case (goroutine i w)
  have "good (dropTask i w) (runTask E (tasks w ! i) (dropTask i w))" if w: "wf w"
  proof (rule good_runTask)
    have "task_ok w (tasks w ! i)"
      by (rule wf_parts(13) [OF w]) (use goroutine in simp)
    then show "task_ok (dropTask i w) (tasks w ! i)"
      by (rule ok_extends(11) [OF goodD(2) [OF good_dropTask w]])
  qed
  then show ?case
    using good_dropTask [of w i] by (auto simp: good_def intro: extends_trans)
next
  case (remote_track w q p remoteTrack)
  then show ?case
    using wf_parts(10) [of w q] by (metis good_def good_onTrack peer_ok_def)
qed (simp_all add: good_onDataChannel
      good_Publisher_callbacks good_Subscriber_callbacks good_DeleteSession good_SetActive)

lemma good_sfu_step: "sfu_step E w w' \<Longrightarrow> good w w'"
  by (induction rule: sfu_step.induct)
     (simp_all add: good_openWebSocket good_handleMessage wsConn_Close_def good_background_step)

interpretation server: invariant_system started "sfu_step E" wf for E
  by unfold_locales (auto simp: started_def intro: wf_NewSFU, rule goodD(1) [OF good_sfu_step])

lemma run_extends: "(sfu_step E)\<^sup>*\<^sup>* v w \<Longrightarrow> wf v \<Longrightarrow> wf w \<and> extends v w"
  by (induction rule: rtranclp_induct)
     (auto simp: extends_refl dest: goodD [OF good_sfu_step] intro: extends_trans)

subsection \<open>What forwarding writes\<close>

text \<open>The entries of a history that hand a packet with the given payload to the local track of
  one of the downtracks \<open>ds\<close>.\<close>

definition writesFor :: "world \<Rightarrow> ref set \<Rightarrow> u8 list \<Rightarrow> history \<Rightarrow> bool" where
  "writesFor w ds payload h \<longleftrightarrow>
     (\<forall>(e, err) \<in> set h. \<exists>d\<in>ds. \<exists>p. e = WriteTrackRTP (dt_track (downtracks w d)) p
        \<and> Payload p = payload \<and> \<not> dt_closed (downtracks w d))"

lemma WriteRTP_writes:
  "\<exists>h. hist (snd (WriteRTP E d packet layer w)) = hist w @ h \<and> writesFor w {d} (Payload packet) h"
proof (cases "dt_closed (downtracks w d)")
  case True
  then show ?thesis by (simp add: WriteRTP_def writesFor_def)
next
  case False
  note W = WriteRTP_open [OF False, of E packet layer]
  show ?thesis
    using selOnly_facts(1,8) [OF W(1)] False unfolding W(2)
    by (simp add: writesFor_def call_def Let_def upd_dt_def Rewrite_Payload)
qed

text \<open>Serving one downtrack changes neither which of the others are closed nor their tracks.\<close>

definition sameTracks :: "world \<Rightarrow> world \<Rightarrow> bool" where
  "sameTracks v w \<longleftrightarrow> (\<forall>d. dt_track (downtracks w d) = dt_track (downtracks v d)
     \<and> dt_closed (downtracks w d) = dt_closed (downtracks v d))"

lemma selOnly_sameTracks: "selOnly d v w \<Longrightarrow> sameTracks v w"
  by (auto simp: selOnly_def sameTracks_def split: if_splits)

lemma sameTracks_forwardTo: "sameTracks w (forwardTo E f packet layer d w)"
proof -
  have "sameTracks w (snd (WriteRTP E d packet layer w))"
  proof (cases "dt_closed (downtracks w d)")
    case False
    note W = WriteRTP_open [OF False, of E packet layer]
    show ?thesis
      using selOnly_sameTracks [OF W(1)] unfolding W(2)
      by (simp add: sameTracks_def upd_dt_def call_def Let_def)
  qed (simp add: WriteRTP_def sameTracks_def)
  then show ?thesis
    by (auto simp: sameTracks_def forwardTo_def split_beta Forwarder_RemoveDownTrack_def upd_forwarder_def
        split: option.splits)
qed

lemma forwardAll_writes:
  "\<exists>h. hist (fold (forwardTo E f packet layer) ds w) = hist w @ h
     \<and> writesFor w (set ds) (Payload packet) h"
proof (induction ds arbitrary: w)
  case (Cons d ds)
  define v where "v = forwardTo E f packet layer d w"
  obtain h1 where h1: "hist v = hist w @ h1" "writesFor w {d} (Payload packet) h1"
    using WriteRTP_writes [of E d packet layer w] forwardTo_self(3) [of E f packet layer d w]
    by (auto simp: v_def)
  obtain h2 where h2: "hist (fold (forwardTo E f packet layer) ds v) = hist v @ h2"
    "writesFor v (set ds) (Payload packet) h2"
    using Cons by blast
  have "writesFor w (set ds) (Payload packet) h2"
    using h2(2) sameTracks_forwardTo [of w E f packet layer d]
    by (simp add: writesFor_def sameTracks_def v_def)
  then have "writesFor w (set (d # ds)) (Payload packet) (h1 @ h2)"
    using h1(2) by (fastforce simp: writesFor_def)
  then show ?case
    using h1(1) h2(1) by (auto simp: v_def)
qed (simp add: writesFor_def)

subsection \<open>Goroutines of what is closed\<close>

text \<open>The goroutines that belong to something closed, and how many rounds they can still make.\<close>

fun orphan :: "world \<Rightarrow> task \<Rightarrow> bool" where
  "orphan w (ReadRTCP d) \<longleftrightarrow> dt_closed (downtracks w d)"
| "orphan w (InitialKeyframe d n) \<longleftrightarrow> dt_closed (downtracks w d)"
| "orphan w (LayerSwitched d layer) \<longleftrightarrow> False"
| "orphan w (Renegotiate s) \<longleftrightarrow> su_closed (subscribers w s)"
| "orphan w (NotifyExisting s p) \<longleftrightarrow> pe_closed (peers w p)"
| "orphan w (ReadRTP p r t layer) \<longleftrightarrow> lr_closed (receivers w r)"

fun roundsLeft :: "task \<Rightarrow> nat" where
  "roundsLeft (InitialKeyframe d n) = Suc n"
| "roundsLeft t = 1"

definition workload :: "world \<Rightarrow> nat" where
  "workload w = sum_list (map roundsLeft (tasks w))"

lemma workload_dropTask:
  assumes "i < length (tasks w)"
  shows "workload w = roundsLeft (tasks w ! i) + workload (dropTask i w)"
  using arg_cong [OF id_take_nth_drop [OF assms], of "\<lambda>ts. sum_list (map roundsLeft ts)"]
  by (simp add: workload_def dropTask_def)

lemma NotifyExisting_closed:
  assumes "pe_closed (peers w p)"
  shows "NotifyExistingTracks E s p w = w"
proof -
  have idle: "fold (f :: string \<Rightarrow> world \<Rightarrow> world) ks w = w" if "\<And>k. f k w = w" for f ks
    using that by (induction ks) simp_all
  have "notifyTracks E p peerID router w = w" for peerID router
    unfolding notifyTracks_def Let_def
    by (rule idle) (simp add: SendNotification_def assms split: option.splits)
  then show ?thesis
    unfolding NotifyExistingTracks_def Let_def by (intro idle) (simp split: option.splits)
qed

lemma runTask_orphan:
  assumes w: "wf w" and t: "orphan w t"
  shows "runTask E t w = w \<or> (\<exists>t'. runTask E t w = spawn t' w \<and> roundsLeft t' < roundsLeft t)"
proof (cases t)
  case (InitialKeyframe d n)
  with t show ?thesis
    by (cases n) (auto simp: requestInitialKeyframe_round_def)
next
  case (NotifyExisting s p)
  with t show ?thesis by (simp add: NotifyExisting_closed)
next
  case (ReadRTP p r tr l)
  then have "lr_closeCh (receivers w r) = ChClosed"
    using t wf_parts(2) [OF w, of r] by (simp add: receiver_ok_def)
  with t ReadRTP show ?thesis
    by (simp add: readRTP_round_def LayerReceiver_ReadRTP_def LayerReceiver_Close_def)
qed (use t in \<open>simp_all add: readRTCP_round_def Negotiate_def\<close>)

subsection \<open>Properties\<close>

text \<open>C4: The server does not panic. In every state it can reach, whatever clients send, pion
  reports and goroutines are run in whatever order: no nil pointer was used and no channel was
  closed twice; each close channel is closed exactly when the flag beside it is set; every peer
  that can be looked up is complete, carries the ID it is looked up by and belongs to the session
  it is looked up in; and every peer connection was made with the ICE servers of the configuration.\<close>

theorem server_never_panics:
  assumes "reachable E w"
  shows "\<not> panicked w
    \<and> (\<forall>x. (lr_closeCh (receivers w x) = ChClosed) = lr_closed (receivers w x)
         \<and> (tk_closeCh (tracks w x) = ChClosed) = tk_closed (tracks w x)
         \<and> (fw_closeCh (forwarders w x) = ChClosed) = fw_closed (forwarders w x))
    \<and> (\<forall>k s j p. GetSession w k = Inr s \<and> GetPeer w s j = Inr p \<longrightarrow>
         se_id (sessions w s) = k \<and> pe_id (peers w p) = j \<and> pe_session (peers w p) = s
         \<and> pe_publisher (peers w p) \<noteq> None \<and> pe_subscriber (peers w p) \<noteq> None)
    \<and> (\<forall>x\<in>set (hist w). \<forall>servers. fst x = NewPC servers \<longrightarrow> servers = ICEServers (sfu_config w))"
proof -
  have w: "wf w" by (rule server.reach_inv [OF assms])
  then show ?thesis
    using wf_parts(1,11) [OF w] wf_chan_ok [OF w]
    by (auto simp: chan_ok_def wf_def session_ok_def call_ok_def GetSession_def GetPeer_def split: option.splits)
qed

text \<open>A reachable state: the first join, after which the publisher's connection fails.\<close>

definition joinMessage :: json where
  "joinMessage = JObj [(''jsonrpc'', JStr ''2.0''), (''id'', JNum 1), (''method'', JStr ''join''),
     (''params'', JObj [(''sessionId'', JStr ''room''), (''peerId'', JStr ''ann''),
                        (''offer'', JSdp ''offer'')])]"

definition exampleJoined :: world where
  "exampleJoined = handleMessage env0 0 (Some joinMessage) world0"

definition exampleFailed :: world where
  "exampleFailed = Publisher_onConnectionStateChange env0 5 PCFailed exampleJoined"

lemma decode_joinMessage: "decodeRequest joinMessage = Some joinRequest"
  by (simp add: joinMessage_def joinRequest_def decodeRequest_def decode_eval storeAny_def storeRaw_def)

lemmas join_eval =
  GetOrCreateSession_def newSession_def AddPeer_def newPeer_def newPublisher_def newSubscriber_def
  NewPeerConnection_def Peer_HandleOffer_def Publisher_HandleOffer_def response_defs

lemma exampleJoined_eq:
  "exampleJoined = snd (wsConn_WriteMessage env0 0
     (encodeResponse (fst (handleJoin env0 0 joinRequest world0))) (snd (handleJoin env0 0 joinRequest world0)))"
proof -
  have "rq_Method joinRequest = ''join''" by (simp add: joinRequest_def)
  then show ?thesis
    by (simp add: exampleJoined_def handleMessage_def decode_joinMessage handleRequest_def split_beta Let_def)
qed

lemma exampleJoined_publisher:
  "pe_publisher (peers exampleJoined 2) = Some 5" "pu_closed (publishers exampleJoined 5) = False"
  "pu_router (publishers exampleJoined 5) = 4" "nextRef exampleJoined = 9"
  "pu_tracks (publishers exampleJoined 5) = []" "tasks exampleJoined = [NotifyExisting 1 2]"
  unfolding exampleJoined_eq handleJoin_def joinRequest_decodes
  by (simp_all add: join_eval example_eval eval_nat_numeral)

lemma reachable_examples: "reachable env0 exampleJoined" "reachable env0 exampleFailed"
proof -
  show 1: "reachable env0 exampleJoined"
    unfolding exampleJoined_def
    by (rule reach_step [where s = world0]) (simp_all add: reach_init started_world0 message)
  show "reachable env0 exampleFailed"
    unfolding exampleFailed_def
    by (rule reach_step [OF 1 background [OF publisher_state [OF exampleJoined_publisher(1)]]])
qed

theorem server_never_panics_witness: "\<not> panicked exampleFailed"
  using server_never_panics [OF reachable_examples(2)] by blast

text \<open>C12: Media stays on its track. What a router of a well-formed server (so of every reachable
  one) sends for a packet of a track are packets with the same payload, on the local tracks of
  open downtracks made for a track with the same ID that are connected to this router's
  forwarder for it, and nothing else.\<close>

theorem media_stays_on_track:
  assumes "wf w"
  shows "\<exists>h. hist (Router_Forward E r trackID packet layer w) = hist w @ h
    \<and> (\<forall>(e, err) \<in> set h. \<exists>f d p. gm_get (ro_forwarders (routers w r)) trackID = Some f
         \<and> d \<in> set (fw_downTracks (forwarders w f)) \<and> dtTrackID w d = trackID \<and> \<not> dt_closed (downtracks w d)
         \<and> e = WriteTrackRTP (dt_track (downtracks w d)) p \<and> Payload p = Payload packet)"
proof (cases "gm_get (ro_forwarders (routers w r)) trackID")
  case None
  then show ?thesis by (simp add: Router_Forward_def)
next
  case (Some f)
  obtain h where h: "hist (Forwarder_Forward E f packet layer w) = hist w @ h"
    "writesFor w (set (fw_downTracks (forwarders w f))) (Payload packet) h"
    using forwardAll_writes [of E f packet layer "rangeRef E w (fw_downTracks (forwarders w f))" w]
    by (auto simp: Forwarder_Forward_def)
  have "dtTrackID w d = trackID" if "d \<in> set (fw_downTracks (forwarders w f))" for d
    using that Some wf_parts(6) [OF assms, of f] wf_parts(7) [OF assms, of r]
    by (auto simp: forwarder_ok_def router_ok_def)
  with h Some show ?thesis
    unfolding writesFor_def Router_Forward_def by (intro exI [of _ h]) fastforce
qed

theorem media_stays_on_track_witness:
  "\<exists>h. hist (Router_Forward env0 4 ''cam'' examplePacket LayerHigh
              (snd (Router_Subscribe env0 4 0 exampleRouter)))
         = hist (snd (Router_Subscribe env0 4 0 exampleRouter)) @ h
     \<and> (\<forall>(e, err) \<in> set h. \<exists>t p. e = WriteTrackRTP t p \<and> Payload p = [0x10])"
proof -
  have "0 < nextRef exampleRouter"
    by (simp add: example_eval eval_nat_numeral)
  then have "wf (snd (Router_Subscribe env0 4 0 exampleRouter))"
    by (intro goodD(1) [OF good_Router_Subscribe wf_exampleRouter])
  from media_stays_on_track [OF this, of env0 4 "''cam''" examplePacket LayerHigh]
  show ?thesis by (fastforce simp: examplePacket_def)
qed


lemma exampleFailed_router: "ro_closed (routers exampleFailed 4)" "4 < nextRef exampleFailed"
proof -
  have "extends exampleJoined exampleFailed"
    unfolding exampleFailed_def
    by (rule goodD(2) [OF good_Publisher_callbacks(2) server.reach_inv [OF reachable_examples(1)]])
  then show "4 < nextRef exampleFailed"
    using exampleJoined_publisher(4) by (simp add: extends_def)
  show "ro_closed (routers exampleFailed 4)"
    using exampleJoined_publisher(2,3,5) ro_closed_Router_Close
    by (simp add: exampleFailed_def Publisher_onConnectionStateChange_def Publisher_Close_def Let_def
        upd_publisher_def call_def rangeVals_def rangeStr_def range_order_def gm_keys_def List.map_filter_def)
qed



text \<open>The session is deleted while the goroutine of its first peer waits.\<close>

definition exampleDeleted :: world where
  "exampleDeleted = DeleteSession env0 ''room'' exampleJoined"

lemma exampleDeleted_facts: "tasks exampleDeleted = [NotifyExisting 1 2]" "pe_closed (peers exampleDeleted 2)"
  unfolding exampleDeleted_def DeleteSession_def Session_Close_def exampleJoined_eq handleJoin_def joinRequest_decodes
  by (simp_all add: join_eval Peer_Close_def Publisher_Close_def rangeVals_def List.map_filter_simps
     example_eval eval_nat_numeral)


end
