(* ===== verification/Server.thy ===== *)
theory Server
  imports System "HOL-Library.Multiset"
begin

section \<open>The program (\<open>cmd/server/main.go\<close>)\<close>

text \<open>
  The process around the server: the command line, the HTTP server with its routes, and the way
  it ends. The main goroutine, the goroutine that listens, the handlers of requests, signals and
  the server's own goroutines are interleaved steps of one state. The standard library is modelled
  where the program depends on it: how \<open>flag\<close> reads the arguments, which handler the mux chooses
  for a path (paths are as the mux sees them, without \<open>//\<close> and dots), when \<open>ListenAndServe\<close> returns, that
  a signal which is not yet asked for ends the process, and that a notified channel of capacity
  one keeps one signal. The contents of files, and logging, are left out.
\<close>

subsection \<open>The command line\<close>

datatype parsed = Flags string string | FlagHelp | FlagError

text \<open>What follows the one or two dashes; arguments from the first that is no flag on are not flags.\<close>

fun flagName :: "string \<Rightarrow> string option" where
  "flagName (a # b # cs) =
     (if a \<noteq> CHR ''-'' then None
      else if b \<noteq> CHR ''-'' then Some (b # cs)
      else if cs = [] then None else Some cs)"
| "flagName _ = None"

fun splitValue :: "string \<Rightarrow> string \<times> string option" where
  "splitValue [] = ([], None)"
| "splitValue (c # cs) =
     (if c = CHR ''='' then ([], Some cs) else (case splitValue cs of (n, v) \<Rightarrow> (c # n, v)))"

definition setFlag :: "string \<Rightarrow> string \<Rightarrow> string \<times> string \<Rightarrow> string \<times> string" where
  "setFlag name v f = (if name = ''addr'' then (v, snd f) else (fst f, v))"

fun parseFlags :: "string list \<Rightarrow> string \<times> string \<Rightarrow> parsed" where
  "parseFlags [] f = Flags (fst f) (snd f)"
| "parseFlags (arg # args) f =
     (case flagName arg of
        None \<Rightarrow> Flags (fst f) (snd f)
      | Some text \<Rightarrow>
          if text = [] \<or> hd text = CHR ''-'' \<or> hd text = CHR ''='' then FlagError
          else (case splitValue text of
              (name, v) \<Rightarrow>
                if name = ''addr'' \<or> name = ''web''
                then (case v of
                        Some x \<Rightarrow> parseFlags args (setFlag name x f)
                      | None \<Rightarrow> (case args of
                                   [] \<Rightarrow> FlagError
                                 | x # rest \<Rightarrow> parseFlags rest (setFlag name x f)))
                else if name = ''help'' \<or> name = ''h'' then FlagHelp else FlagError))"

definition defaultFlags :: "string \<times> string" where
  "defaultFlags = ('':8080'', ''web'')"

subsection \<open>The process\<close>

datatype handler = WebSocketHandler | HealthHandler | FileHandler string

definition route :: "string \<Rightarrow> string \<Rightarrow> handler" where
  "route webDir path =
     (if path = ''/ws'' then WebSocketHandler
      else if path = ''/health'' then HealthHandler
      else FileHandler webDir)"

text \<open>Where the main goroutine is: before \<open>signal.Notify\<close>, at the receive, before
  \<open>server.Close\<close>, and before the end of \<open>main\<close>.\<close>

datatype main_at = MainSetup | MainWait | MainClose | MainDone

datatype listener_at = ListenStart | ListenServe | ListenFailed string | ListenDone

datatype exit = Exit nat | Killed

text \<open>\<open>pr_signal\<close> is the channel; \<open>pr_signals\<close> counts the signals sent to the process.\<close>

record process =
  pr_addr :: string
  pr_webDir :: string
  pr_sfu :: world
  pr_requests :: "handler multiset"
  pr_conns :: "ref list"
  pr_responses :: "(nat \<times> string) list"
  pr_main :: main_at
  pr_listener :: listener_at
  pr_signal :: bool
  pr_signals :: nat
  pr_serverClosed :: bool
  pr_exit :: "exit option"

definition mainConfig :: Config where
  "mainConfig = \<lparr>ICEServers = [[''stun:stun.l.google.com:19302'']]\<rparr>"

text \<open>\<open>main\<close> up to and including the \<open>go\<close> statement. A panic ends the process with status 2, as
  does an error in the flags; asking for help ends it with status 0.\<close>

definition main_start :: "string option \<Rightarrow> string list \<Rightarrow> nat + process" where
  "main_start registered args =
     (case parseFlags args defaultFlags of
        FlagError \<Rightarrow> Inl 2
      | FlagHelp \<Rightarrow> Inl 0
      | Flags addr webDir \<Rightarrow>
         (case NewSFU registered mainConfig of
            None \<Rightarrow> Inl 2
          | Some w \<Rightarrow>
              Inr \<lparr>pr_addr = addr, pr_webDir = webDir, pr_sfu = w, pr_requests = {#}, pr_conns = [],
                   pr_responses = [], pr_main = MainSetup, pr_listener = ListenStart,
                   pr_signal = False, pr_signals = 0, pr_serverClosed = False, pr_exit = None\<rparr>))"

subsection \<open>Steps\<close>

text \<open>The rest of \<open>main\<close>. What \<open>server.Close\<close> returns is only logged.\<close>

inductive main_step :: "process \<Rightarrow> process \<Rightarrow> bool" where
  notify: "pr_main p = MainSetup \<Longrightarrow> main_step p (p\<lparr>pr_main := MainWait\<rparr>)"
| receive: "pr_main p = MainWait \<Longrightarrow> pr_signal p \<Longrightarrow>
     main_step p (p\<lparr>pr_signal := False, pr_main := MainClose\<rparr>)"
| close: "pr_main p = MainClose \<Longrightarrow> main_step p (p\<lparr>pr_serverClosed := True, pr_main := MainDone\<rparr>)"
| return: "pr_main p = MainDone \<Longrightarrow> main_step p (p\<lparr>pr_exit := Some (Exit 0)\<rparr>)"

text \<open>The goroutine that listens. \<open>ListenAndServe\<close> returns \<open>http.ErrServerClosed\<close> after \<open>Close\<close>, and
  otherwise only with another error, upon which the process exits.\<close>

definition ErrServerClosed :: string where
  "ErrServerClosed = ''http: Server closed''"

inductive listener_step :: "process \<Rightarrow> process \<Rightarrow> bool" where
  listen: "pr_listener p = ListenStart \<Longrightarrow> \<not> pr_serverClosed p \<Longrightarrow>
     listener_step p (p\<lparr>pr_listener := ListenServe\<rparr>)"
| fail: "pr_listener p \<in> {ListenStart, ListenServe} \<Longrightarrow> \<not> pr_serverClosed p \<Longrightarrow> err \<noteq> ErrServerClosed \<Longrightarrow>
     listener_step p (p\<lparr>pr_listener := ListenFailed err\<rparr>)"
| closed: "pr_listener p \<in> {ListenStart, ListenServe} \<Longrightarrow> pr_serverClosed p \<Longrightarrow>
     listener_step p (p\<lparr>pr_listener := ListenDone\<rparr>)"
| exit: "pr_listener p = ListenFailed err \<Longrightarrow> listener_step p (p\<lparr>pr_exit := Some (Exit 1)\<rparr>)"

text \<open>A request gets a goroutine of its own, which runs its handler: the WebSocket's is
  \<open>HandleWebSocket\<close>, in rounds.\<close>

fun serve :: "env \<Rightarrow> handler \<Rightarrow> process \<Rightarrow> process" where
  "serve E WebSocketHandler p =
     (case openWebSocket E (pr_sfu p) of
        (None, w) \<Rightarrow> p\<lparr>pr_sfu := w\<rparr>
      | (Some conn, w) \<Rightarrow> p\<lparr>pr_sfu := w, pr_conns := conn # pr_conns p\<rparr>)"
| "serve E HealthHandler p = p\<lparr>pr_responses := pr_responses p @ [(200, ''OK'')]\<rparr>"
| "serve E (FileHandler dir) p = p"

inductive request_step :: "env \<Rightarrow> process \<Rightarrow> process \<Rightarrow> bool" for E :: env where
  arrive: "pr_listener p = ListenServe \<Longrightarrow> \<not> pr_serverClosed p \<Longrightarrow>
     request_step E p (p\<lparr>pr_requests := add_mset (route (pr_webDir p) path) (pr_requests p)\<rparr>)"
| handle: "h \<in># pr_requests p \<Longrightarrow>
     request_step E p (serve E h (p\<lparr>pr_requests := pr_requests p - {#h#}\<rparr>))"
| receive_message: "conn \<in> set (pr_conns p) \<Longrightarrow>
     request_step E p (p\<lparr>pr_sfu := handleMessage E conn message (pr_sfu p)\<rparr>)"
| connection_ends: "conn \<in> set (pr_conns p) \<Longrightarrow>
     request_step E p (p\<lparr>pr_sfu := snd (wsConn_Close E conn (pr_sfu p)),
                         pr_conns := remove1 conn (pr_conns p)\<rparr>)"

text \<open>SIGINT or SIGTERM from outside.\<close>

definition raiseSignal :: "process \<Rightarrow> process" where
  "raiseSignal p =
     (if pr_main p = MainSetup then p\<lparr>pr_signals := Suc (pr_signals p), pr_exit := Some Killed\<rparr>
      else p\<lparr>pr_signals := Suc (pr_signals p), pr_signal := True\<rparr>)"

inductive process_step :: "env \<Rightarrow> process \<Rightarrow> process \<Rightarrow> bool" for E :: env where
  main: "pr_exit p = None \<Longrightarrow> main_step p p' \<Longrightarrow> process_step E p p'"
| listener: "pr_exit p = None \<Longrightarrow> listener_step p p' \<Longrightarrow> process_step E p p'"
| request: "pr_exit p = None \<Longrightarrow> request_step E p p' \<Longrightarrow> process_step E p p'"
| signal: "pr_exit p = None \<Longrightarrow> process_step E p (raiseSignal p)"
| inside: "pr_exit p = None \<Longrightarrow> background_step E (pr_sfu p) w \<Longrightarrow> process_step E p (p\<lparr>pr_sfu := w\<rparr>)"

definition launched :: "process \<Rightarrow> bool" where
  "launched p \<longleftrightarrow> (\<exists>args. main_start None args = Inr p)"

abbreviation running :: "env \<Rightarrow> process \<Rightarrow> bool" where
  "running E \<equiv> reach launched (process_step E)"

subsection \<open>Flags\<close>

lemma splitValue_none: "CHR ''='' \<notin> set n \<Longrightarrow> splitValue n = (n, None)"
  by (induction n) auto

lemma splitValue_some: "CHR ''='' \<notin> set n \<Longrightarrow> splitValue (n @ CHR ''='' # v) = (n, Some v)"
  by (induction n) auto

text \<open>The two ways to give a flag, with one dash or two.\<close>

lemma parseFlags_addr:
  "parseFlags (''-addr'' # v # args) f = parseFlags args (v, snd f)"
  "parseFlags (''--addr'' # v # args) f = parseFlags args (v, snd f)"
  "parseFlags ((''-addr='' @ v) # args) f = parseFlags args (v, snd f)"
  "parseFlags ((''--addr='' @ v) # args) f = parseFlags args (v, snd f)"
  using splitValue_some [of "''addr''" v] by (simp_all add: setFlag_def)

lemma parseFlags_web:
  "parseFlags (''-web'' # v # args) f = parseFlags args (fst f, v)"
  "parseFlags (''--web'' # v # args) f = parseFlags args (fst f, v)"
  "parseFlags ((''-web='' @ v) # args) f = parseFlags args (fst f, v)"
  "parseFlags ((''--web='' @ v) # args) f = parseFlags args (fst f, v)"
  using splitValue_some [of "''web''" v] by (simp_all add: setFlag_def)

lemma launched_fields: "launched p \<Longrightarrow> pr_exit p = None \<and> pr_main p = MainSetup \<and> pr_listener p = ListenStart
    \<and> \<not> pr_signal p \<and> \<not> pr_serverClosed p \<and> pr_conns p = [] \<and> NewSFU None mainConfig = Some (pr_sfu p)"
  unfolding launched_def main_start_def NewSFU_def
  by (erule exE, case_tac "parseFlags args defaultFlags") auto

subsection \<open>The server inside the process\<close>

definition serverInside :: "env \<Rightarrow> process \<Rightarrow> bool" where
  "serverInside E p \<longleftrightarrow> reachable E (pr_sfu p) \<and> sfu_config (pr_sfu p) = mainConfig
     \<and> distinct (pr_conns p) \<and> (\<forall>c\<in>set (pr_conns p). c < nextRef (pr_sfu p))"

lemma serverInside_step:
  assumes p: "serverInside E p" and s: "sfu_step E (pr_sfu p) w" and w: "pr_sfu p' = w"
    and d: "distinct (pr_conns p')"
    and c: "\<And>c. c \<in> set (pr_conns p') \<Longrightarrow> c \<in> set (pr_conns p) \<or> c < nextRef w"
  shows "serverInside E p'"
proof -
  have "wf (pr_sfu p)"
    using p by (auto simp: serverInside_def intro: server.reach_inv)
  then have e: "extends (pr_sfu p) w"
    by (rule goodD(2) [OF good_sfu_step [OF s]])
  have "c < nextRef w" if "c \<in> set (pr_conns p')" for c
    using c [OF that] p extends_lt [OF e] by (auto simp: serverInside_def)
  then show ?thesis
    using p s w d extends_config [OF e] by (auto simp: serverInside_def intro: reach_step)
qed

lemma serverInside_same:
  "serverInside E p \<Longrightarrow> pr_sfu p' = pr_sfu p \<Longrightarrow> pr_conns p' = pr_conns p \<Longrightarrow> serverInside E p'"
  by (simp add: serverInside_def)

lemma serverInside_serve:
  assumes p: "serverInside E p"
  shows "serverInside E (serve E h p)"
proof (cases h)
  case WebSocketHandler
  obtain c w where o: "openWebSocket E (pr_sfu p) = (c, w)" by fastforce
  have s: "sfu_step E (pr_sfu p) w"
    using sfu_step.connect [of E "pr_sfu p"] o by simp
  show ?thesis
  proof (cases c)
    case None
    with WebSocketHandler o p show ?thesis
      by (intro serverInside_step [OF p s]) (simp_all add: serverInside_def)
  next
    case (Some conn)
    have "conn = nextRef (pr_sfu p)" "nextRef w = Suc conn"
      using o Some by (auto simp: openWebSocket_def newWSConn_def call_def fresh_def Let_def split: option.splits)
    with WebSocketHandler o Some p show ?thesis
      by (intro serverInside_step [OF p s]) (auto simp: serverInside_def)
  qed
qed (use p in \<open>auto intro: serverInside_same\<close>)

lemma outside_steps:
  "main_step p p' \<Longrightarrow> pr_sfu p' = pr_sfu p \<and> pr_conns p' = pr_conns p"
  "listener_step q q' \<Longrightarrow> pr_sfu q' = pr_sfu q \<and> pr_conns q' = pr_conns q"
  "pr_sfu (raiseSignal p) = pr_sfu p" "pr_conns (raiseSignal p) = pr_conns p"
  by (auto simp: raiseSignal_def elim: main_step.cases listener_step.cases)

lemma serverInside_request: "request_step E p p' \<Longrightarrow> serverInside E p \<Longrightarrow> serverInside E p'"
proof (induction rule: request_step.induct)
  case (handle h p)
  have "serverInside E (p\<lparr>pr_requests := pr_requests p - {#h#}\<rparr>)"
    by (rule serverInside_same [OF handle.prems]) simp_all
  then show ?case by (rule serverInside_serve)
next
  case (receive_message conn p message)
  show ?case
    by (rule serverInside_step [OF receive_message.prems sfu_step.message])
       (use receive_message.prems in \<open>auto simp: serverInside_def\<close>)
next
  case (connection_ends conn p)
  show ?case
    by (rule serverInside_step [OF connection_ends.prems sfu_step.disconnect])
       (use connection_ends.prems in \<open>auto simp: serverInside_def dest: notin_set_remove1\<close>)
qed (simp add: serverInside_def)

lemma serverInside_inv: "process_step E p p' \<Longrightarrow> serverInside E p \<Longrightarrow> serverInside E p'"
proof (induction rule: process_step.induct)
  case (main p p')
  then show ?case using outside_steps(1) serverInside_same by blast
next
  case (listener p p')
  then show ?case using outside_steps(2) serverInside_same by blast
next
  case (request p p')
  then show ?case by (simp add: serverInside_request)
next
  case (signal p)
  show ?case by (rule serverInside_same [OF signal.prems]) (rule outside_steps)+
next
  case (inside p w)
  show ?case
    by (rule serverInside_step [OF inside.prems sfu_step.background [OF inside.hyps(2)]])
       (use inside.prems in \<open>simp_all add: serverInside_def\<close>)
qed

lemma serverInside_launched:
  assumes "launched p"
  shows "serverInside E p"
proof -
  have w: "NewSFU None mainConfig = Some (pr_sfu p)" and c: "pr_conns p = []"
    using launched_fields [OF assms] by simp_all
  then have "reachable E (pr_sfu p)"
    by (intro reach_init) (auto simp: started_def)
  then show ?thesis
    using w c by (simp add: serverInside_def NewSFU_def flip: w [unfolded NewSFU_def, simplified])
qed

interpretation insideProcess: invariant_system launched "process_step E" "serverInside E" for E
  by unfold_locales (rule serverInside_launched, assumption, rule serverInside_inv)

subsection \<open>How the process ends\<close>

definition ending_ok :: "process \<Rightarrow> bool" where
  "ending_ok p \<longleftrightarrow> (pr_serverClosed p \<longleftrightarrow> pr_main p = MainDone)
     \<and> (pr_signal p \<or> pr_main p \<in> {MainClose, MainDone} \<longrightarrow> 0 < pr_signals p)
     \<and> (\<forall>err. pr_listener p = ListenFailed err \<longrightarrow> err \<noteq> ErrServerClosed)
     \<and> (pr_listener p = ListenDone \<longrightarrow> pr_serverClosed p)
     \<and> (\<forall>n. pr_exit p = Some (Exit n) \<longrightarrow>
          n = 0 \<and> pr_main p = MainDone \<or> n = 1 \<and> (\<exists>err. pr_listener p = ListenFailed err))
     \<and> (pr_exit p = Some Killed \<longrightarrow> pr_main p = MainSetup \<and> 0 < pr_signals p)"

lemma serve_life [simp]:
  "pr_main (serve E h p) = pr_main p" "pr_listener (serve E h p) = pr_listener p"
  "pr_signal (serve E h p) = pr_signal p" "pr_signals (serve E h p) = pr_signals p"
  "pr_serverClosed (serve E h p) = pr_serverClosed p" "pr_exit (serve E h p) = pr_exit p"
  by (cases h; simp split: prod.splits option.splits)+

lemma request_life:
  "request_step E p p' \<Longrightarrow> pr_main p' = pr_main p \<and> pr_listener p' = pr_listener p
     \<and> pr_signal p' = pr_signal p \<and> pr_signals p' = pr_signals p
     \<and> pr_serverClosed p' = pr_serverClosed p \<and> pr_exit p' = pr_exit p"
  by (induction rule: request_step.induct) simp_all

lemma ending_step: "process_step E p p' \<Longrightarrow> ending_ok p \<Longrightarrow> ending_ok p'"
proof (induction rule: process_step.induct)
  case (main p p')
  from main(2,1,3) show ?case
    by (induction rule: main_step.induct) (auto simp: ending_ok_def)
next
  case (listener p p')
  from listener(2,1,3) show ?case
    by (induction rule: listener_step.induct) (auto simp: ending_ok_def)
next
  case (request p p')
  then show ?case using request_life [OF request(2)] by (auto simp: ending_ok_def)
qed (auto simp: ending_ok_def raiseSignal_def)

lemma ending_launched: "launched p \<Longrightarrow> ending_ok p"
  by (drule launched_fields) (simp add: ending_ok_def)

interpretation endings: invariant_system launched "process_step E" ending_ok for E
  by unfold_locales (rule ending_launched, assumption, rule ending_step)

text \<open>A signal is on its way to the main goroutine, and the main steps that are left then.\<close>

definition shutting :: "process \<Rightarrow> bool" where
  "shutting p \<longleftrightarrow> pr_main p = MainWait \<and> pr_signal p \<or> pr_main p \<in> {MainClose, MainDone}"

definition mainLeft :: "process \<Rightarrow> nat" where
  "mainLeft p =
     (if pr_exit p \<noteq> None then 0
      else case pr_main p of MainSetup \<Rightarrow> 4 | MainWait \<Rightarrow> 3 | MainClose \<Rightarrow> 2 | MainDone \<Rightarrow> 1)"

lemma main_decreases: "main_step p p' \<Longrightarrow> pr_exit p = None \<Longrightarrow> mainLeft p' < mainLeft p"
  by (induction rule: main_step.induct) (auto simp: mainLeft_def)

lemma shutting_main: "main_step p p' \<Longrightarrow> shutting p \<Longrightarrow> shutting p'"
  by (induction rule: main_step.induct) (auto simp: shutting_def)

lemma shutting_step:
  "process_step E p p' \<Longrightarrow> shutting p \<Longrightarrow> shutting p' \<and> mainLeft p' \<le> mainLeft p"
proof (induction rule: process_step.induct)
  case (main p p')
  then show ?case
    using main_decreases [OF main(2,1)] shutting_main [OF main(2)] by simp
next
  case (listener p p')
  from listener(2,1,3) show ?case
    by (induction rule: listener_step.induct) (auto simp: shutting_def mainLeft_def)
next
  case (request p p')
  then show ?case using request_life [OF request(2)] by (simp add: shutting_def mainLeft_def)
qed (auto simp: shutting_def mainLeft_def raiseSignal_def)

text \<open>The deferred close is the last thing that a connection does. A request that cannot be
  upgraded changes nothing but the history of calls; otherwise the messages are handled in order on
  a fresh connection, which is then closed, once.\<close>

lemma HandleWebSocket_refused:
  "callErr E (hist w) UpgradeWS = Some err \<Longrightarrow>
     HandleWebSocket E messages w = w\<lparr>hist := hist w @ [(UpgradeWS, Some err)]\<rparr>"
  by (simp add: HandleWebSocket_def openWebSocket_def call_def Let_def)

lemma HandleWebSocket_served:
  fixes E :: env and w :: world and messages :: "json option list"
  assumes "callErr E (hist w) UpgradeWS = None"
  defines "v \<equiv> fold (handleMessage E (nextRef w)) messages
                (w\<lparr>hist := hist w @ [(UpgradeWS, None)], nextRef := Suc (nextRef w)\<rparr>)"
  shows "HandleWebSocket E messages w =
    v\<lparr>hist := hist v @ [(CloseWS (nextRef w), callErr E (hist v) (CloseWS (nextRef w)))]\<rparr>"
  unfolding v_def using assms(1)
  by (simp add: HandleWebSocket_def openWebSocket_def newWSConn_def handleConnection_def wsConn_Close_def
      call_def fresh_def Let_def)

subsection \<open>Properties\<close>


text \<open>C21: The exit status tells what happened. The process exits with status 0 only after a signal,
  and then the HTTP server is closed; with status 1 only when listening or serving failed with an
  error other than that of a closed server; it has no other exit status once \<open>main\<close> is past the
  flags; and it is killed by a signal only while \<open>main\<close> has not asked for signals yet.\<close>

theorem exit_status:
  assumes "running E p"
  shows "(pr_exit p = Some (Exit n) \<longrightarrow>
       n = 0 \<and> 0 < pr_signals p \<and> pr_serverClosed p
     \<or> n = 1 \<and> (\<exists>err. pr_listener p = ListenFailed err \<and> err \<noteq> ErrServerClosed))
   \<and> (pr_exit p = Some Killed \<longrightarrow> pr_main p = MainSetup \<and> 0 < pr_signals p)"
  using endings.reach_inv [OF assms] unfolding ending_ok_def by auto

text \<open>C22: A signal ends the process. Once a signal has been put in the channel, the main goroutine
  can always do its next step until the process has ended, at most three of its steps are left, and
  no other step of the process takes the signal away or adds steps to do.\<close>

theorem signal_ends_process:
  assumes "shutting p" and "pr_exit p = None"
  shows "(\<exists>p'. main_step p p') \<and> mainLeft p \<le> 3
    \<and> (\<forall>p'. process_step E p p' \<longrightarrow> shutting p' \<and> mainLeft p' \<le> mainLeft p)
    \<and> (\<forall>p'. main_step p p' \<longrightarrow> mainLeft p' < mainLeft p)
    \<and> (\<forall>p'. mainLeft p' = 0 \<longrightarrow> pr_exit p' \<noteq> None)"
proof (intro conjI allI impI)
  show "\<exists>p'. main_step p p'"
    using assms main_step.intros by (fastforce simp: shutting_def)
  show "mainLeft p \<le> 3"
    using assms by (auto simp: shutting_def mainLeft_def)
  show "shutting p'" "mainLeft p' \<le> mainLeft p" if "process_step E p p'" for p'
    using shutting_step [OF that assms(1)] by simp_all
  show "mainLeft p' < mainLeft p" if "main_step p p'" for p'
    by (rule main_decreases [OF that assms(2)])
  show "pr_exit p' \<noteq> None" if "mainLeft p' = 0" for p'
    using that by (auto simp: mainLeft_def split: main_at.splits if_splits)
qed

text \<open>C23: The end of a connection leaves its peers in the room. When a WebSocket connection ends,
  closing it is all that is done: every peer stays in its session, open or not as it was, and an
  open peer that joined over the connection is still written to over it.\<close>

theorem connection_end_leaves_peers:
  assumes "pr_exit p = None" and "conn \<in> set (pr_conns p)"
    and q: "\<not> pe_closed (peers (pr_sfu p) q)" "pe_conn (peers (pr_sfu p) q) = conn"
  shows "\<exists>p'. process_step E p p' \<and> pr_conns p' = remove1 conn (pr_conns p)
    \<and> (\<forall>k. GetSession (pr_sfu p') k = GetSession (pr_sfu p) k)
    \<and> (\<forall>s j. GetPeer (pr_sfu p') s j = GetPeer (pr_sfu p) s j) \<and> peers (pr_sfu p') = peers (pr_sfu p)
    \<and> (\<exists>err j. hist (snd (SendNotification E q meth params (pr_sfu p')))
                = hist (pr_sfu p') @ [(WriteWS conn j, err)])"
proof -
  let ?p' = "p\<lparr>pr_sfu := snd (wsConn_Close E conn (pr_sfu p)), pr_conns := remove1 conn (pr_conns p)\<rparr>"
  have "process_step E p ?p'"
    by (rule process_step.request [OF assms(1) connection_ends [OF assms(2)]])
  moreover have "GetSession (pr_sfu ?p') k = GetSession (pr_sfu p) k" "GetPeer (pr_sfu ?p') s j = GetPeer (pr_sfu p) s j"
    "peers (pr_sfu ?p') = peers (pr_sfu p)" for k s j
    by (simp_all add: wsConn_Close_def call_def Let_def GetSession_def GetPeer_def)
  ultimately show ?thesis
    using q by (intro exI [of _ ?p']) (auto simp: SendNotification_def wsConn_WriteMessage_def call_def Let_def)
qed


text \<open>The process is started with a port, listens, and gets a signal; meanwhile a WebSocket was opened.\<close>

definition exampleProcess :: process where
  "exampleProcess = (case main_start None [''-addr'', '':9000''] of Inr p \<Rightarrow> p)"

definition exampleServing :: process where
  "exampleServing = exampleProcess\<lparr>pr_listener := ListenServe, pr_main := MainWait\<rparr>"

definition exampleConnected :: process where
  "exampleConnected = serve env0 WebSocketHandler exampleServing"

definition exampleSignalled :: process where
  "exampleSignalled = raiseSignal exampleConnected"

definition exampleEnded :: process where
  "exampleEnded = exampleSignalled
     \<lparr>pr_signal := False, pr_main := MainClose, pr_serverClosed := True, pr_main := MainDone,
      pr_exit := Some (Exit 0)\<rparr>"

lemma exampleProcess_start:
  "main_start None [''-addr'', '':9000''] = Inr exampleProcess" "pr_addr exampleProcess = '':9000''"
  "pr_webDir exampleProcess = ''web''" "pr_requests exampleProcess = {#}"
  "pr_sfu exampleProcess = world0\<lparr>sfu_config := mainConfig\<rparr>"
  by (simp_all add: exampleProcess_def main_start_def NewSFU_def setFlag_def defaultFlags_def)

lemma exampleConnected_conns: "pr_conns exampleConnected = [1]" "pr_exit exampleConnected = None"
  "pr_main exampleConnected = MainWait" "pr_serverClosed exampleConnected = False"
  using launched_fields [of exampleProcess] exampleProcess_start
  by (auto simp: exampleConnected_def exampleServing_def openWebSocket_def newWSConn_def call_def fresh_def env0_def
      launched_def split: option.splits)

lemma running_examples: "running env0 exampleConnected" "running env0 exampleSignalled" "running env0 exampleEnded"
proof -
  note l = launched_fields [of exampleProcess]
  have launch: "launched exampleProcess"
    unfolding launched_def using exampleProcess_start(1) by blast
  let ?p1 = "exampleProcess\<lparr>pr_listener := ListenServe\<rparr>"
  let ?p2 = "exampleServing\<lparr>pr_requests := {#WebSocketHandler#}\<rparr>"
  have "process_step env0 exampleProcess ?p1"
    by (rule process_step.listener [OF _ listen]) (use l [OF launch] in simp_all)
  moreover have "running env0 exampleProcess" by (rule reach_init) (rule launch)
  ultimately have "running env0 ?p1" using reach_step by metis
  moreover have "process_step env0 ?p1 exampleServing"
    using process_step.main [OF _ notify, of ?p1 env0] l [OF launch] by (simp add: exampleServing_def)
  ultimately have "running env0 exampleServing" by (rule reach_step)
  moreover have "process_step env0 exampleServing ?p2"
    using process_step.request [OF _ arrive [of exampleServing env0 "''/ws''"]] l [OF launch]
      exampleProcess_start(4) by (simp add: exampleServing_def route_def)
  ultimately have "running env0 ?p2" by (rule reach_step)
  moreover have "exampleServing\<lparr>pr_requests := {#}\<rparr> = exampleServing" "pr_exit exampleServing = None"
    using exampleProcess_start(4) l [OF launch] by (cases exampleProcess; simp add: exampleServing_def)+
  then have "process_step env0 ?p2 exampleConnected"
    using process_step.request [OF _ handle [of WebSocketHandler ?p2 env0]]
    by (simp add: exampleConnected_def del: serve.simps)
  ultimately show c: "running env0 exampleConnected" by (rule reach_step)
  then show s: "running env0 exampleSignalled"
    unfolding exampleSignalled_def by (rule reach_step) (rule process_step.signal [OF exampleConnected_conns(2)])
  let ?s1 = "exampleSignalled\<lparr>pr_signal := False, pr_main := MainClose\<rparr>"
  let ?s2 = "?s1\<lparr>pr_serverClosed := True, pr_main := MainDone\<rparr>"
  have n: "pr_main exampleSignalled = MainWait" "pr_signal exampleSignalled" "pr_exit exampleSignalled = None"
    by (simp_all add: exampleSignalled_def raiseSignal_def exampleConnected_conns)
  have "process_step env0 exampleSignalled ?s1"
    by (rule process_step.main [OF n(3) receive [OF n(1,2)]])
  with s have "running env0 ?s1" by (rule reach_step)
  moreover have "process_step env0 ?s1 ?s2"
    by (rule process_step.main [OF _ close]) (simp_all add: n)
  ultimately have "running env0 ?s2" by (rule reach_step)
  moreover have "process_step env0 ?s2 exampleEnded"
    unfolding exampleEnded_def by (rule process_step.main [OF _ return]) (simp_all add: n)
  ultimately show "running env0 exampleEnded" by (rule reach_step)
qed


theorem exit_status_witness: "0 < pr_signals exampleEnded"
  using exit_status [OF running_examples(3), of 0] by (simp add: exampleEnded_def)

theorem signal_ends_process_witness: "\<exists>p'. main_step exampleSignalled p'"
proof -
  have "shutting exampleSignalled" "pr_exit exampleSignalled = None"
    by (simp_all add: shutting_def exampleSignalled_def raiseSignal_def exampleConnected_conns)
  from signal_ends_process [OF this] show ?thesis by blast
qed

text \<open>Peer 2 has joined over connection 0, which ends.\<close>

definition exampleJoinedProcess :: process where
  "exampleJoinedProcess = exampleServing\<lparr>pr_sfu := exampleJoined, pr_conns := [0]\<rparr>"

lemma exampleJoined_peer: "pe_closed (peers exampleJoined 2) = False" "pe_conn (peers exampleJoined 2) = 0"
  unfolding exampleJoined_eq handleJoin_def joinRequest_decodes
  by (simp_all add: join_eval example_eval eval_nat_numeral)

theorem connection_end_leaves_peers_witness:
  "\<exists>p'. process_step env0 exampleJoinedProcess p' \<and> pr_conns p' = []
     \<and> \<not> pe_closed (peers (pr_sfu p') 2) \<and> pe_conn (peers (pr_sfu p') 2) = 0"
proof -
  have "pr_exit exampleServing = None"
    using launched_fields [of exampleProcess] exampleProcess_start(1)
    by (auto simp: exampleServing_def launched_def)
  then show ?thesis
    using connection_end_leaves_peers [of exampleJoinedProcess 0 2 env0] exampleJoined_peer
    by (fastforce simp: exampleJoinedProcess_def)
qed

end
