(* ===== verification/Negotiation.thy ===== *)
theory Negotiation
  imports Subscriber
begin

section \<open>Negotiation, interleaved (\<open>subscriber.go\<close>)\<close>

text \<open>
  \<open>Negotiate\<close> and \<open>HandleAnswer\<close> release the negotiation lock before and between their calls of
  pion, so several goroutines can be inside them at once: one per subscription, one per track a
  publisher adds, one per answer. Here each of them is a thread with a program counter, and a step
  is one critical section or one call of pion. The state is that of one subscriber: its three
  flags, whether a local offer is applied and not answered yet (pion's state
  \<open>have-local-offer\<close>), and the threads inside.

  Two parameters stand for what is outside the package: \<open>accepts pending\<close> is whether pion may take
  an answer when \<open>pending\<close> says that an offer is waiting for one, and \<open>mayFail\<close> whether
  \<open>CreateOffer\<close> and \<open>SetLocalDescription\<close> may return errors. WebRTC specifies that an answer is
  rejected in every signalling state in which none is expected, which is the hypothesis
  \<open>\<not> accepts False\<close>.
\<close>

subsection \<open>States and steps\<close>

text \<open>Where a thread is: about to lock in \<open>Negotiate\<close>; about to create an offer, to apply it, to
  send it; about to reset after an error; about to lock in \<open>HandleAnswer\<close>.\<close>

datatype neg_pc = AtNegotiate | AtCreate | AtSetLocal | AtSend | AtReset | AtAnswer

text \<open>The last two fields count, for the theorems only: the calls of \<open>Negotiate\<close> that got the
  lock while the subscriber was open, and how many of these came before the last offer was
  created.\<close>

record negotiation =
  ng_closed :: bool
  ng_negotiating :: bool
  ng_needsOffer :: bool
  ng_pending :: bool
  ng_threads :: "neg_pc multiset"
  ng_requests :: nat
  ng_covered :: nat

definition negotiation0 :: negotiation where
  "negotiation0 = \<lparr>ng_closed = False, ng_negotiating = False, ng_needsOffer = False,
     ng_pending = False, ng_threads = {#}, ng_requests = 0, ng_covered = 0\<rparr>"

inductive neg_step :: "(bool \<Rightarrow> bool) \<Rightarrow> bool \<Rightarrow> negotiation \<Rightarrow> negotiation \<Rightarrow> bool"
  for accepts :: "bool \<Rightarrow> bool" and mayFail :: bool where
  request: "neg_step accepts mayFail n (n\<lparr>ng_threads := add_mset AtNegotiate (ng_threads n)\<rparr>)"
| closed: "ng_threads n = add_mset AtNegotiate T \<Longrightarrow> ng_closed n \<Longrightarrow>
     neg_step accepts mayFail n (n\<lparr>ng_threads := T\<rparr>)"
| busy: "ng_threads n = add_mset AtNegotiate T \<Longrightarrow> \<not> ng_closed n \<Longrightarrow> ng_negotiating n \<Longrightarrow>
     neg_step accepts mayFail n
       (n\<lparr>ng_needsOffer := True, ng_threads := T, ng_requests := Suc (ng_requests n)\<rparr>)"
| go: "ng_threads n = add_mset AtNegotiate T \<Longrightarrow> \<not> ng_closed n \<Longrightarrow> \<not> ng_negotiating n \<Longrightarrow>
     neg_step accepts mayFail n
       (n\<lparr>ng_negotiating := True, ng_needsOffer := False, ng_threads := add_mset AtCreate T,
          ng_requests := Suc (ng_requests n)\<rparr>)"
| created: "ng_threads n = add_mset AtCreate T \<Longrightarrow>
     neg_step accepts mayFail n
       (n\<lparr>ng_threads := add_mset AtSetLocal T, ng_covered := ng_requests n\<rparr>)"
| create_failed: "ng_threads n = add_mset AtCreate T \<Longrightarrow> mayFail \<Longrightarrow>
     neg_step accepts mayFail n (n\<lparr>ng_threads := add_mset AtReset T\<rparr>)"
| applied: "ng_threads n = add_mset AtSetLocal T \<Longrightarrow>
     neg_step accepts mayFail n (n\<lparr>ng_pending := True, ng_threads := add_mset AtSend T\<rparr>)"
| apply_failed: "ng_threads n = add_mset AtSetLocal T \<Longrightarrow> mayFail \<Longrightarrow>
     neg_step accepts mayFail n (n\<lparr>ng_threads := add_mset AtReset T\<rparr>)"
| sent: "ng_threads n = add_mset AtSend T \<Longrightarrow>
     neg_step accepts mayFail n (n\<lparr>ng_threads := T\<rparr>)"
| reset: "ng_threads n = add_mset AtReset T \<Longrightarrow>
     neg_step accepts mayFail n (n\<lparr>ng_negotiating := False, ng_threads := T\<rparr>)"
| answered: "accepts (ng_pending n) \<Longrightarrow>
     neg_step accepts mayFail n
       (n\<lparr>ng_pending := False, ng_threads := add_mset AtAnswer (ng_threads n)\<rparr>)"
| answer_done: "ng_threads n = add_mset AtAnswer T \<Longrightarrow>
     neg_step accepts mayFail n
       (n\<lparr>ng_negotiating := False, ng_needsOffer := False,
          ng_threads := (if ng_needsOffer n then add_mset AtNegotiate T else T)\<rparr>)"
| close: "neg_step accepts mayFail n (n\<lparr>ng_closed := True\<rparr>)"

inductive_cases neg_stepE: "neg_step accepts mayFail n n'"

text \<open>\<open>SendOffer\<close> goes on the same way whether the write failed or not, and an answer that pion
  rejects changes nothing.\<close>

abbreviation neg_reachable :: "(bool \<Rightarrow> bool) \<Rightarrow> bool \<Rightarrow> negotiation \<Rightarrow> bool" where
  "neg_reachable accepts mayFail \<equiv> reach (\<lambda>n. n = negotiation0) (neg_step accepts mayFail)"

subsection \<open>One negotiation at a time\<close>

text \<open>How many negotiations are under way: threads between taking and giving back
  \<open>negotiating\<close>, and an offer that waits for its answer.\<close>

definition underway :: "negotiation \<Rightarrow> nat" where
  "underway n = count (ng_threads n) AtCreate + count (ng_threads n) AtSetLocal
     + count (ng_threads n) AtReset + count (ng_threads n) AtAnswer + of_bool (ng_pending n)"

definition exclusive :: "negotiation \<Rightarrow> bool" where
  "exclusive n \<longleftrightarrow> underway n = of_bool (ng_negotiating n)"

lemma exclusive_step:
  assumes "neg_step accepts mayFail n n'" and "\<not> accepts False" and "exclusive n"
  shows "exclusive n'"
  using assms by (elim neg_stepE) (auto simp: exclusive_def underway_def of_bool_def split: if_splits)

lemma exclusive_init: "exclusive negotiation0"
  by (simp add: exclusive_def underway_def negotiation0_def)

interpretation oneOffer: invariant_system "\<lambda>n. n = negotiation0" "neg_step accepts mayFail"
  "\<lambda>n. \<not> accepts False \<longrightarrow> exclusive n" for accepts mayFail
  by unfold_locales (simp add: exclusive_init, blast intro: exclusive_step)

subsection \<open>Every request gets an offer\<close>

text \<open>Without errors, a noted request is always followed up, and a request that no offer covers yet
  is noted or has a thread that will create one.\<close>

definition followedUp :: "negotiation \<Rightarrow> bool" where
  "followedUp n \<longleftrightarrow> AtReset \<notin># ng_threads n \<and> (ng_needsOffer n \<longrightarrow> ng_negotiating n)
     \<and> (ng_covered n = ng_requests n \<or> ng_closed n \<or> ng_needsOffer n
        \<or> AtCreate \<in># ng_threads n \<or> AtNegotiate \<in># ng_threads n)"

lemma followedUp_step:
  assumes "neg_step accepts False n n'" and "followedUp n"
  shows "followedUp n'"
  using assms by (elim neg_stepE) (auto simp: followedUp_def)

lemma followedUp_init: "followedUp negotiation0"
  by (simp add: followedUp_def negotiation0_def)

interpretation noLoss: invariant_system "\<lambda>n. n = negotiation0" "neg_step accepts False" followedUp
  for accepts
  by unfold_locales (simp add: followedUp_init, blast intro: followedUp_step)

subsection \<open>The operations of theory \<open>Subscriber\<close> are runs of these steps\<close>

text \<open>Whether a local offer waits for its answer, from the calls made on a peer connection.\<close>

fun pendingStep :: "ref \<Rightarrow> bool \<Rightarrow> effect \<times> string option \<Rightarrow> bool" where
  "pendingStep pc b (SetLocalDescription pc' sdp, None) = (pc' = pc \<or> b)"
| "pendingStep pc b (SetRemoteDescription pc' sdp, None) = (pc' \<noteq> pc \<and> b)"
| "pendingStep pc b _ = b"

definition offerPending :: "ref \<Rightarrow> history \<Rightarrow> bool" where
  "offerPending pc h = foldl (pendingStep pc) False h"

lemma offerPending_append [simp]:
  "offerPending pc (h @ h') = foldl (pendingStep pc) (offerPending pc h) h'"
  by (simp add: offerPending_def)

definition simulates :: "world \<Rightarrow> ref \<Rightarrow> negotiation \<Rightarrow> bool" where
  "simulates w s n \<longleftrightarrow> ng_closed n = su_closed (subscribers w s)
     \<and> ng_negotiating n = su_negotiating (subscribers w s)
     \<and> ng_needsOffer n = su_needsOffer (subscribers w s)
     \<and> ng_pending n = offerPending (su_pc (subscribers w s)) (hist w)
     \<and> ng_threads n = replicate_mset (count_list (tasks w) (Renegotiate s)) AtNegotiate"

lemma SendOffer_simulates [simp]:
  "simulates (snd (SendOffer E p offer w)) s n = simulates w s n"
  by (simp add: simulates_def SendOffer_def SendNotification_def wsConn_WriteMessage_def call_def Let_def)

lemma reset_steps:
  assumes "neg_step accepts True m (m\<lparr>ng_threads := add_mset AtReset T\<rparr>)"
  shows "(neg_step accepts True)\<^sup>*\<^sup>* m (m\<lparr>ng_negotiating := False, ng_threads := T\<rparr>)"
  using assms neg_step.reset [of "m\<lparr>ng_threads := add_mset AtReset T\<rparr>" T accepts True]
  by (simp add: converse_rtranclp_into_rtranclp r_into_rtranclp)

text \<open>\<open>doNegotiate\<close> from a state with a thread that is about to create the offer.\<close>

text \<open>The steps of a goroutine that is about to create an offer: it fails there, or when it applies
  the offer, or sends it.\<close>

lemma create_steps:
  fixes n :: negotiation
  assumes thr: "ng_threads n = add_mset AtCreate T"
  defines "n2 \<equiv> n\<lparr>ng_threads := add_mset AtSetLocal T, ng_covered := ng_requests n\<rparr>"
  shows "(neg_step accepts True)\<^sup>*\<^sup>* n (n\<lparr>ng_negotiating := False, ng_threads := T\<rparr>)"
    "(neg_step accepts True)\<^sup>*\<^sup>* n (n2\<lparr>ng_negotiating := False, ng_threads := T\<rparr>)"
    "(neg_step accepts True)\<^sup>*\<^sup>* n (n2\<lparr>ng_pending := True, ng_threads := T\<rparr>)"
proof -
  let ?r = "neg_step accepts True" and ?n3 = "n2\<lparr>ng_pending := True, ng_threads := add_mset AtSend T\<rparr>"
  show "?r\<^sup>*\<^sup>* n (n\<lparr>ng_negotiating := False, ng_threads := T\<rparr>)"
    by (rule reset_steps) (simp add: neg_step.create_failed [OF thr])
  have 12: "?r n n2" unfolding n2_def by (rule neg_step.created [OF thr])
  have "?r\<^sup>*\<^sup>* n2 (n2\<lparr>ng_negotiating := False, ng_threads := T\<rparr>)"
    by (rule reset_steps, rule neg_step.apply_failed) (simp_all add: n2_def)
  with 12 show "?r\<^sup>*\<^sup>* n (n2\<lparr>ng_negotiating := False, ng_threads := T\<rparr>)"
    by (rule converse_rtranclp_into_rtranclp)
  have "?r n2 ?n3" by (rule neg_step.applied) (simp add: n2_def)
  moreover have "?r ?n3 (?n3\<lparr>ng_threads := T\<rparr>)" by (rule neg_step.sent) simp
  ultimately have "?r\<^sup>*\<^sup>* n (?n3\<lparr>ng_threads := T\<rparr>)"
    using 12 by (blast intro: converse_rtranclp_into_rtranclp)
  then show "?r\<^sup>*\<^sup>* n (n2\<lparr>ng_pending := True, ng_threads := T\<rparr>)" by simp
qed

lemma doNegotiate_steps:
  fixes n :: negotiation
  assumes sim: "simulates w s (n\<lparr>ng_threads := T\<rparr>)" and thr: "ng_threads n = add_mset AtCreate T"
  shows "\<exists>n'. (neg_step accepts True)\<^sup>*\<^sup>* n n' \<and> simulates (snd (doNegotiate E s w)) s n'"
proof -
  let ?r = "neg_step accepts True"
  define n2 where "n2 = n\<lparr>ng_threads := add_mset AtSetLocal T, ng_covered := ng_requests n\<rparr>"
  define pc where "pc = su_pc (subscribers w s)"
  define w2 where "w2 = snd (call E (CreateOffer pc) w)"
  define sl where "sl = SetLocalDescription pc (sdpOf E (hist w) (CreateOffer pc))"
  note steps = create_steps [OF thr, folded n2_def, where accepts = accepts]
  note defs = doNegotiate_def call_def Let_def resetNegotiationState_def simulates_def upd_subscriber_def
    n2_def w2_def sl_def pc_def
  show ?thesis
  proof (cases "callErr E (hist w) (CreateOffer pc)")
    case (Some err)
    then have "simulates (snd (doNegotiate E s w)) s (n\<lparr>ng_negotiating := False, ng_threads := T\<rparr>)"
      using sim by (simp add: defs)
    with steps(1) show ?thesis by blast
  next
    case c: None
    show ?thesis
    proof (cases "callErr E (hist w2) sl")
      case (Some err)
      with c have "simulates (snd (doNegotiate E s w)) s (n2\<lparr>ng_negotiating := False, ng_threads := T\<rparr>)"
        using sim by (simp add: defs)
      with steps(2) show ?thesis by blast
    next
      case None
      with c have "simulates (snd (call E sl w2)) s (n2\<lparr>ng_pending := True, ng_threads := T\<rparr>)"
        using sim by (simp add: defs)
      moreover have "snd (doNegotiate E s w) = snd (SendOffer E (su_peer (subscribers w s))
          (sdpOf E (hist w) (CreateOffer pc)) (snd (call E sl w2)))"
        using c None by (simp add: defs)
      ultimately show ?thesis using steps(3) by (metis SendOffer_simulates)
    qed
  qed
qed

text \<open>\<open>Negotiate\<close> from a state with a thread that is about to run it.\<close>

lemma Negotiate_steps:
  fixes n :: negotiation
  assumes sim: "simulates w s (n\<lparr>ng_threads := T\<rparr>)" and thr: "ng_threads n = add_mset AtNegotiate T"
  shows "\<exists>n'. (neg_step accepts True)\<^sup>*\<^sup>* n n' \<and> simulates (snd (Negotiate E s w)) s n'"
proof -
  consider "ng_closed n" | "\<not> ng_closed n" "ng_negotiating n" | "\<not> ng_closed n" "\<not> ng_negotiating n"
    by blast
  then show ?thesis
  proof cases
    case 1
    then have "simulates (snd (Negotiate E s w)) s (n\<lparr>ng_threads := T\<rparr>)"
      using sim by (simp add: Negotiate_def simulates_def)
    with neg_step.closed [OF thr 1] show ?thesis by blast
  next
    case 2
    then have "simulates (snd (Negotiate E s w)) s
      (n\<lparr>ng_needsOffer := True, ng_threads := T, ng_requests := Suc (ng_requests n)\<rparr>)"
      using sim by (simp add: Negotiate_def simulates_def upd_subscriber_def)
    with neg_step.busy [OF thr 2] show ?thesis by blast
  next
    case 3
    define v where "v = upd_subscriber s (\<lambda>x. x\<lparr>su_negotiating := True, su_needsOffer := False\<rparr>) w"
    define m where "m = n\<lparr>ng_negotiating := True, ng_needsOffer := False,
      ng_threads := add_mset AtCreate T, ng_requests := Suc (ng_requests n)\<rparr>"
    have "Negotiate E s w = doNegotiate E s v"
      using sim 3 by (simp add: Negotiate_def v_def simulates_def)
    moreover have "simulates v s (m\<lparr>ng_threads := T\<rparr>)"
      using sim by (simp add: simulates_def v_def m_def upd_subscriber_def)
    then obtain n' where "(neg_step accepts True)\<^sup>*\<^sup>* m n'" "simulates (snd (doNegotiate E s v)) s n'"
      using doNegotiate_steps [where w = v and n = m and T = T and accepts = accepts and E = E and s = s] by (auto simp: m_def)
    ultimately show ?thesis
      using neg_step.go [OF thr 3, of accepts True] by (metis m_def converse_rtranclp_into_rtranclp)
  qed
qed

lemma HandleAnswer_steps:
  assumes sim: "simulates w s n"
    and jsep: "callErr E (hist w) (SetRemoteDescription (su_pc (subscribers w s)) answer) = None \<Longrightarrow>
      accepts (ng_pending n)"
  shows "\<exists>n'. (neg_step accepts True)\<^sup>*\<^sup>* n n' \<and> simulates (snd (Subscriber_HandleAnswer E s answer w)) s n'"
proof (cases "callErr E (hist w) (SetRemoteDescription (su_pc (subscribers w s)) answer)")
  case (Some err)
  then have "simulates (snd (Subscriber_HandleAnswer E s answer w)) s n"
    using sim by (simp add: Subscriber_HandleAnswer_def call_def Let_def simulates_def)
  then show ?thesis by blast
next
  case None
  let ?T = "ng_threads n"
  define m where "m = n\<lparr>ng_pending := False, ng_threads := add_mset AtAnswer ?T\<rparr>"
  have "neg_step accepts True n m"
    unfolding m_def by (rule neg_step.answered [of accepts n True, OF jsep [OF None]])
  moreover have "neg_step accepts True m (m\<lparr>ng_negotiating := False, ng_needsOffer := False,
      ng_threads := (if ng_needsOffer m then add_mset AtNegotiate ?T else ?T)\<rparr>)"
    by (rule neg_step.answer_done) (simp add: m_def)
  moreover have "simulates (snd (Subscriber_HandleAnswer E s answer w)) s
      (m\<lparr>ng_negotiating := False, ng_needsOffer := False,
         ng_threads := (if ng_needsOffer m then add_mset AtNegotiate ?T else ?T)\<rparr>)"
    using sim None
    by (simp add: Subscriber_HandleAnswer_def call_def Let_def simulates_def upd_subscriber_def m_def spawn_def)
  ultimately show ?thesis by (blast intro: converse_rtranclp_into_rtranclp)
qed

subsection \<open>Properties\<close>



text \<open>Two requests, one of them while the first is under way, and two answers.\<close>

definition quietNegotiation :: negotiation where
  "quietNegotiation = negotiation0\<lparr>ng_requests := 3, ng_covered := 3\<rparr>"

lemma reachable_quiet: "neg_reachable (\<lambda>b. b) mayFail quietNegotiation"
proof -
  let ?s = "\<lambda>neg pend req cov needs T. \<lparr>ng_closed = False, ng_negotiating = neg, ng_needsOffer = needs,
    ng_pending = pend, ng_threads = T, ng_requests = req, ng_covered = cov\<rparr>"
  have 0: "neg_reachable (\<lambda>b. b) mayFail (?s False False 0 0 False {#})"
    by (rule reach_init) (simp add: negotiation0_def)
  have 1: "neg_reachable (\<lambda>b. b) mayFail (?s False False 0 0 False {#AtNegotiate, AtNegotiate#})"
    using reach_step [OF reach_step [OF 0 neg_step.request] neg_step.request] by simp
  have 2: "neg_reachable (\<lambda>b. b) mayFail (?s True False 1 0 False {#AtCreate, AtNegotiate#})"
    using reach_step [OF 1 neg_step.go [of _ "{#AtNegotiate#}"]] by simp
  have 3: "neg_reachable (\<lambda>b. b) mayFail (?s True False 2 0 True {#AtCreate#})"
    using reach_step [OF 2 neg_step.busy [of _ "{#AtCreate#}"]] by (simp add: add_mset_commute eval_nat_numeral)
  have round: "neg_reachable (\<lambda>b. b) mayFail (?s True True r r d {#})"
    if "neg_reachable (\<lambda>b. b) mayFail (?s True False r c d {#AtCreate#})" for r c d
    using reach_step [OF reach_step [OF reach_step [OF that neg_step.created [of _ "{#}"]]
        neg_step.applied [of _ "{#}"]] neg_step.sent [of _ "{#}"]] by (simp add: eval_nat_numeral)
  have 4: "neg_reachable (\<lambda>b. b) mayFail (?s False False 2 2 False {#AtNegotiate#})"
    using reach_step [OF reach_step [OF round [OF 3] neg_step.answered] neg_step.answer_done [of _ "{#}"]]
    by (simp add: eval_nat_numeral)
  have 5: "neg_reachable (\<lambda>b. b) mayFail (?s True False 3 2 False {#AtCreate#})"
    using reach_step [OF 4 neg_step.go [of _ "{#}"]] by (simp add: eval_nat_numeral)
  have "neg_reachable (\<lambda>b. b) mayFail (?s False False 3 3 False {#})"
    using reach_step [OF reach_step [OF round [OF 5] neg_step.answered] neg_step.answer_done [of _ "{#}"]]
    by (simp add: eval_nat_numeral)
  then show ?thesis
    by (simp add: quietNegotiation_def negotiation0_def)
qed





subsection \<open>What errors do\<close>

text \<open>A request can be forgotten. When a second request comes in while the first one is creating
  its offer, and creating it fails, the reset clears \<open>negotiating\<close> only: no goroutine is left, the
  second request is noted in \<open>needsOffer\<close>, but nobody negotiates for it, although its caller got
  no error.\<close>

theorem failure_forgets_request:
  "\<exists>n. neg_reachable accepts True n \<and> ng_threads n = {#} \<and> \<not> ng_pending n \<and> \<not> ng_closed n
     \<and> ng_needsOffer n \<and> \<not> ng_negotiating n \<and> ng_covered n < ng_requests n"
proof -
  let ?s = "\<lambda>neg needs req T. \<lparr>ng_closed = False, ng_negotiating = neg, ng_needsOffer = needs,
    ng_pending = False, ng_threads = T, ng_requests = req, ng_covered = 0\<rparr>"
  have 0: "neg_reachable accepts True (?s False False 0 {#})"
    by (rule reach_init) (simp add: negotiation0_def)
  have 1: "neg_reachable accepts True (?s False False 0 {#AtNegotiate, AtNegotiate#})"
    using reach_step [OF reach_step [OF 0 neg_step.request] neg_step.request] by simp
  have 2: "neg_reachable accepts True (?s True False 1 {#AtCreate, AtNegotiate#})"
    using reach_step [OF 1 neg_step.go [of _ "{#AtNegotiate#}"]] by simp
  have 3: "neg_reachable accepts True (?s True True 2 {#AtCreate#})"
    using reach_step [OF 2 neg_step.busy [of _ "{#AtCreate#}"]] by (simp add: add_mset_commute eval_nat_numeral)
  have "neg_reachable accepts True (?s False True 2 {#})"
    using reach_step [OF reach_step [OF 3 neg_step.create_failed [of _ "{#}"]] neg_step.reset [of _ "{#}"]]
    by (simp add: eval_nat_numeral)
  then show ?thesis by (intro exI) auto
qed

text \<open>An offer that could not be written blocks the subscriber: \<open>negotiating\<close> stays set, so every
  later \<open>Negotiate\<close> only notes that an offer is owed.\<close>

theorem unsent_offer_blocks:
  fixes E :: env and w :: world and s :: ref
  assumes "\<not> su_closed (subscribers w s)" and "\<not> su_negotiating (subscribers w s)"
    and "\<not> pe_closed (peers w (su_peer (subscribers w s)))"
    and "\<And>h e. callErr E h e = (case e of WriteWS conn message \<Rightarrow> Some ''broken pipe'' | _ \<Rightarrow> None)"
  defines "w' \<equiv> snd (Negotiate E s w)"
  shows "fst (Negotiate E s w) = Some ''broken pipe''
    \<and> Negotiate E s w' = (None, upd_subscriber s (\<lambda>x. x\<lparr>su_needsOffer := True\<rparr>) w')"
  using assms
  by (simp add: Negotiate_def doNegotiate_def call_def SendOffer_def SendNotification_def
      wsConn_WriteMessage_def Let_def upd_subscriber_def)

definition brokenPipe :: env where
  "brokenPipe = env0\<lparr>callErr := (\<lambda>h e. case e of WriteWS conn message \<Rightarrow> Some ''broken pipe'' | _ \<Rightarrow> None)\<rparr>"

theorem unsent_offer_blocks_witness: "fst (Negotiate brokenPipe 0 world0) = Some ''broken pipe''"
  using unsent_offer_blocks [of world0 0 brokenPipe] by (simp add: brokenPipe_def world0_def)

end
