(* ===== verification/Routing.thy ===== *)
theory Routing
  imports Router
begin

section \<open>Publishing and subscribing, interleaved (\<open>router.go\<close>)\<close>

text \<open>
  \<open>Router.AddTrack\<close> holds the router's lock only while it registers the track and copies the set
  of subscribers; it connects these afterwards, while other tracks come and other clients
  subscribe. \<open>Router.Subscribe\<close> holds the lock throughout. Here each call on one router is a thread
  with a program counter, whose steps are critical sections and calls; the world is the store of
  theory \<open>World\<close>, and other operations of the server happen in between.
\<close>

subsection \<open>Threads\<close>

text \<open>Where a call of \<open>AddTrack\<close> is: about to lock; at the head of its loop, with the subscribers
  left; before \<open>GetDownTrack\<close>, before \<open>forwarder.AddDownTrack\<close>, before \<open>Negotiate\<close> for one
  subscriber. The same for \<open>Subscribe\<close>, whose loop runs over track IDs under the lock.\<close>

datatype route_thread =
  AtAddTrack ref
| AtSubscriber ref ref string "ref list"
| AtGetDownTrack ref ref string ref "ref list"
| AtAddToForwarder ref ref string ref ref "ref list"
| AtNegotiation ref ref string ref "ref list"
| AtSubscribe ref
| AtTrack ref "string list"
| AtLookup ref ref string "string list"
| AtConnect ref ref string ref "string list"

fun locks :: "route_thread \<Rightarrow> bool" where
  "locks (AtAddTrack track) = True"
| "locks (AtSubscribe s) = True"
| "locks _ = False"

fun holdsLock :: "route_thread \<Rightarrow> bool" where
  "holdsLock (AtTrack s ids) = True"
| "holdsLock (AtLookup s f k ids) = True"
| "holdsLock (AtConnect s f k dt ids) = True"
| "holdsLock _ = False"

text \<open>The critical section at the start of \<open>AddTrack\<close>: the new forwarder and the world.\<close>

definition registerTrack :: "ref \<Rightarrow> ref \<Rightarrow> world \<Rightarrow> ref \<times> world" where
  "registerTrack r track w =
     (let trackID = tk_trackID (tracks w track);
          w = upd_router r (\<lambda>x. x\<lparr>ro_tracks := gm_put trackID track (ro_tracks x)\<rparr>) w;
          (forwarder, w) = NewForwarder track w
      in (forwarder, upd_router r (\<lambda>x. x\<lparr>ro_forwarders := gm_put trackID forwarder (ro_forwarders x)\<rparr>) w))"

text \<open>One step of a call of \<open>AddTrack\<close>.\<close>

fun addTrackStep :: "env \<Rightarrow> ref \<Rightarrow> route_thread \<Rightarrow> world \<Rightarrow> route_thread option \<times> world" where
  "addTrackStep E r (AtAddTrack track) w =
     (if ro_closed (routers w r) then (None, w)
      else (let (forwarder, w') = registerTrack r track w
            in (Some (AtSubscriber track forwarder (tk_trackID (tracks w track))
                       (rangeRef E w' (ro_subscribers (routers w' r)))), w')))"
| "addTrackStep E r (AtSubscriber track forwarder trackID []) w =
     (None, Broadcast E (ro_session (routers w r)) (ro_id (routers w r)) ''trackAdded''
              (trackAddedParams (ro_id (routers w r)) (tracks w track)) w)"
| "addTrackStep E r (AtSubscriber track forwarder trackID (sub # subs)) w =
     (case AddDownTrack E sub track w of
        (Some err, w) \<Rightarrow> (Some (AtSubscriber track forwarder trackID subs), w)
      | (None, w) \<Rightarrow> (Some (AtGetDownTrack track forwarder trackID sub subs), w))"
| "addTrackStep E r (AtGetDownTrack track forwarder trackID sub subs) w =
     (case GetDownTrack w sub trackID of
        None \<Rightarrow> (Some (AtNegotiation track forwarder trackID sub subs), w)
      | Some dt \<Rightarrow> (Some (AtAddToForwarder track forwarder trackID sub dt subs), w))"
| "addTrackStep E r (AtAddToForwarder track forwarder trackID sub dt subs) w =
     (Some (AtNegotiation track forwarder trackID sub subs), Forwarder_AddDownTrack forwarder dt w)"
| "addTrackStep E r (AtNegotiation track forwarder trackID sub subs) w =
     (Some (AtSubscriber track forwarder trackID subs), snd (Negotiate E sub w))"
| "addTrackStep E r _ w = (None, w)"

text \<open>One step of a call of \<open>Subscribe\<close>; with the first error it returns and gives the lock back.\<close>

fun subscribeStep :: "env \<Rightarrow> ref \<Rightarrow> route_thread \<Rightarrow> world \<Rightarrow> route_thread option \<times> world" where
  "subscribeStep E r (AtSubscribe s) w =
     (let w = upd_router r (\<lambda>x. x\<lparr>ro_subscribers := ref_add s (ro_subscribers x)\<rparr>) w
      in (Some (AtTrack s (rangeStr E w (ro_tracks (routers w r)))), w))"
| "subscribeStep E r (AtTrack s []) w = (None, w)"
| "subscribeStep E r (AtTrack s (trackID # ids)) w =
     (case gm_get (ro_tracks (routers w r)) trackID of
        None \<Rightarrow> (Some (AtTrack s ids), w)
      | Some track \<Rightarrow>
         (case AddDownTrack E s track w of
            (Some err, w) \<Rightarrow> (None, w)
          | (None, w) \<Rightarrow>
             (case gm_get (ro_forwarders (routers w r)) trackID of
                None \<Rightarrow> (Some (AtTrack s ids), w)
              | Some forwarder \<Rightarrow> (Some (AtLookup s forwarder trackID ids), w))))"
| "subscribeStep E r (AtLookup s forwarder trackID ids) w =
     (case GetDownTrack w s trackID of
        None \<Rightarrow> (Some (AtTrack s ids), w)
      | Some dt \<Rightarrow> (Some (AtConnect s forwarder trackID dt ids), w))"
| "subscribeStep E r (AtConnect s forwarder trackID dt ids) w =
     (Some (AtTrack s ids), Forwarder_AddDownTrack forwarder dt w)"
| "subscribeStep E r _ w = (None, w)"

fun subscribing :: "route_thread \<Rightarrow> bool" where
  "subscribing (AtSubscribe s) = True"
| "subscribing (AtTrack s ids) = True"
| "subscribing (AtLookup s f k ids) = True"
| "subscribing (AtConnect s f k dt ids) = True"
| "subscribing _ = False"

definition routeStep :: "env \<Rightarrow> ref \<Rightarrow> route_thread \<Rightarrow> world \<Rightarrow> route_thread option \<times> world" where
  "routeStep E r th w = (if subscribing th then subscribeStep E r th w else addTrackStep E r th w)"

subsection \<open>Steps\<close>

text \<open>What the rest of the server does to a router in the meantime: it may take subscribers out of
  it, close anything, send and receive, and forward packets, where it takes a downtrack out of a
  forwarder only after a write to its local track has failed; it does not touch the router's tracks
  and forwarders, and takes no downtrack from a subscriber and no layer from a track.\<close>

fun failedWrite :: "ref \<Rightarrow> effect \<times> string option \<Rightarrow> bool" where
  "failedWrite t (WriteTrackRTP t' p, Some err) = (t' = t)"
| "failedWrite t _ = False"

definition writeFailed :: "world \<Rightarrow> ref \<Rightarrow> bool" where
  "writeFailed w d \<longleftrightarrow> list_ex (failedWrite (dt_track (downtracks w d))) (hist w)"

definition steady :: "world \<Rightarrow> world \<Rightarrow> bool" where
  "steady v w \<longleftrightarrow> extends v w
     \<and> (\<forall>t<nextRef v. GetBestLayer v t \<noteq> None \<longrightarrow> GetBestLayer w t \<noteq> None)
     \<and> (\<forall>s<nextRef v. \<forall>k d. GetDownTrack v s k = Some d \<longrightarrow> GetDownTrack w s k = Some d)
     \<and> (\<forall>f<nextRef v. \<forall>d<nextRef v. d \<in> set (fw_downTracks (forwarders v f)) \<longrightarrow>
          d \<in> set (fw_downTracks (forwarders w f)) \<or> writeFailed w d)"

definition undisturbed :: "ref \<Rightarrow> world \<Rightarrow> world \<Rightarrow> bool" where
  "undisturbed r v w \<longleftrightarrow> steady v w
     \<and> ro_tracks (routers w r) = ro_tracks (routers v r)
     \<and> ro_forwarders (routers w r) = ro_forwarders (routers v r)
     \<and> set (ro_subscribers (routers w r)) \<subseteq> set (ro_subscribers (routers v r))"

text \<open>The thread after a step, if the call has not returned.\<close>

primrec mset_of_option :: "'a option \<Rightarrow> 'a multiset" where
  "mset_of_option None = {#}"
| "mset_of_option (Some x) = {#x#}"

lemma in_mset_of_option [simp]: "x \<in># mset_of_option y \<longleftrightarrow> y = Some x"
  by (cases y) auto

type_synonym routing = "world \<times> route_thread multiset"

inductive route_step :: "env \<Rightarrow> ref \<Rightarrow> routing \<Rightarrow> routing \<Rightarrow> bool" for E :: env and r :: ref where
  publish: "track < nextRef w \<Longrightarrow> GetBestLayer w track \<noteq> None \<Longrightarrow>
     route_step E r (w, T) (w, add_mset (AtAddTrack track) T)"
| subscribe: "s < nextRef w \<Longrightarrow> route_step E r (w, T) (w, add_mset (AtSubscribe s) T)"
| thread: "locks th \<longrightarrow> (\<forall>u\<in>#T. \<not> holdsLock u) \<Longrightarrow> routeStep E r th w = (next, w') \<Longrightarrow>
     route_step E r (w, add_mset th T) (w', T + mset_of_option next)"
| other: "good w w' \<Longrightarrow> undisturbed r w w' \<Longrightarrow> route_step E r (w, T) (w', T)"

inductive_cases route_stepE: "route_step E r x y"

subsection \<open>Nothing is forgotten\<close>

definition linked :: "world \<Rightarrow> ref \<Rightarrow> string \<Rightarrow> ref \<Rightarrow> bool" where
  "linked w s trackID f \<longleftrightarrow>
     (\<exists>d. GetDownTrack w s trackID = Some d
        \<and> (d \<in> set (fw_downTracks (forwarders w f)) \<or> writeFailed w d))"

text \<open>Whether a thread will still link a subscriber to the forwarder of a track ID.\<close>

fun due :: "route_thread \<Rightarrow> ref \<Rightarrow> string \<Rightarrow> ref \<Rightarrow> bool" where
  "due (AtSubscriber track f k subs) s k' f' = (f = f' \<and> k = k' \<and> s \<in> set subs)"
| "due (AtGetDownTrack track f k sub subs) s k' f' = (f = f' \<and> k = k' \<and> s \<in> set (sub # subs))"
| "due (AtAddToForwarder track f k sub dt subs) s k' f' = (f = f' \<and> k = k' \<and> s \<in> set (sub # subs))"
| "due (AtNegotiation track f k sub subs) s k' f' = (f = f' \<and> k = k' \<and> s \<in> set subs)"
| "due (AtTrack s' ids) s k' f' = (s' = s \<and> k' \<in> set ids)"
| "due (AtLookup s' f k ids) s k' f' = (s' = s \<and> k' \<in> set (k # ids))"
| "due (AtConnect s' f k dt ids) s k' f' = (s' = s \<and> k' \<in> set (k # ids))"
| "due _ s k' f' = False"

definition adding_ok :: "world \<Rightarrow> ref \<Rightarrow> ref \<Rightarrow> string \<Rightarrow> ref list \<Rightarrow> bool" where
  "adding_ok w track f k subs \<longleftrightarrow> track < nextRef w \<and> f < nextRef w \<and> GetBestLayer w track \<noteq> None
     \<and> tk_trackID (tracks w track) = k \<and> fwTrackID w f = k \<and> (\<forall>s\<in>set subs. s < nextRef w)"

fun thread_ok :: "ref \<Rightarrow> world \<Rightarrow> route_thread \<Rightarrow> bool" where
  "thread_ok r w (AtAddTrack track) = (track < nextRef w \<and> GetBestLayer w track \<noteq> None)"
| "thread_ok r w (AtSubscriber track f k subs) = adding_ok w track f k subs"
| "thread_ok r w (AtGetDownTrack track f k sub subs) =
     (adding_ok w track f k (sub # subs) \<and> (su_closed (subscribers w sub) \<or> GetDownTrack w sub k \<noteq> None))"
| "thread_ok r w (AtAddToForwarder track f k sub dt subs) =
     (adding_ok w track f k (sub # subs) \<and> GetDownTrack w sub k = Some dt)"
| "thread_ok r w (AtNegotiation track f k sub subs) = adding_ok w track f k (sub # subs)"
| "thread_ok r w (AtSubscribe s) = (s < nextRef w)"
| "thread_ok r w (AtTrack s ids) = (s < nextRef w)"
| "thread_ok r w (AtLookup s f k ids) =
     (s < nextRef w \<and> gm_get (ro_forwarders (routers w r)) k = Some f
      \<and> (su_closed (subscribers w s) \<or> GetDownTrack w s k \<noteq> None))"
| "thread_ok r w (AtConnect s f k dt ids) =
     (s < nextRef w \<and> gm_get (ro_forwarders (routers w r)) k = Some f \<and> GetDownTrack w s k = Some dt)"

definition wanted :: "ref \<Rightarrow> world \<Rightarrow> ref \<Rightarrow> string \<Rightarrow> ref \<Rightarrow> bool" where
  "wanted r w s k f \<longleftrightarrow> s \<in> set (ro_subscribers (routers w r)) \<and> \<not> su_closed (subscribers w s)
     \<and> gm_get (ro_tracks (routers w r)) k \<noteq> None
     \<and> gm_get (ro_forwarders (routers w r)) k = Some f \<and> \<not> fw_closed (forwarders w f)"

fun routed :: "ref \<Rightarrow> routing \<Rightarrow> bool" where
  "routed r (w, T) \<longleftrightarrow> wf w
     \<and> (\<forall>k t. gm_get (ro_tracks (routers w r)) k = Some t \<longrightarrow> GetBestLayer w t \<noteq> None)
     \<and> (\<forall>th\<in>#T. thread_ok r w th)
     \<and> (\<forall>s k f. wanted r w s k f \<longrightarrow> linked w s k f \<or> (\<exists>th\<in>#T. due th s k f))"

text \<open>What the steps of others leave true.\<close>

lemma writeFailed_extends:
  "extends v w \<Longrightarrow> d < nextRef v \<Longrightarrow> writeFailed v d \<Longrightarrow> writeFailed w d"
  using extends_fields(7) [of v w d] extends_hist [of v w] by (auto simp: writeFailed_def prefix_def)

interpretation steady: frame steady
proof
  fix u v w
  assume "steady u v" and "steady v w"
  then show "steady u w"
    using extends_trans [of u v w] extends_lt [of u v] writeFailed_extends [of v w]
    unfolding steady_def by meson
qed (simp add: steady_def extends_refl)

lemma steady_facts:
  assumes "steady v w"
  shows "nextRef v \<le> nextRef w" "x < nextRef v \<Longrightarrow> x < nextRef w"
    "x < nextRef v \<Longrightarrow> GetBestLayer v x \<noteq> None \<Longrightarrow> GetBestLayer w x \<noteq> None"
    "x < nextRef v \<Longrightarrow> GetDownTrack v x k = Some d \<Longrightarrow> GetDownTrack w x k = Some d"
    "x < nextRef v \<Longrightarrow> d < nextRef v \<Longrightarrow> d \<in> set (fw_downTracks (forwarders v x)) \<Longrightarrow>
       d \<in> set (fw_downTracks (forwarders w x)) \<or> writeFailed w d"
    "x < nextRef v \<Longrightarrow> tk_trackID (tracks w x) = tk_trackID (tracks v x)"
    "x < nextRef v \<Longrightarrow> su_closed (subscribers v x) \<Longrightarrow> su_closed (subscribers w x)"
    "x < nextRef v \<Longrightarrow> fw_closed (forwarders v x) \<Longrightarrow> fw_closed (forwarders w x)"
    "x < nextRef v \<Longrightarrow> fw_trackReceiver (forwarders v x) < nextRef v \<Longrightarrow> fwTrackID w x = fwTrackID v x"
  using assms extends_fields(1,9,10,16) [of v w] extends_lt [of v w] extends_next [of v w]
  by (auto simp: steady_def fwTrackID_def extends_fields)

lemma linked_steady:
  assumes st: "steady v w" and wf: "wf v" and "s < nextRef v" "f < nextRef v" and "linked v s k f"
  shows "linked w s k f"
proof -
  obtain d where d: "GetDownTrack v s k = Some d" "d \<in> set (fw_downTracks (forwarders v f)) \<or> writeFailed v d"
    using assms(5) by (auto simp: linked_def)
  have "d < nextRef v"
    using wf_parts(8) [OF wf, of s] d(1) by (auto simp: GetDownTrack_def subscriber_ok_def)
  moreover have "extends v w" using st by (simp add: steady_def)
  ultimately show ?thesis
    using d steady_facts(4,5) [OF st] assms(3,4) writeFailed_extends [of v w d]
    unfolding linked_def by blast
qed

lemma adding_ok_steady:
  assumes "steady v w" and "wf v" and "adding_ok v track f k subs"
  shows "adding_ok w track f k subs"
  using assms steady_facts [OF assms(1)] fw_ref [OF assms(2), of f] by (auto simp: adding_ok_def)

lemma thread_ok_steady:
  assumes st: "steady v w" and wf: "wf v" and ok: "thread_ok r v th"
    and "holdsLock th \<Longrightarrow> ro_forwarders (routers w r) = ro_forwarders (routers v r)"
  shows "thread_ok r w th"
proof (cases th)
  case (AtGetDownTrack track f k sub subs)
  then have "sub < nextRef v" using ok by (simp add: adding_ok_def)
  then show ?thesis
    using AtGetDownTrack ok adding_ok_steady [OF st wf] steady_facts(4,7) [OF st] by auto
next
  case (AtAddToForwarder track f k sub dt subs)
  then have "sub < nextRef v" using ok by (simp add: adding_ok_def)
  then show ?thesis
    using AtAddToForwarder ok adding_ok_steady [OF st wf] steady_facts(4) [OF st] by auto
qed (use assms adding_ok_steady [OF st wf] steady_facts [OF st] in auto)

text \<open>A thread's own step, outside the two locking ones.\<close>

lemma connected_steady:
  assumes "good v w" and "wf v" and con: "\<And>s. connected s v w"
  shows "steady v w" "undisturbed r v w" "routers w = routers v"
proof -
  show "routers w = routers v" using con by (simp add: connected_def)
  moreover have "GetBestLayer w t = GetBestLayer v t" for t
    using con by (intro GetBestLayer_cong) (simp_all add: connected_def)
  ultimately show "steady v w" "undisturbed r v w"
    using goodD(2) [OF assms(1,2)] con by (simp_all add: steady_def undisturbed_def connected_def subset_iff)
qed

lemma connected_Broadcast: "connected s w (Broadcast E se p meth params w)"
proof -
  obtain h where "Broadcast E se p meth params w = w\<lparr>hist := h\<rparr>"
    using broadcaster.fold_sends by (metis Broadcast_def)
  then show ?thesis by (simp add: connected_def GetDownTrack_def)
qed

lemma connected_Forwarder_AddDownTrack: "connected s w (Forwarder_AddDownTrack f dt w)"
  by (auto simp: connected_def GetDownTrack_def Forwarder_AddDownTrack_def upd_forwarder_def)

lemma good_addDownTrackTo:
  assumes "wf w" and "GetDownTrack w s k = Some dt" and "fwTrackID w f = k"
  shows "good w (Forwarder_AddDownTrack f dt w)"
  using assms wf_parts(8) [OF assms(1), of s]
  by (auto simp: GetDownTrack_def subscriber_ok_def intro: good_Forwarder_AddDownTrack)

lemma addTrackStep_good:
  assumes w: "wf w" and ok: "thread_ok r w th" and lk: "\<not> locks th"
  shows "good w (snd (addTrackStep E r th w)) \<and> connected s w (snd (addTrackStep E r th w))"
proof (cases "(E, r, th, w)" rule: addTrackStep.cases)
  case (3 E' r' track f k sub subs w')
  then show ?thesis
    using ok good_AddDownTrack [of sub w track E] connected_other [of s w E sub track]
    by (simp add: adding_ok_def split_beta split: option.splits)
next
  case (5 E' r' track f k sub dt subs w')
  then show ?thesis
    using ok good_addDownTrackTo [OF w, of sub k dt f] by (simp add: adding_ok_def connected_Forwarder_AddDownTrack)
qed (use lk in \<open>simp_all add: connected.frame_refl good_Broadcast connected_Broadcast good_Negotiate
       connected_Negotiate split: option.splits\<close>)

lemma subscribeStep_good:
  assumes w: "wf w" and ok: "thread_ok r w th" and lk: "\<not> locks th"
  shows "good w (snd (subscribeStep E r th w)) \<and> connected s w (snd (subscribeStep E r th w))"
proof (cases "(E, r, th, w)" rule: subscribeStep.cases)
  case (3 E' r' s' k ids w')
  show ?thesis
  proof (cases "gm_get (ro_tracks (routers w r)) k")
    case (Some track)
    then have "track < nextRef w"
      using wf_parts(7) [OF w, of r] by (simp add: router_ok_def)
    with Some 3 show ?thesis
      using ok good_AddDownTrack [of s' w track E] connected_other [of s w E s' track]
      by (simp add: split_beta split: option.splits)
  qed (use 3 in \<open>simp add: connected.frame_refl\<close>)
next
  case (5 E' r' s' f k dt ids w')
  then show ?thesis
    using ok good_addDownTrackTo [OF w, of s' k dt f] wf_parts(7) [OF w, of r]
    by (simp add: router_ok_def connected_Forwarder_AddDownTrack)
qed (use lk in \<open>simp_all add: connected.frame_refl split: option.splits\<close>)

lemma routeStep_good:
  assumes "wf w" and "thread_ok r w th" and "\<not> locks th"
  shows "good w (snd (routeStep E r th w))" and "connected s w (snd (routeStep E r th w))"
  using addTrackStep_good [OF assms] subscribeStep_good [OF assms] by (simp_all add: routeStep_def)

lemma AddDownTrack_has:
  fixes E :: env and s track :: ref and w :: world and k :: string
  assumes "sendersOk E" and "GetBestLayer w track \<noteq> None" and "tk_trackID (tracks w track) = k"
  defines "w' \<equiv> snd (AddDownTrack E s track w)"
  shows "su_closed (subscribers w' s) \<or> GetDownTrack w' s k \<noteq> None"
proof -
  have "AddDownTrack E s track w = (None, w')"
    using AddDownTrack_succeeds [OF assms(1)] by (simp add: w'_def prod_eq_iff)
  then show ?thesis
    using AddDownTrack_connects [of E s track w w'] assms(2,3) AddDownTrack_frame(5) [of E s track w]
    by (auto simp: w'_def)
qed

lemma adding_ok_connected:
  assumes "good v w" and "wf v" and "\<And>s. connected s v w" and "adding_ok v track f k subs"
  shows "adding_ok w track f k subs"
  using adding_ok_steady [OF connected_steady(1)] assms by blast

lemma adding_ok_tl: "adding_ok w track f k (sub # subs) \<Longrightarrow> adding_ok w track f k subs"
  by (simp add: adding_ok_def)

text \<open>The thread is well placed after its step.\<close>

lemma addTrackStep_next:
  assumes w: "wf w" and ok: "thread_ok r w th" and lk: "\<not> locks th" and snd: "sendersOk E"
    and nxt: "addTrackStep E r th w = (Some th', w')"
  shows "thread_ok r w' th'"
proof -
  have g: "good w w'" "connected s w w'" for s
    using addTrackStep_good [OF w ok lk, of E s] nxt by simp_all
  note a = adding_ok_connected [OF g(1) w g(2)]
  show ?thesis
  proof (cases "(E, r, th, w)" rule: addTrackStep.cases)
    case (3 E' r' track f k sub subs u)
    have "adding_ok w' track f k (sub # subs)"
      using ok 3 by (intro a) simp
    then show ?thesis
      using 3 nxt ok AddDownTrack_has [OF snd, of w track k sub]
      by (auto simp: split_beta adding_ok_def split: option.splits)
  next
    case (5 E' r' track f k sub dt subs u)
    have "adding_ok w' track f k (sub # subs)"
      using ok 5 by (intro a) simp
    then show ?thesis
      using 5 nxt by auto
  next
    case (6 E' r' track f k sub subs u)
    have "adding_ok w' track f k (sub # subs)"
      using ok 6 by (intro a) simp
    then show ?thesis
      using 6 nxt by (auto dest: adding_ok_tl)
  qed (use nxt ok lk in \<open>auto split: option.splits\<close>)
qed

lemma subscribeStep_next:
  assumes w: "wf w" and ok: "thread_ok r w th" and lk: "\<not> locks th" and snd: "sendersOk E"
    and best: "\<And>k t. gm_get (ro_tracks (routers w r)) k = Some t \<Longrightarrow> GetBestLayer w t \<noteq> None"
    and nxt: "subscribeStep E r th w = (Some th', w')"
  shows "thread_ok r w' th'"
proof -
  have g: "good w w'" "connected s w w'" for s
    using subscribeStep_good [OF w ok lk, of E s] nxt by simp_all
  note st = connected_steady [OF g(1) w g(2)]
  have n: "x < nextRef w \<Longrightarrow> x < nextRef w'" for x
    by (rule steady_facts(2) [OF st(1)])
  show ?thesis
  proof (cases "(E, r, th, w)" rule: subscribeStep.cases)
    case (3 E' r' s' k ids u)
    show ?thesis
    proof (cases "gm_get (ro_tracks (routers w r)) k")
      case (Some track)
      then have "tk_trackID (tracks w track) = k"
        using wf_parts(7) [OF w, of r] by (simp add: router_ok_def)
      with Some 3 show ?thesis
        using nxt ok n AddDownTrack_has [OF snd best [OF Some], of k s']
        by (auto simp: split_beta split: option.splits)
    qed (use 3 nxt ok in auto)
  next
    case (5 E' r' s' f k dt ids u)
    then show ?thesis using nxt ok n by auto
  qed (use nxt ok lk in \<open>auto split: option.splits\<close>)
qed

text \<open>What a thread no longer owes it has done.\<close>

lemma GetDownTrack_AddDownTrackTo [simp]:
  "GetDownTrack (Forwarder_AddDownTrack f dt w) s k = GetDownTrack w s k"
  by (simp add: GetDownTrack_def Forwarder_AddDownTrack_def upd_forwarder_def)

lemma linked_added:
  "GetDownTrack w s k = Some dt \<Longrightarrow> \<not> fw_closed (forwarders w f) \<Longrightarrow>
   linked (Forwarder_AddDownTrack f dt w) s k f"
  by (simp add: linked_def Forwarder_AddDownTrack_def upd_forwarder_def GetDownTrack_def)

lemma addTrackStep_due:
  assumes ok: "thread_ok r w th" and lk: "\<not> locks th" and sub: "\<not> subscribing th" and snd: "sendersOk E"
    and want: "wanted r w s k f" and owed: "due th s k f"
    and step: "addTrackStep E r th w = (next, w')"
  shows "linked w' s k f \<or> (\<exists>th'. next = Some th' \<and> due th' s k f)"
proof (cases "(E, r, th, w)" rule: addTrackStep.cases)
  case (3 E' r' track f' k' sub subs u)
  then show ?thesis
    using owed step AddDownTrack_succeeds [OF snd, of sub track w]
    by (auto simp: split_beta)
next
  case (4 E' r' track f' k' sub subs u)
  then show ?thesis
    using owed step ok want by (auto simp: wanted_def split: option.splits)
next
  case (5 E' r' track f' k' sub dt subs u)
  then show ?thesis
    using owed step ok want by (auto simp: wanted_def linked_added)
qed (use owed step lk sub in auto)

lemma subscribeStep_due:
  assumes ok: "thread_ok r w th" and lk: "\<not> locks th" and sub: "subscribing th" and snd: "sendersOk E"
    and want: "wanted r w s k f" and owed: "due th s k f"
    and step: "subscribeStep E r th w = (next, w')"
  shows "linked w' s k f \<or> (\<exists>th'. next = Some th' \<and> due th' s k f)"
proof (cases "(E, r, th, w)" rule: subscribeStep.cases)
  case (3 E' r' s' k' ids u)
  then show ?thesis
    using owed step want AddDownTrack_succeeds [OF snd, of s'] AddDownTrack_frame(3) [of E s' _ w]
    by (auto simp: wanted_def split_beta split: option.splits)
next
  case (4 E' r' s' f' k' ids u)
  then show ?thesis
    using owed step ok want by (auto simp: wanted_def split: option.splits)
next
  case (5 E' r' s' f' k' dt ids u)
  then show ?thesis
    using owed step ok want by (auto simp: wanted_def linked_added)
qed (use owed step lk sub in auto)

lemma routedD:
  assumes "routed r (w, T)"
  shows "wf w" "gm_get (ro_tracks (routers w r)) k = Some t \<Longrightarrow> GetBestLayer w t \<noteq> None"
    "th \<in># T \<Longrightarrow> thread_ok r w th"
    "wanted r w s k f \<Longrightarrow> linked w s k f \<or> (\<exists>th\<in>#T. due th s k f)"
  using assms by auto

text \<open>The invariant over one step: threads \<open>U\<close> go on as they are, \<open>N\<close> is what the thread that
  moved has become.\<close>

lemma routed_intro:
  assumes R: "routed r (w, T)" and g: "good w w'" and st: "steady w w'"
    and old: "\<And>th. th \<in># U \<Longrightarrow> th \<in># T"
    and kept: "\<And>th. th \<in># U \<Longrightarrow> holdsLock th \<Longrightarrow> ro_forwarders (routers w' r) = ro_forwarders (routers w r)"
    and new: "\<And>th. th \<in># N \<Longrightarrow> thread_ok r w' th"
    and best: "\<And>k t. gm_get (ro_tracks (routers w' r)) k = Some t \<Longrightarrow> GetBestLayer w' t \<noteq> None"
    and cov: "\<And>s k f. wanted r w' s k f \<Longrightarrow>
      (\<exists>th\<in>#N. due th s k f) \<or> wanted r w s k f
        \<and> (\<forall>th\<in>#T. due th s k f \<longrightarrow> th \<in># U \<or> linked w' s k f \<or> (\<exists>th\<in>#N. due th s k f))"
  shows "routed r (w', U + N)"
proof -
  have w: "wf w" using R by simp
  have "thread_ok r w' th" if "th \<in># U" for th
    using thread_ok_steady [OF st w] R old [OF that] kept [OF that] by simp
  moreover have "linked w' s k f \<or> (\<exists>th\<in>#U + N. due th s k f)" if wn: "wanted r w' s k f" for s k f
  proof (rule ccontr)
    assume *: "\<not> ?thesis"
    with cov [OF wn] have v: "wanted r w s k f" and "\<forall>th\<in>#T. \<not> due th s k f" by auto
    with routedD(4) [OF R] have "linked w s k f" by blast
    moreover have "s < nextRef w" "f < nextRef w"
      using v wf_parts(7) [OF w, of r] by (auto simp: wanted_def router_ok_def)
    ultimately show False using linked_steady [OF st w] * by blast
  qed
  ultimately show ?thesis
    using goodD(1) [OF g w] new best by auto
qed

lemma routed_best_kept:
  assumes "routed r (w, T)" and "steady w w'" and "ro_tracks (routers w' r) = ro_tracks (routers w r)"
    and "gm_get (ro_tracks (routers w' r)) k = Some t"
  shows "GetBestLayer w' t \<noteq> None"
  using assms steady_facts(3) [OF assms(2), of t] wf_parts(7) [of w r] by (auto simp: router_ok_def)

lemma wanted_undisturbed:
  assumes w: "wf w" and u: "undisturbed r w w'" and want: "wanted r w' s k f"
  shows "wanted r w s k f"
proof -
  have "s < nextRef w" "f < nextRef w"
    using u want wf_parts(7) [OF w, of r] by (auto simp: undisturbed_def wanted_def router_ok_def)
  then show ?thesis
    using u want steady_facts(7,8) [of w w'] by (auto simp: undisturbed_def wanted_def)
qed

lemma routed_other:
  assumes R: "routed r (w, T)" and g: "good w w'" and u: "undisturbed r w w'"
  shows "routed r (w', T)"
proof -
  have st: "steady w w'" "ro_tracks (routers w' r) = ro_tracks (routers w r)"
    "ro_forwarders (routers w' r) = ro_forwarders (routers w r)"
    using u by (simp_all add: undisturbed_def)
  have "routed r (w', T + {#})"
    using R routed_best_kept [OF R st(1,2)] wanted_undisturbed [of w r w'] u
    by (intro routed_intro [OF R g st(1)]) (auto simp: st)
  then show ?thesis by simp
qed

lemma routed_thread:
  assumes R: "routed r (w, add_mset th U)" and lk: "\<not> locks th" and snd: "sendersOk E"
    and step: "routeStep E r th w = (next, w')"
  shows "routed r (w', U + mset_of_option next)"
proof -
  have w: "wf w" and ok: "thread_ok r w th" using R by auto
  have g: "good w w'" "connected s w w'" for s
    using routeStep_good [OF w ok lk, where E = E] step by (simp_all add: prod_eq_iff)
  note st = connected_steady [OF g(1) w g(2)]
  have owed: "linked w' s k f \<or> (\<exists>th'. next = Some th' \<and> due th' s k f)"
    if "wanted r w s k f" "due th s k f" for s k f
    using addTrackStep_due [OF ok lk _ snd that] subscribeStep_due [OF ok lk _ snd that] step
    by (auto simp: routeStep_def split: if_splits)
  show ?thesis
  proof (rule routed_intro [OF R g(1) st(1)])
    show "thread_ok r w' th'" if "th' \<in># mset_of_option next" for th'
      using that addTrackStep_next [OF w ok lk snd] subscribeStep_next [OF w ok lk snd _ ] R step
      by (auto simp: routeStep_def split: if_splits option.splits)
    show "GetBestLayer w' t \<noteq> None" if "gm_get (ro_tracks (routers w' r)) k = Some t" for k t
      using routed_best_kept [OF R st(1) _ that] st(3) by simp
  qed (use st(3) wanted_undisturbed [OF w st(2)] owed in \<open>fastforce+\<close>)
qed

text \<open>The locking steps.\<close>

lemma registerTrack_facts:
  fixes r track :: ref and w :: world
  defines "w' \<equiv> snd (registerTrack r track w)" and "k \<equiv> tk_trackID (tracks w track)"
  assumes track: "track < nextRef w" and opn: "\<not> ro_closed (routers w r)"
  shows "good w w'" "fst (registerTrack r track w) = nextRef w" "nextRef w < nextRef w'"
    "fwTrackID w' (nextRef w) = k"
    "layers w' = layers w" "tracks w' = tracks w" "subscribers w' = subscribers w"
    "x \<noteq> nextRef w \<Longrightarrow> forwarders w' x = forwarders w x"
    "ro_subscribers (routers w' r) = ro_subscribers (routers w r)"
    "ro_tracks (routers w' r) = gm_put k track (ro_tracks (routers w r))"
    "ro_forwarders (routers w' r) = gm_put k (nextRef w) (ro_forwarders (routers w r))"
proof -
  note G = good_registerTrack [OF track opn]
  show "good w w'" "nextRef w < nextRef w'" "fwTrackID w' (nextRef w) = k"
    using G by (simp_all add: w'_def k_def registerTrack_def Let_def split_beta)
qed (simp_all add: w'_def k_def registerTrack_def NewForwarder_def Let_def split_beta upd_defs fresh_def)

lemma routed_register:
  assumes R: "routed r (w, add_mset (AtAddTrack track) U)" and free: "\<forall>u\<in>#U. \<not> holdsLock u"
    and opn: "\<not> ro_closed (routers w r)"
  defines "w' \<equiv> snd (registerTrack r track w)"
  shows "routed r (w', add_mset (AtSubscriber track (nextRef w) (tk_trackID (tracks w track))
      (rangeRef E w' (ro_subscribers (routers w' r)))) U)"
proof -
  define k where "k = tk_trackID (tracks w track)"
  have t: "track < nextRef w" "GetBestLayer w track \<noteq> None" and w: "wf w"
    using routedD(1) [OF R] routedD(3) [OF R, of "AtAddTrack track"] by simp_all
  note F = registerTrack_facts [OF t(1) opn, folded w'_def k_def]
  have best: "GetBestLayer w' x = GetBestLayer w x" for x
    by (rule GetBestLayer_cong) (simp_all add: F)
  have "GetDownTrack w' x j = GetDownTrack w x j" for x j
    by (simp add: GetDownTrack_def F)
  then have st: "steady w w'"
    using goodD(2) [OF F(1) w] by (simp add: steady_def best F(8))
  have "routed r (w', U + {#AtSubscriber track (nextRef w) k (rangeRef E w' (ro_subscribers (routers w' r)))#})"
  proof (rule routed_intro [OF R F(1) st])
    show "thread_ok r w' th"
      if "th \<in># {#AtSubscriber track (nextRef w) k (rangeRef E w' (ro_subscribers (routers w' r)))#}" for th
      using that t F(3,4) wf_parts(7) [OF w, of r] by (auto simp: adding_ok_def best F(6,9) k_def router_ok_def)
    show "GetBestLayer w' x \<noteq> None" if "gm_get (ro_tracks (routers w' r)) j = Some x" for j x
      using that t(2) routedD(2) [OF R, of j x] by (simp add: best F(10) gm_get_put split: if_splits)
    show "(\<exists>th\<in>#{#AtSubscriber track (nextRef w) k (rangeRef E w' (ro_subscribers (routers w' r)))#}. due th s j f)
        \<or> wanted r w s j f \<and> (\<forall>th\<in>#add_mset (AtAddTrack track) U. due th s j f \<longrightarrow> th \<in># U
            \<or> linked w' s j f \<or> (\<exists>th\<in>#{#AtSubscriber track (nextRef w) k (rangeRef E w' (ro_subscribers (routers w' r)))#}. due th s j f))"
      if "wanted r w' s j f" for s j f
    proof (cases "j = k")
      case False
      then have "gm_get (ro_forwarders (routers w r)) j = Some f"
        using that by (simp add: wanted_def F gm_get_put)
      then have "forwarders w' f = forwarders w f"
        using wf_parts(7) [OF w, of r] by (intro F(8)) (auto simp: router_ok_def)
      then have "wanted r w s j f"
        using that False by (simp add: wanted_def F gm_get_put)
      then show ?thesis by auto
    qed (use that in \<open>simp add: wanted_def F gm_get_put\<close>)
  qed (use free in auto)
  then show ?thesis by (simp add: k_def)
qed

lemma routed_subscribe:
  assumes R: "routed r (w, add_mset (AtSubscribe s) U)"
  defines "w' \<equiv> upd_router r (\<lambda>x. x\<lparr>ro_subscribers := ref_add s (ro_subscribers x)\<rparr>) w"
  shows "routed r (w', add_mset (AtTrack s (rangeStr E w' (ro_tracks (routers w' r)))) U)"
proof -
  have s: "s < nextRef w" and w: "wf w"
    using routedD(1) [OF R] routedD(3) [OF R, of "AtSubscribe s"] by simp_all
  have g: "good w w'"
    unfolding w'_def
    by (rule routerHeap.good_upd)
       (use s in \<open>auto simp: keepsRouter_def router_ok_def upd_router_def fwTrackID_def
          dest!: wf_parts(7) [where x = r]\<close>)
  have same: "ro_tracks (routers w' r) = ro_tracks (routers w r)" "subscribers w' = subscribers w"
    "ro_forwarders (routers w' r) = ro_forwarders (routers w r)" "forwarders w' = forwarders w"
    "set (ro_subscribers (routers w' r)) = insert s (set (ro_subscribers (routers w r)))" "nextRef w' = nextRef w"
    by (auto simp: w'_def upd_router_def)
  have "GetBestLayer w' x = GetBestLayer w x" for x
    by (rule GetBestLayer_cong) (simp_all add: w'_def upd_router_def)
  then have st: "steady w w'"
    using goodD(2) [OF g w] by (simp add: steady_def GetDownTrack_def same)
  have "routed r (w', U + {#AtTrack s (rangeStr E w' (ro_tracks (routers w' r)))#})"
  proof (rule routed_intro [OF R g st])
    show "GetBestLayer w' t \<noteq> None" if "gm_get (ro_tracks (routers w' r)) k = Some t" for k t
      by (rule routed_best_kept [OF R st same(1) that])
    show "(\<exists>th\<in>#{#AtTrack s (rangeStr E w' (ro_tracks (routers w' r)))#}. due th s' k f)
        \<or> wanted r w s' k f \<and> (\<forall>th\<in>#add_mset (AtSubscribe s) U. due th s' k f \<longrightarrow> th \<in># U
            \<or> linked w' s' k f \<or> (\<exists>th\<in>#{#AtTrack s (rangeStr E w' (ro_tracks (routers w' r)))#}. due th s' k f))"
      if "wanted r w' s' k f" for s' k f
      using that by (auto simp: wanted_def same set_gm_keys)
  qed (use s same in auto)
  then show ?thesis by simp
qed

lemma routed_arrival:
  assumes "locks th" and "thread_ok r w th"
  shows "routed r (w, add_mset th T) = routed r (w, T)"
  using assms by (cases th) simp_all

lemma routed_lock:
  assumes R: "routed r (w, add_mset th T)" and lk: "locks th" and free: "\<forall>u\<in>#T. \<not> holdsLock u"
  shows "routed r (snd (routeStep E r th w), T + mset_of_option (fst (routeStep E r th w)))"
proof (cases th)
  case (AtAddTrack track)
  then have "track < nextRef w" using R by simp
  with AtAddTrack show ?thesis
    using R routed_arrival [OF lk, of r w T] routed_register [of r w track T E] free
      registerTrack_facts(2) [of track w r]
    by (cases "ro_closed (routers w r)") (simp_all add: routeStep_def split_beta)
next
  case (AtSubscribe s)
  then show ?thesis
    using R routed_subscribe [of r w s T E] by (simp add: routeStep_def Let_def del: routed.simps)
qed (use lk in simp_all)

lemma routed_step:
  assumes snd: "sendersOk E" and R: "routed r x" and step: "route_step E r x y"
  shows "routed r y"
  using step
proof (cases rule: route_step.cases)
  case (publish track w T)
  then show ?thesis using R routed_arrival [of "AtAddTrack track" r w T] by simp
next
  case (subscribe s w T)
  then show ?thesis using R routed_arrival [of "AtSubscribe s" r w T] by simp
next
  case (thread th T w "next" w')
  then show ?thesis
    using R routed_lock [of r w th T E] routed_thread [of r w th T E "next" w'] snd
    by (cases "locks th") (simp_all del: routed.simps)
next
  case (other w w' T)
  then show ?thesis using R routed_other [of r w T w'] by (simp del: routed.simps)
qed

definition emptyRouter :: "ref \<Rightarrow> routing \<Rightarrow> bool" where
  "emptyRouter r x \<longleftrightarrow> wf (fst x) \<and> ro_tracks (routers (fst x) r) = [] \<and> snd x = {#}"

abbreviation routing_reachable :: "env \<Rightarrow> ref \<Rightarrow> routing \<Rightarrow> bool" where
  "routing_reachable E r \<equiv> reach (emptyRouter r) (route_step E r)"

lemma routed_init: "emptyRouter r x \<Longrightarrow> routed r x"
  by (cases x) (simp add: emptyRouter_def wanted_def)

interpretation routing: invariant_system "emptyRouter r" "route_step E r" "\<lambda>x. sendersOk E \<longrightarrow> routed r x" for E r
  by unfold_locales (simp add: routed_init, blast intro: routed_step)

subsection \<open>The other operations of the server\<close>

text \<open>What they leave alone, beside closing things.\<close>

definition leaves :: "ref \<Rightarrow> world \<Rightarrow> world \<Rightarrow> bool" where
  "leaves r v w \<longleftrightarrow> layers w = layers v \<and> (\<forall>t. tk_layers (tracks w t) = tk_layers (tracks v t))
     \<and> (\<forall>s k. GetDownTrack w s k = GetDownTrack v s k) \<and> forwarders w = forwarders v
     \<and> ro_tracks (routers w r) = ro_tracks (routers v r)
     \<and> ro_forwarders (routers w r) = ro_forwarders (routers v r)
     \<and> set (ro_subscribers (routers w r)) \<subseteq> set (ro_subscribers (routers v r))"

interpretation leaves: frame "leaves r" for r
  by unfold_locales (auto simp: leaves_def)

lemma undisturbed_leaves:
  assumes "wf v" and "good v w" and "leaves r v w"
  shows "undisturbed r v w"
proof -
  have "GetBestLayer w t = GetBestLayer v t" for t
    using assms(3) by (intro GetBestLayer_cong) (simp_all add: leaves_def)
  then show ?thesis
    using goodD(2) [OF assms(2,1)] assms(3) by (simp add: undisturbed_def steady_def leaves_def)
qed

lemma leaves_Unsubscribe: "leaves r v (Unsubscribe x s v)"
  by (auto simp: leaves_def Unsubscribe_def upd_router_def GetDownTrack_def)

lemma leaves_DownTrack_Close: "leaves r v (DownTrack_Close d v)"
  by (simp add: leaves_def DownTrack_Close_def TrackReceiver_RemoveDownTrack_def upd_dt_def upd_track_def
      Let_def GetDownTrack_def)

lemma leaves_Subscriber_Close: "leaves r v (snd (Subscriber_Close E s v))"
proof -
  have close: "leaves r u (snd (call E e (upd_subscriber s (\<lambda>x. x\<lparr>su_closed := True, su_routers := []\<rparr>) u)))" for u e
    by (simp add: leaves_def GetDownTrack_def upd_subscriber_def call_def Let_def)
  show ?thesis
    unfolding Subscriber_Close_eq
    by (auto intro!: leaves.frame_refl leaves.frame_trans [OF leaves.frame_fold [OF leaves_Unsubscribe]
          leaves.frame_trans [OF leaves.frame_fold [OF leaves_DownTrack_Close] close]])
qed

text \<open>Forwarding a packet, with the writes that fail.\<close>

interpretation undisturbed: frame "undisturbed r" for r
  by unfold_locales (auto simp: undisturbed_def steady.frame_refl intro: steady.frame_trans)

lemma writeFailed_after: "fst (WriteRTP E d packet fromLayer w) = Some err \<Longrightarrow>
  writeFailed (snd (WriteRTP E d packet fromLayer w)) d"
proof (cases "dt_closed (downtracks w d)")
  case False
  note W = WriteRTP_open [OF False, of E packet fromLayer]
  assume "fst (WriteRTP E d packet fromLayer w) = Some err"
  then show ?thesis
    using selOnly_facts(8) [OF W(1)]
    unfolding W(2) by (auto simp: writeFailed_def upd_dt_def call_def Let_def split: if_splits)
qed simp

lemma WriteRTP_frame2:
  "routers (snd (WriteRTP E d packet fromLayer w)) = routers w"
  "subscribers (snd (WriteRTP E d packet fromLayer w)) = subscribers w"
proof -
  have "routers u = routers v" if "selOnly d v u" for u v
    using that by (auto simp: selOnly_def)
  then show "routers (snd (WriteRTP E d packet fromLayer w)) = routers w"
    "subscribers (snd (WriteRTP E d packet fromLayer w)) = subscribers w"
    using WriteRTP_open [of w d E packet fromLayer] selOnly_facts(5)
    by (cases "dt_closed (downtracks w d)"; simp add: upd_dt_def call_def Let_def)+
qed

lemma undisturbed_forwardTo:
  assumes w: "wf w"
  shows "undisturbed r w (forwardTo E f packet fromLayer d w)"
proof -
  define v where "v = snd (WriteRTP E d packet fromLayer w)"
  have ext: "extends w (forwardTo E f packet fromLayer d w)"
    by (rule goodD(2) [OF good_forwardTo w])
  have fails: "writeFailed v d" if "fst (WriteRTP E d packet fromLayer w) = Some err" for err
    using writeFailed_after [OF that] by (simp add: v_def)
  note F = WriteRTP_frame(2-4) [of E d packet fromLayer w, folded v_def]
    WriteRTP_frame2 [of E d packet fromLayer w, folded v_def]
  have to: "forwardTo E f packet fromLayer d w =
      (if fst (WriteRTP E d packet fromLayer w) = None then v else Forwarder_RemoveDownTrack f d v)"
    by (simp add: forwardTo_def split_beta v_def split: option.splits)
  have "GetBestLayer (forwardTo E f packet fromLayer d w) t = GetBestLayer w t" for t
    by (rule GetBestLayer_cong) (simp_all add: to F Forwarder_RemoveDownTrack_def upd_forwarder_def)
  moreover have "writeFailed (Forwarder_RemoveDownTrack f d v) x = writeFailed v x" for x
    by (simp add: writeFailed_def Forwarder_RemoveDownTrack_def upd_forwarder_def)
  ultimately show ?thesis
    using ext fails
    by (auto simp: undisturbed_def steady_def to F Forwarder_RemoveDownTrack_def upd_forwarder_def GetDownTrack_def)
qed

lemma undisturbed_Forward:
  assumes "wf w"
  shows "undisturbed r w (Forwarder_Forward E f packet fromLayer w)"
proof -
  have "undisturbed r v (fold (forwardTo E f packet fromLayer) ds v)" if "wf v" for ds v
    using that
  proof (induction ds arbitrary: v)
    case (Cons d ds)
    show ?case
      unfolding fold.simps comp_def
      by (rule undisturbed.frame_trans [OF undisturbed_forwardTo [OF Cons.prems]])
         (rule Cons.IH [OF goodD(1) [OF good_forwardTo Cons.prems]])
  qed (simp add: undisturbed.frame_refl)
  then show ?thesis
    using assms by (simp add: Forwarder_Forward_def)
qed

lemma others_undisturbed:
  assumes "wf w"
  shows "undisturbed r w (Forwarder_Forward E f packet fromLayer w)"
    "undisturbed r w (snd (Negotiate E s w))" "undisturbed r w (Unsubscribe r s w)"
    "undisturbed r w (snd (Subscriber_Close E s w))" "undisturbed r w (Broadcast E se p meth params w)"
  using assms
  by (auto intro: undisturbed_Forward connected_steady(2) good_Negotiate connected_Negotiate good_Broadcast
      connected_Broadcast undisturbed_leaves good_Unsubscribe leaves_Unsubscribe good_Subscriber_Close leaves_Subscriber_Close)

subsection \<open>The calls run alone\<close>

lemma route_run:
  assumes "locks th \<longrightarrow> (\<forall>u\<in>#T. \<not> holdsLock u)" and "routeStep E r th w = (Some th', v)"
    and "(route_step E r)\<^sup>*\<^sup>* (v, add_mset th' T) x"
  shows "(route_step E r)\<^sup>*\<^sup>* (w, add_mset th T) x"
  using route_step.thread [OF assms(1,2)] assms(3) by (simp add: converse_rtranclp_into_rtranclp)

lemma route_return:
  assumes "locks th \<longrightarrow> (\<forall>u\<in>#T. \<not> holdsLock u)" and "routeStep E r th w = (None, v)"
  shows "(route_step E r)\<^sup>*\<^sup>* (w, add_mset th T) (v, T)"
  using route_step.thread [OF assms] by simp

lemma addTrackTo_run:
  assumes "(route_step E r)\<^sup>*\<^sup>* (addTrackTo E track f k sub w, add_mset (AtSubscriber track f k subs) T) x"
  shows "(route_step E r)\<^sup>*\<^sup>* (w, add_mset (AtSubscriber track f k (sub # subs)) T) x"
proof (cases "AddDownTrack E sub track w")
  case (Pair err v)
  show ?thesis
  proof (cases err)
    case (Some e)
    show ?thesis
      by (rule route_run [where v = v and th' = "AtSubscriber track f k subs"])
         (use assms Pair Some in \<open>simp_all add: routeStep_def addTrackTo_def\<close>)
  next
    case None
    let ?neg = "AtNegotiation track f k sub subs"
    have neg: "(route_step E r)\<^sup>*\<^sup>* (connectDownTrack f sub k v, add_mset ?neg T) x"
      by (rule route_run [where v = "addTrackTo E track f k sub w" and th' = "AtSubscriber track f k subs"])
         (use assms Pair None in \<open>simp_all add: routeStep_def addTrackTo_def\<close>)
    have "(route_step E r)\<^sup>*\<^sup>* (v, add_mset (AtGetDownTrack track f k sub subs) T) x"
    proof (cases "GetDownTrack v sub k")
      case None
      show ?thesis
        by (rule route_run [where v = v and th' = ?neg])
           (use neg None in \<open>simp_all add: routeStep_def connectDownTrack_def\<close>)
    next
      case (Some dt)
      have "(route_step E r)\<^sup>*\<^sup>* (v, add_mset (AtAddToForwarder track f k sub dt subs) T) x"
        by (rule route_run [where v = "connectDownTrack f sub k v" and th' = ?neg])
           (use neg Some in \<open>simp_all add: routeStep_def connectDownTrack_def\<close>)
      then show ?thesis
        by (rule route_run [rotated 2])
           (use Some in \<open>simp_all add: routeStep_def\<close>)
    qed
    then show ?thesis
      by (rule route_run [rotated 2])
         (use Pair None in \<open>simp_all add: routeStep_def\<close>)
  qed
qed

lemma addTrackLoop_run:
  "(route_step E r)\<^sup>*\<^sup>* (w, add_mset (AtSubscriber track f k subs) T)
     (let v = fold (addTrackTo E track f k) subs w
      in Broadcast E (ro_session (routers v r)) (ro_id (routers v r)) ''trackAdded''
           (trackAddedParams (ro_id (routers v r)) (tracks v track)) v, T)"
proof (induction subs arbitrary: w)
  case Nil
  show ?case by (rule route_return) (simp_all add: routeStep_def Let_def)
next
  case (Cons sub subs)
  show ?case by (rule addTrackTo_run) (use Cons.IH in simp)
qed

lemma lookup_run:
  assumes "(route_step E r)\<^sup>*\<^sup>* (connectDownTrack f s k v, add_mset (AtTrack s ids) T) x"
  shows "(route_step E r)\<^sup>*\<^sup>* (v, add_mset (AtLookup s f k ids) T) x"
proof (cases "GetDownTrack v s k")
  case None
  show ?thesis
    by (rule route_run [where v = v and th' = "AtTrack s ids"])
       (use assms None in \<open>simp_all add: routeStep_def connectDownTrack_def\<close>)
next
  case (Some dt)
  have "(route_step E r)\<^sup>*\<^sup>* (v, add_mset (AtConnect s f k dt ids) T) x"
    by (rule route_run [where v = "connectDownTrack f s k v" and th' = "AtTrack s ids"])
       (use assms Some in \<open>simp_all add: routeStep_def connectDownTrack_def\<close>)
  then show ?thesis
    by (rule route_run [rotated 2])
       (use Some in \<open>simp_all add: routeStep_def\<close>)
qed

lemma subscribeTracks_run:
  "(route_step E r)\<^sup>*\<^sup>* (w, add_mset (AtTrack s ids) T) (snd (subscribeTracks E r s ids w), T)"
proof (induction ids arbitrary: w)
  case Nil
  show ?case by (rule route_return) (simp_all add: routeStep_def)
next
  case (Cons k ids)
  show ?case
  proof (cases "gm_get (ro_tracks (routers w r)) k")
    case None
    show ?thesis
      by (rule route_run [where v = w and th' = "AtTrack s ids"])
         (use Cons.IH [of w] None in \<open>simp_all add: routeStep_def\<close>)
  next
    case track: (Some track)
    obtain err v where A: "AddDownTrack E s track w = (err, v)" by fastforce
    show ?thesis
    proof (cases err)
      case (Some e)
      show ?thesis
        by (rule route_return) (use track A Some in \<open>simp_all add: routeStep_def\<close>)
    next
      case ok: None
      show ?thesis
      proof (cases "gm_get (ro_forwarders (routers v r)) k")
        case None
        show ?thesis
          by (rule route_run [where v = v and th' = "AtTrack s ids"])
             (use Cons.IH [of v] track A ok None in \<open>simp_all add: routeStep_def\<close>)
      next
        case (Some f)
        then have eq: "subscribeTracks E r s (k # ids) w = subscribeTracks E r s ids (connectDownTrack f s k v)"
          using track A ok by simp
        have "(route_step E r)\<^sup>*\<^sup>* (v, add_mset (AtLookup s f k ids) T)
          (snd (subscribeTracks E r s (k # ids) w), T)"
          unfolding eq by (rule lookup_run) (rule Cons.IH)
        then show ?thesis
          by (rule route_run [rotated 2])
             (use track A ok Some in \<open>simp_all add: routeStep_def\<close>)
      qed
    qed
  qed
qed
lemma AddTrack_run:
  assumes free: "\<forall>u\<in>#T. \<not> holdsLock u" and "track < nextRef w" and "GetBestLayer w track \<noteq> None"
  shows "(route_step E r)\<^sup>*\<^sup>* (w, T) (AddTrack E r track w, T)"
proof -
  have "(route_step E r)\<^sup>*\<^sup>* (w, add_mset (AtAddTrack track) T) (AddTrack E r track w, T)"
  proof (cases "ro_closed (routers w r)")
    case True
    then show ?thesis
      by (intro route_return) (simp_all add: free routeStep_def AddTrack_def)
  next
    case False
    define v where "v = snd (registerTrack r track w)"
    have eq: "AddTrack E r track w = (let u = fold (addTrackTo E track (fst (registerTrack r track w)) (tk_trackID (tracks w track)))
        (rangeRef E v (ro_subscribers (routers v r))) v
      in Broadcast E (ro_session (routers u r)) (ro_id (routers u r)) ''trackAdded''
           (trackAddedParams (ro_id (routers u r)) (tracks u track)) u)"
      unfolding AddTrack_def v_def registerTrack_def Let_def split_beta by (simp only: False if_False fst_conv snd_conv)
    show ?thesis
      unfolding eq
      by (rule route_run [rotated 2], rule addTrackLoop_run)
         (simp_all add: free False routeStep_def v_def split_beta)
  qed
  then show ?thesis
    using route_step.publish [OF assms(2,3)] by (rule converse_rtranclp_into_rtranclp [rotated])
qed

lemma Router_Subscribe_run:
  assumes free: "\<forall>u\<in>#T. \<not> holdsLock u" and "s < nextRef w"
  shows "(route_step E r)\<^sup>*\<^sup>* (w, T) (snd (Router_Subscribe E r s w), T)"
proof -
  have "(route_step E r)\<^sup>*\<^sup>* (w, add_mset (AtSubscribe s) T) (snd (Router_Subscribe E r s w), T)"
    unfolding Router_Subscribe_def Let_def
    by (rule route_run [rotated 2], rule subscribeTracks_run) (simp_all add: free routeStep_def Let_def)
  then show ?thesis
    using route_step.subscribe [OF assms(2)] by (rule converse_rtranclp_into_rtranclp [rotated])
qed


subsection \<open>Calls return\<close>

text \<open>How many steps a call has left at most, once it has passed its first lock.\<close>

fun stepsLeft :: "route_thread \<Rightarrow> nat" where
  "stepsLeft (AtSubscriber track f k subs) = 4 * length subs + 1"
| "stepsLeft (AtGetDownTrack track f k sub subs) = 4 * length subs + 4"
| "stepsLeft (AtAddToForwarder track f k sub dt subs) = 4 * length subs + 3"
| "stepsLeft (AtNegotiation track f k sub subs) = 4 * length subs + 2"
| "stepsLeft (AtTrack s ids) = 3 * length ids + 1"
| "stepsLeft (AtLookup s f k ids) = 3 * length ids + 3"
| "stepsLeft (AtConnect s f k dt ids) = 3 * length ids + 2"
| "stepsLeft _ = 0"

lemma addTrackStep_left:
  assumes "\<not> locks th" and "\<not> subscribing th" and "addTrackStep E r th w = (Some th', w')"
  shows "stepsLeft th' < stepsLeft th \<and> \<not> locks th'"
  using assms by (cases "(E, r, th, w)" rule: addTrackStep.cases) (auto simp: split_beta split: option.splits)

lemma subscribeStep_left:
  assumes "\<not> locks th" and "subscribing th" and "subscribeStep E r th w = (Some th', w')"
  shows "stepsLeft th' < stepsLeft th \<and> \<not> locks th'"
  using assms by (cases "(E, r, th, w)" rule: subscribeStep.cases) (auto simp: split_beta split: option.splits)

lemma stepsLeft_pos: "\<not> locks th \<Longrightarrow> 0 < stepsLeft th"
  by (cases th) simp_all

text \<open>The thread after a step in each of these worlds, whatever happens in between.\<close>

fun stepIn :: "env \<Rightarrow> ref \<Rightarrow> route_thread option \<Rightarrow> world list \<Rightarrow> route_thread option" where
  "stepIn E r None ws = None"
| "stepIn E r (Some th) [] = Some th"
| "stepIn E r (Some th) (w # ws) = stepIn E r (fst (routeStep E r th w)) ws"

subsection \<open>Properties\<close>



text \<open>C26: Every call returns. Once a call of \<open>AddTrack\<close> or \<open>Subscribe\<close> has the lock, the number of
  its steps is bounded by the subscribers or tracks it found there, whatever happens to the server
  between its steps.\<close>

theorem calls_return:
  assumes "\<not> locks th" and "stepsLeft th \<le> length ws"
  shows "stepIn E r (Some th) ws = None"
  using assms
proof (induction ws arbitrary: th)
  case Nil
  then show ?case using stepsLeft_pos by fastforce
next
  case (Cons w ws)
  show ?case
  proof (cases "fst (routeStep E r th w)")
    case (Some th')
    then have "\<not> locks th \<Longrightarrow> stepsLeft th' < stepsLeft th \<and> \<not> locks th'"
      using addTrackStep_left [of th E r w th' "snd (routeStep E r th w)"]
        subscribeStep_left [of th E r w th' "snd (routeStep E r th w)"]
      by (auto simp: routeStep_def prod_eq_iff split: if_splits)
    then show ?thesis using Cons.IH [of th'] Cons.prems Some by auto
  qed simp
qed

text \<open>The example track is added to router 4, and while the call is after its lock, subscriber 0
  subscribes; the call still has to broadcast.\<close>

definition exampleEmpty :: world where
  "exampleEmpty = snd (NewRouter ''ann'' 0 exampleTrack)"

definition exampleRace :: routing where
  "exampleRace = (snd (Router_Subscribe env0 4 0 (snd (registerTrack 4 1 exampleEmpty))),
     {#AtSubscriber 1 5 ''cam'' []#})"

lemma wf_exampleEmpty: "wf exampleEmpty"
  unfolding exampleEmpty_def
  by (rule goodD(1) [OF good_NewRouter wf_exampleTrack]) (simp add: nextRef_exampleTrack)

lemma exampleEmpty_facts:
  "nextRef exampleEmpty = 5" "GetBestLayer exampleEmpty 1 \<noteq> None" "\<not> ro_closed (routers exampleEmpty 4)"
  "ro_tracks (routers exampleEmpty 4) = []"
  by (simp_all add: exampleEmpty_def example_eval eval_nat_numeral)

lemma exampleEmpty_lock:
  "routeStep env0 4 (AtAddTrack 1) exampleEmpty
     = (Some (AtSubscriber 1 5 ''cam'' []), snd (registerTrack 4 1 exampleEmpty))"
  by (simp add: routeStep_def registerTrack_def exampleEmpty_def example_eval eval_nat_numeral)

lemma reachable_exampleRace: "routing_reachable env0 4 exampleRace"
proof -
  have "routing_reachable env0 4 (exampleEmpty, {#})"
    by (rule reach_init) (simp add: emptyRouter_def exampleEmpty_facts wf_exampleEmpty)
  then have "routing_reachable env0 4 (exampleEmpty, {#AtAddTrack 1#})"
    using reach_step route_step.publish [of 1 exampleEmpty env0 4 "{#}"] by (simp add: exampleEmpty_facts del: One_nat_def)
  then have "routing_reachable env0 4 (snd (registerTrack 4 1 exampleEmpty), {#AtSubscriber 1 5 ''cam'' []#})"
    using reach_step route_step.thread [OF _ exampleEmpty_lock, of "{#}"] by fastforce
  then show ?thesis
    unfolding exampleRace_def
    by (rule reach_run [OF _ Router_Subscribe_run])
       (use registerTrack_facts(3) [of 1 exampleEmpty 4] in \<open>simp_all add: exampleEmpty_facts\<close>)
qed



theorem calls_return_witness:
  "stepIn env0 4 (Some (AtTrack 0 [''cam''])) (replicate 4 exampleRouter) = None"
  using calls_return [of "AtTrack 0 [''cam'']" "replicate 4 exampleRouter" env0 4] by simp
end
