(* ===== verification/Media.thy ===== *)
theory Media
  imports System
begin

section \<open>Media from a publisher to its subscribers\<close>

text \<open>
  How the components work together on media: a track that arrives at a publisher becomes a layer
  with a goroutine that reads it, and a packet that goroutine reads comes out at the local track
  of each downtrack that is fed by the router's forwarder for the track.
\<close>

subsection \<open>Reading and forwarding\<close>

lemma ReadRTP_world:
  assumes "LayerReceiver_ReadRTP E r w = (Inr packet, w')"
  shows "\<exists>h. w' = w\<lparr>hist := hist w @ h\<rparr>"
  using assms by (auto simp: LayerReceiver_ReadRTP_def call_def Let_def split: if_splits option.splits)

lemma view_hist [simp]:
  "viewOf (w\<lparr>hist := h\<rparr>) d = viewOf w d"
  "isCurrentLayerActive (w\<lparr>hist := h\<rparr>) d = isCurrentLayerActive w d"
  by (auto simp: viewOf_def DownTrack_GetCurrentLayer_def DownTrack_GetTargetLayer_def
      isCurrentLayerActive_def GetLayer_def IsActive_def fun_eq_iff split: option.splits)

text \<open>C14: A packet gets through. When the goroutine of a layer reads a packet, and the router has a
  forwarder for the track with an open downtrack that is settled on this active layer, then the
  round of the goroutine hands the packet, rewritten by that downtrack's sequencer, to the
  downtrack's local track; the downtrack keeps its layer, and it stays connected exactly when the
  write succeeded; and the goroutine goes on reading.\<close>

theorem packet_gets_through:
  fixes E :: env and w :: world and p r t d f :: ref and layer :: string
  assumes w: "wf w" and mono: "monoClock E"
    and read: "LayerReceiver_ReadRTP E r w = (Inr packet, w1)"
    and f: "gm_get (ro_forwarders (routers w (pu_router (publishers w p)))) (tk_trackID (tracks w t)) = Some f"
    and d: "d \<in> set (fw_downTracks (forwarders w f))" "\<not> dt_closed (downtracks w d)"
    and view: "viewOf w d = (layer, layer)" "isCurrentLayerActive w d layer"
  defines "w' \<equiv> snd (readRTP_round E p r t layer w)"
    and "rw \<equiv> Rewrite (dt_sequencer (downtracks w d)) packet (senderSSRC E (dt_sender (downtracks w d)))"
  shows "fst (readRTP_round E p r t layer w)
    \<and> (\<exists>h err. hist w' = hist w @ h \<and> (WriteTrackRTP (dt_track (downtracks w d)) (snd rw), err) \<in> set h
         \<and> (d \<in> set (fw_downTracks (forwarders w' f)) \<longleftrightarrow> err = None))
    \<and> dt_sequencer (downtracks w' d) = fst rw \<and> viewOf w' d = (layer, layer)"
proof -
  obtain h0 where w1: "w1 = w\<lparr>hist := hist w @ h0\<rparr>"
    using ReadRTP_world [OF read] by blast
  have wf1: "wf w1"
    using goodD(1) [OF good_LayerReceiver_ReadRTP [of w E r] w] read by simp
  have w': "w' = Forwarder_Forward E f packet layer w1"
    and go: "fst (readRTP_round E p r t layer w)"
    using read f by (simp_all add: w'_def readRTP_round_def w1 Router_Forward_def)
  have "d \<in> set (fw_downTracks (forwarders w1 f))" "\<not> dt_closed (downtracks w1 d)"
    using d by (simp_all add: w1)
  from Forward_member [OF wf1 mono this, of packet layer, folded w']
  obtain n h err where "hist w' = hist w1 @ h" "viewOf w' d = (layer, layer)"
    "(WriteTrackRTP (dt_track (downtracks w d)) (snd rw), err) \<in> set h"
    "dt_sequencer (downtracks w' d) = fst rw" "d \<in> set (fw_downTracks (forwarders w' f)) \<longleftrightarrow> err = None"
    by (auto simp: w1 view rw_def)
  with go show ?thesis
    by (intro conjI exI [of _ "h0 @ h"] exI [of _ err]) (simp_all add: w1)
qed

text \<open>The example downtrack, asked for the layer it sends, behind router 0 and publisher 0.\<close>

definition exampleMedia :: world where
  "exampleMedia = upd_router 0 (\<lambda>x. x\<lparr>ro_forwarders := [(''cam'', 7)]\<rparr>)
     (DownTrack_SetTargetLayer env0 6 LayerHigh exampleForward)"

lemma exampleMedia_facts:
  "downtracks exampleMedia 6 = (downtracks exampleDown 6)
     \<lparr>dt_selector := SetTargetLayer LayerHigh (dt_selector (downtracks exampleDown 6))\<rparr>"
  "tracks exampleMedia = tracks exampleDown" "layers exampleMedia = layers exampleDown"
  "forwarders exampleMedia = forwarders exampleForward" "nextRef exampleMedia = 8"
  "pu_router (publishers exampleMedia 0) = 0" "ro_forwarders (routers exampleMedia 0) = [(''cam'', 7)]"
  "tk_trackID (tracks exampleDown 1) = ''cam''" "lr_closeCh (receivers exampleMedia 2) = ChOpen"
  "fw_trackReceiver (forwarders exampleForward 7) = 1"
  "\<not> ro_closed (routers (DownTrack_SetTargetLayer env0 6 LayerHigh exampleForward) 0)"
  by (simp_all add: exampleMedia_def exampleForward_def exampleDown_def example_eval eval_nat_numeral)

lemma wf_exampleMedia: "wf exampleMedia"
proof -
  let ?v = "DownTrack_SetTargetLayer env0 6 LayerHigh exampleForward"
  have v: "wf ?v" by (rule goodD(1) [OF good_SetTargetLayer wf_exampleForward])
  have same: "upd_router 0 g ?v = w \<Longrightarrow> forwarders w = forwarders ?v \<and> tracks w = tracks ?v
      \<and> nextRef w = nextRef ?v" for g w
    by (auto simp: upd_router_def)
  have "good ?v exampleMedia"
    unfolding exampleMedia_def
    by (rule routerHeap.good_upd)
       (use wf_parts(7) [OF v, of 0] exampleMedia_facts same [OF exampleMedia_def [symmetric]]
        in \<open>auto simp: keepsRouter_def router_ok_def upd_router_def gm_ok_def gm_keys_def gm_get_def
          fwTrackID_def exampleForward_facts split: if_splits\<close>)
  then show ?thesis using v by (rule goodD(1))
qed

theorem packet_gets_through_witness:
  "\<exists>h p err. hist (snd (readRTP_round env0 0 2 1 LayerHigh exampleMedia)) = hist exampleMedia @ h
     \<and> (WriteTrackRTP 4 p, err) \<in> set h"
proof -
  have view: "viewOf exampleMedia 6 = (LayerHigh, LayerHigh)"
    by (simp add: viewOf_def DownTrack_GetCurrentLayer_def DownTrack_GetTargetLayer_def
        exampleMedia_facts exampleDown_facts selector_defs)
  have "isCurrentLayerActive exampleMedia 6 LayerHigh"
    using exampleDown_facts(7) by (simp add: isCurrentLayerActive_def GetLayer_def IsActive_def
        exampleMedia_facts split: option.splits)
  moreover obtain packet w1 where "LayerReceiver_ReadRTP env0 2 exampleMedia = (Inr packet, w1)"
    by (simp add: LayerReceiver_ReadRTP_def exampleMedia_facts call_def env0_def Let_def)
  moreover have "gm_get (ro_forwarders (routers exampleMedia (pu_router (publishers exampleMedia 0))))
      (tk_trackID (tracks exampleMedia 1)) = Some 7"
    by (simp add: exampleMedia_facts [unfolded One_nat_def] gm_get_def)
  moreover have "6 \<in> set (fw_downTracks (forwarders exampleMedia 7))" "\<not> dt_closed (downtracks exampleMedia 6)"
    "dt_track (downtracks exampleMedia 6) = 4"
    by (simp_all add: exampleMedia_facts exampleForward_facts exampleDown_facts)
  ultimately show ?thesis
    using packet_gets_through [OF wf_exampleMedia monoClock_env0, of 2 packet w1 0 1 7 6 LayerHigh] view
    by fastforce
qed

subsection \<open>Layers of a track\<close>

text \<open>C39: Simulcast layers come together in one track. When a remote track arrives whose ID an
  open publisher already has an open track for, it becomes a layer of that track under its RID
  (\<open>default\<close> without one): active, with a new receiver for this remote track that can ask the
  publisher's connection for keyframes, and with one goroutine that reads it. The other layers stay
  as they are, a layer of the same name is replaced, and neither routers nor forwarders change and
  nothing is announced again.\<close>

theorem onTrack_adds_layer:
  fixes E :: env and w :: world and p :: ref and remoteTrack :: TrackRemote
  assumes "\<not> pu_closed (publishers w p)"
    and "gm_get (pu_tracks (publishers w p)) (rt_ID remoteTrack) = Some t" and "\<not> tk_closed (tracks w t)"
  defines "w' \<equiv> onTrack E p remoteTrack w"
    and "name \<equiv> if rt_RID remoteTrack = '''' then LayerDefault else rt_RID remoteTrack"
  shows "\<exists>l r. GetLayer w' t name = Some l \<and> IsActive w' l \<and> ly_receiver (layers w' l) = r
    \<and> nextRef w \<le> r \<and> lr_track (receivers w' r) = remoteTrack \<and> \<not> lr_closed (receivers w' r)
    \<and> lr_pc (receivers w' r) = Some (pu_pc (publishers w p))
    \<and> tasks w' = tasks w @ [ReadRTP p r t name]
    \<and> (\<forall>n\<in>- {name}. GetLayer w' t n = GetLayer w t n)
    \<and> routers w' = routers w \<and> forwarders w' = forwarders w \<and> hist w' = hist w"
  using assms
  by (simp add: onTrack_def layerNameOf_def NewLayerReceiver_def SetPeerConnection_def AddLayer_def
      NewLayer_def GetLayer_def IsActive_def fresh_def spawn_def upd_defs Let_def)

theorem onTrack_adds_layer_witness:
  "GetLayer (onTrack env0 0 (zeroTrackRemote\<lparr>rt_ID := ''cam'', rt_RID := ''low''\<rparr>)
       (upd_publisher 0 (\<lambda>x. x\<lparr>pu_tracks := [(''cam'', 1)]\<rparr>) exampleTrack)) 1 ''low'' \<noteq> None
   \<and> GetLayer (onTrack env0 0 (zeroTrackRemote\<lparr>rt_ID := ''cam'', rt_RID := ''low''\<rparr>)
       (upd_publisher 0 (\<lambda>x. x\<lparr>pu_tracks := [(''cam'', 1)]\<rparr>) exampleTrack)) 1 ''high''
     = GetLayer (upd_publisher 0 (\<lambda>x. x\<lparr>pu_tracks := [(''cam'', 1)]\<rparr>) exampleTrack) 1 ''high''"
proof -
  let ?w = "upd_publisher 0 (\<lambda>x. x\<lparr>pu_tracks := [(''cam'', 1)]\<rparr>) exampleTrack"
  let ?rt = "zeroTrackRemote\<lparr>rt_ID := ''cam'', rt_RID := ''low''\<rparr>"
  have "\<not> pu_closed (publishers ?w 0)" "gm_get (pu_tracks (publishers ?w 0)) (rt_ID ?rt) = Some 1"
    "\<not> tk_closed (tracks ?w 1)"
    by (simp_all add: example_eval)
  from onTrack_adds_layer [OF this, of env0] show ?thesis by auto
qed

subsection \<open>New tracks\<close>

definition knownLayers :: "string set" where
  "knownLayers = {LayerHigh, LayerMid, LayerLow, LayerDefault}"

lemma best_of_new_layer:
  assumes "\<not> tk_closed (tracks w t)" and "name \<in> knownLayers"
    and "tk_layers (tracks w t) = []"
  shows "GetBestLayer (AddLayer t name r w) t \<noteq> None"
  using assms
  by (auto simp: knownLayers_def AddLayer_def NewLayer_def GetBestLayer_def IsActive_def fresh_def upd_defs
      Let_def gm_get_put LayerHigh_def LayerMid_def LayerLow_def LayerDefault_def split: option.splits)

text \<open>The world in which a new track, with its first layer, is handed to the router.\<close>

definition newTrackWorld :: "ref \<Rightarrow> TrackRemote \<Rightarrow> world \<Rightarrow> world" where
  "newTrackWorld p remoteTrack w =
     (let w1 = snd (trackFor p remoteTrack w)
      in AddLayer (nextRef w) (layerNameOf remoteTrack) (nextRef w1)
           (SetPeerConnection (nextRef w1) (pu_pc (publishers w p))
             (snd (NewLayerReceiver remoteTrack (layerNameOf remoteTrack) w1))))"

lemma newTrackWorld_facts:
  fixes w :: world and p :: ref and remoteTrack :: TrackRemote
  assumes "gm_get (pu_tracks (publishers w p)) (rt_ID remoteTrack) = None"
  defines "w4 \<equiv> newTrackWorld p remoteTrack w"
  shows "routers w4 = routers w" "subscribers w4 = subscribers w" "peers w4 = peers w"
    "pu_router (publishers w4 p) = pu_router (publishers w p)"
    "pu_peer (publishers w4 p) = pu_peer (publishers w p)"
    "tk_trackID (tracks w4 (nextRef w)) = rt_ID remoteTrack" "nextRef w < nextRef w4"
    "layerNameOf remoteTrack \<in> knownLayers \<Longrightarrow> GetBestLayer w4 (nextRef w) \<noteq> None"
    "good w w4"
proof -
  define w1 where "w1 = snd (trackFor p remoteTrack w)"
  define w3 where "w3 = SetPeerConnection (nextRef w1) (pu_pc (publishers w p))
      (snd (NewLayerReceiver remoteTrack (layerNameOf remoteTrack) w1))"
  have w4: "w4 = AddLayer (nextRef w) (layerNameOf remoteTrack) (nextRef w1) w3"
    by (simp add: w4_def newTrackWorld_def w3_def w1_def Let_def)
  have w1: "w1 = upd_publisher p (\<lambda>y. y\<lparr>pu_tracks := gm_put (rt_ID remoteTrack) (nextRef w) (pu_tracks y)\<rparr>)
      (snd (NewTrackReceiver (rt_ID remoteTrack) (rt_StreamID remoteTrack) (rt_Kind remoteTrack) w))"
    by (simp add: w1_def trackFor_def assms(1) split_beta Let_def)
  show "routers w4 = routers w" "subscribers w4 = subscribers w" "peers w4 = peers w"
    "pu_router (publishers w4 p) = pu_router (publishers w p)"
    "pu_peer (publishers w4 p) = pu_peer (publishers w p)"
    "tk_trackID (tracks w4 (nextRef w)) = rt_ID remoteTrack" "nextRef w < nextRef w4"
    by (simp_all add: w4 w3_def w1 AddLayer_def NewLayer_def SetPeerConnection_def
        NewLayerReceiver_def NewTrackReceiver_def Let_def split_beta upd_defs fresh_def)
  have "\<not> tk_closed (tracks w3 (nextRef w))" "tk_layers (tracks w3 (nextRef w)) = []"
    by (simp_all add: w3_def w1 SetPeerConnection_def NewLayerReceiver_def NewTrackReceiver_def Let_def
        split_beta upd_defs fresh_def)
  then show "layerNameOf remoteTrack \<in> knownLayers \<Longrightarrow> GetBestLayer w4 (nextRef w) \<noteq> None"
    unfolding w4 using best_of_new_layer by blast
  show "good w w4"
    unfolding w4 w3_def w1_def by (rule good.frame_trans [OF good_trackFor good_receiveLayer(1)])
qed

lemma onTrack_new:
  fixes E :: env and w :: world and p :: ref and remoteTrack :: TrackRemote
  assumes "\<not> pu_closed (publishers w p)" and new: "gm_get (pu_tracks (publishers w p)) (rt_ID remoteTrack) = None"
  defines "w5 \<equiv> AddTrack E (pu_router (publishers w p)) (nextRef w) (newTrackWorld p remoteTrack w)"
  shows "\<exists>x. onTrack E p remoteTrack w =
    spawn (ReadRTP p x (nextRef w) (layerNameOf remoteTrack))
      (AddRouter (pe_session (peers w5 (pu_peer (publishers w5 p)))) (pe_id (peers w5 (pu_peer (publishers w5 p))))
         (pu_router (publishers w5 p)) w5)"
proof -
  have "fst (trackFor p remoteTrack w) = nextRef w"
    "pu_pc (publishers (snd (NewLayerReceiver remoteTrack l (snd (trackFor p remoteTrack w)))) p) = pu_pc (publishers w p)" for l
    by (simp_all add: trackFor_def new split_beta Let_def NewTrackReceiver_def NewLayerReceiver_def upd_defs fresh_def)
  then show ?thesis
    unfolding w5_def onTrack_eq Let_def split_beta NewLayerReceiver_ref
    using assms(1,2) newTrackWorld_facts(4) [OF new]
    by (intro exI [of _ "nextRef (snd (trackFor p remoteTrack w))"]) (simp add: newTrackWorld_def Let_def)
qed


text \<open>The first peer of the server, whose router is reference 4, sends a track.\<close>

definition exampleRemote :: TrackRemote where
  "exampleRemote = zeroTrackRemote\<lparr>rt_ID := ''cam'', rt_RID := ''high''\<rparr>"

lemma exampleJoined_ids:
  "pu_peer (publishers exampleJoined 5) = 2" "pe_session (peers exampleJoined 2) = 1"
  "pe_id (peers exampleJoined 2) = ''ann''" "ro_closed (routers exampleJoined 4) = False"
  unfolding exampleJoined_eq handleJoin_def joinRequest_decodes
  by (simp_all add: join_eval example_eval eval_nat_numeral)


text \<open>Layers under other names are not found: a track that has no others is not sent to anybody, and
  adding a downtrack for it reports success.\<close>

theorem unknown_layers_unsubscribed:
  assumes "\<forall>name\<in>knownLayers. GetLayer w t name = None"
  shows "AddDownTrack E s t w = (None, w)"
  using assms
  by (simp add: AddDownTrack_def GetBestLayer_def GetLayer_def knownLayers_def Let_def split: option.splits)

end
