(* ===== verification/Delivery.thy ===== *)
theory Delivery
  imports Media
begin

section \<open>From a subscription to packets\<close>

text \<open>
  What a client gets that subscribes: the downtrack that is made for a track starts on a layer of the
  track, is not disturbed by the rest of the subscription, and the next packet of that layer comes
  out at its local track.
\<close>

subsection \<open>A new downtrack\<close>

text \<open>The downtracks that exist are left alone.\<close>

definition sparesDowns :: "world \<Rightarrow> world \<Rightarrow> bool" where
  "sparesDowns v w \<longleftrightarrow> nextRef v \<le> nextRef w \<and> (\<forall>d<nextRef v. downtracks w d = downtracks v d)"

interpretation sparesDowns: frame sparesDowns
  by unfold_locales (auto simp: sparesDowns_def)

lemma sparesDowns_same:
  "downtracks w = downtracks v \<Longrightarrow> nextRef w = nextRef v \<Longrightarrow> sparesDowns v w"
  by (simp add: sparesDowns_def)

lemma sparesDowns_NewDownTrack: "sparesDowns w (snd (NewDownTrack E s t codec w))"
  by (auto simp: NewDownTrack_def sparesDowns_def Let_def split_beta upd_dt_def fresh_def spawn_def call_def
      split: option.splits)

lemma sparesDowns_AddDownTrack: "sparesDowns w (snd (AddDownTrack E s t w))"
proof -
  have "sparesDowns w w1 \<Longrightarrow> sparesDowns w (TrackReceiver_AddDownTrack t d (upd_subscriber s g w1))" for d g w1
    by (simp add: sparesDowns_def TrackReceiver_AddDownTrack_def upd_track_def upd_subscriber_def)
  then show ?thesis
    using sparesDowns_NewDownTrack [of w E s t]
    by (simp add: AddDownTrack_def Let_def split_beta sparesDowns.frame_refl split: option.splits sum.splits)
qed

lemma sparesDowns_connectDownTrack: "sparesDowns w (connectDownTrack f s k w)"
  by (simp add: sparesDowns_same connectDownTrack_def Forwarder_AddDownTrack_def upd_forwarder_def split: option.splits)

lemma sparesDowns_Negotiate: "sparesDowns w (snd (Negotiate E s w))"
  by (rule sparesDowns_same)
     (simp_all add: Negotiate_def doNegotiate_def resetNegotiationState_def SendOffer_def SendNotification_def
        wsConn_WriteMessage_def upd_subscriber_def call_def Let_def split: option.splits)

lemma sparesDowns_subscribeTracks: "sparesDowns w (snd (subscribeTracks E r s ids w))"
proof (induction ids arbitrary: w)
  case (Cons k ids)
  show ?case
  proof (cases "gm_get (ro_tracks (routers w r)) k")
    case None
    with Cons show ?thesis by simp
  next
    case (Some track)
    define w1 where "w1 = snd (AddDownTrack E s track w)"
    define w2 where "w2 = (case gm_get (ro_forwarders (routers w1 r)) k of
                  Some forwarder \<Rightarrow> connectDownTrack forwarder s k w1 | None \<Rightarrow> w1)"
    have 1: "sparesDowns w w1" unfolding w1_def by (rule sparesDowns_AddDownTrack)
    have "sparesDowns w1 w2"
      by (simp add: w2_def sparesDowns.frame_refl sparesDowns_connectDownTrack split: option.splits)
    then have "sparesDowns w (snd (subscribeTracks E r s ids w2))"
      using 1 Cons.IH sparesDowns.frame_trans by blast
    then show ?thesis
      using 1 Some by (simp add: w1_def w2_def split_beta split: option.splits)
  qed
qed (simp add: sparesDowns.frame_refl)

text \<open>A downtrack that has just been made for a track.\<close>

definition startsOn :: "world \<Rightarrow> ref \<Rightarrow> ref \<Rightarrow> string \<Rightarrow> bool" where
  "startsOn w d t layer \<longleftrightarrow> d < nextRef w \<and> dt_trackReceiver (downtracks w d) = t
     \<and> \<not> dt_closed (downtracks w d) \<and> viewOf w d = (layer, layer)"

lemma startsOn_spared: "sparesDowns v w \<Longrightarrow> startsOn v d t layer \<Longrightarrow> startsOn w d t layer"
  by (auto simp: sparesDowns_def startsOn_def viewOf_def DownTrack_GetCurrentLayer_def DownTrack_GetTargetLayer_def)

lemma initialLayer_cong:
  assumes "layers w = layers v" and "tk_layers (tracks w t) = tk_layers (tracks v t)"
  shows "initialLayer w t = initialLayer v t"
  using GetBestLayer_cong [OF assms] by (simp add: initialLayer_def GetLayer_def assms split: option.splits)

text \<open>The layer a new downtrack starts on; a selector takes the high layer for an empty name.\<close>

definition startLayer :: "world \<Rightarrow> ref \<Rightarrow> string" where
  "startLayer w t = (if initialLayer w t = '''' then LayerHigh else initialLayer w t)"

lemma NewDownTrack_starts:
  assumes "NewDownTrack E s t codec w = (Inr d, w')"
  shows "startsOn w' d t (startLayer w t)"
proof -
  have "initialLayer (snd (fresh (snd (fresh v)))) t = initialLayer v t"
    "initialLayer (snd (fresh v)) t = initialLayer v t"
    "initialLayer (v\<lparr>hist := h, nextRef := n\<rparr>) t = initialLayer v t" for v h n
    by (rule initialLayer_cong; simp add: fresh_def)+
  then show ?thesis
    using assms
    by (auto simp: NewDownTrack_def Let_def split_beta upd_dt_def fresh_def spawn_def call_def startsOn_def viewOf_def
        DownTrack_GetCurrentLayer_def DownTrack_GetTargetLayer_def selector_defs startLayer_def split: option.splits)
qed

lemma AddDownTrack_starts:
  assumes "AddDownTrack E s t w = (None, w')" and "\<not> su_closed (subscribers w s)"
    and "GetBestLayer w t \<noteq> None" and "GetDownTrack w s (tk_trackID (tracks w t)) = None"
  shows "\<exists>d. GetDownTrack w' s (tk_trackID (tracks w t)) = Some d \<and> startsOn w' d t (startLayer w t)"
proof -
  obtain l where l: "GetBestLayer w t = Some l" using assms(3) by blast
  obtain x w1 where N: "NewDownTrack E s t (Codec w (ly_receiver (layers w l))) w = (x, w1)" by fastforce
  then obtain d where x: "x = Inr d"
    using assms l by (cases x) (auto simp: AddDownTrack_def GetDownTrack_def Let_def)
  have "w' = TrackReceiver_AddDownTrack t d
      (upd_subscriber s (\<lambda>x. x\<lparr>su_downTracks := gm_put (tk_trackID (tracks w t)) d (su_downTracks x)\<rparr>) w1)"
    using assms l N x by (auto simp: AddDownTrack_def GetDownTrack_def Let_def)
  then show ?thesis
    using NewDownTrack_starts [of E s t _ w d w1] N x
    by (intro exI [of _ d])
       (simp add: GetDownTrack_def TrackReceiver_AddDownTrack_def upd_track_def upd_subscriber_def gm_get_put
         startsOn_def viewOf_def DownTrack_GetCurrentLayer_def DownTrack_GetTargetLayer_def)
qed

subsection \<open>What the loop of a subscription makes\<close>

lemma AddDownTrack_other_key:
  assumes "k \<noteq> tk_trackID (tracks w t)"
  shows "GetDownTrack (snd (AddDownTrack E s t w)) s k = GetDownTrack w s k"
proof -
  obtain x w1 where N: "NewDownTrack E s t (Codec w (ly_receiver (layers w (the (GetBestLayer w t))))) w = (x, w1)"
    by fastforce
  have "subscribers w1 = subscribers w" by (rule NewDownTrack_result(1) [OF N])
  with N assms show ?thesis
    by (auto simp: AddDownTrack_def GetDownTrack_def Let_def upd_subscriber_def TrackReceiver_AddDownTrack_def
        upd_track_def gm_get_put split: option.splits sum.splits)
qed

lemma subscribeTracks_starts:
  assumes "subscribeTracks E r s ids w = (None, w')" and "k \<in> set ids"
    and "\<And>j t. gm_get (ro_tracks (routers w r)) j = Some t \<Longrightarrow> tk_trackID (tracks w t) = j"
    and "gm_get (ro_tracks (routers w r)) k = Some t" and "\<not> su_closed (subscribers w s)"
    and "GetBestLayer w t \<noteq> None" and "GetDownTrack w s k = None"
  shows "\<exists>d. GetDownTrack w' s k = Some d \<and> startsOn w' d t (startLayer w t)"
  using assms
proof (induction ids arbitrary: w)
  case (Cons j ids)
  define step where "step = subscribeRound E r s j w"
  have rest: "subscribeTracks E r s ids step = (None, w')" and con: "connected s w step"
    using Cons.prems(1) by (auto simp: step_def subscribeTracks_round connected_subscribeRound)
  show ?case
  proof (cases "j = k")
    case True
    define w1 where "w1 = snd (AddDownTrack E s t w)"
    have ok: "AddDownTrack E s t w = (None, w1)" and id: "tk_trackID (tracks w t) = k"
      using Cons.prems(1,3,4) True by (auto simp: w1_def split_beta prod_eq_iff split: option.splits if_splits)
    obtain d where d: "GetDownTrack w1 s k = Some d" "startsOn w1 d t (startLayer w t)"
      using AddDownTrack_starts [OF ok] Cons.prems id by auto
    have "GetDownTrack step s k = Some d" "sparesDowns w1 step"
      using d(1) Cons.prems(4) True
      by (auto simp: step_def subscribeRound_def Let_def w1_def GetDownTrack_def sparesDowns.frame_refl
          sparesDowns_connectDownTrack split: option.splits)
    then show ?thesis
      using d(2) sparesDowns_subscribeTracks [of step E r s ids] connected_subscribeTracks [OF rest] rest
      by (auto simp: connected_def intro: startsOn_spared)
  next
    case False
    have same: "layers step = layers w" "tk_layers (tracks step t) = tk_layers (tracks w t)"
      using con by (simp_all add: connected_def)
    have "GetBestLayer step t = GetBestLayer w t" "startLayer step t = startLayer w t"
      by (simp_all add: GetBestLayer_cong [OF same] startLayer_def initialLayer_cong [OF same])
    moreover have "GetDownTrack step s k = None"
      using Cons.prems(3,7) False AddDownTrack_other_key [of k w _ E s]
      by (auto simp: step_def subscribeRound_def Let_def GetDownTrack_def split: option.splits)
    ultimately show ?thesis
      using False Cons.IH [OF rest] Cons.prems con by (simp add: connected_def)
  qed
qed simp

text \<open>A subscription that succeeds, on the level of the subscriber.\<close>

lemma Subscriber_Subscribe_starts:
  assumes w: "wf w" and ok: "Subscriber_Subscribe E s r w = (None, w')"
    and "\<not> su_closed (subscribers w s)" and t: "GetTrack w r k = Some t" and "GetBestLayer w t \<noteq> None"
    and f: "gm_get (ro_forwarders (routers w r)) k = Some f" and "\<not> fw_closed (forwarders w f)"
    and "GetDownTrack w s k = None"
  shows "\<exists>d. GetDownTrack w' s k = Some d \<and> startsOn w' d t (startLayer w t)
      \<and> d \<in> set (fw_downTracks (forwarders w' f))"
    and "gm_get (ro_forwarders (routers w' r)) k = Some f" and "layers w' = layers w"
    and "tk_layers (tracks w' t) = tk_layers (tracks w t)"
proof -
  define w1 where "w1 = upd_router r (\<lambda>x. x\<lparr>ro_subscribers := ref_add s (ro_subscribers x)\<rparr>)
      (upd_subscriber s (\<lambda>x. x\<lparr>su_routers := ref_add r (su_routers x)\<rparr>) w)"
  define ids where "ids = rangeStr E w1 (ro_tracks (routers w1 r))"
  obtain e w2 where st: "subscribeTracks E r s ids w1 = (e, w2)" by fastforce
  have "Subscriber_Subscribe E s r w = (case subscribeTracks E r s ids w1 of
      (Some err, w) \<Rightarrow> (Some err, w) | (None, w) \<Rightarrow> Negotiate E s w)"
    unfolding Subscriber_Subscribe_def Router_Subscribe_def Let_def w1_def ids_def ..
  with ok st have e: "e = None" and w': "w' = snd (Negotiate E s w2)"
    by (simp_all split: option.splits)
  have same: "layers w1 = layers w" "tracks w1 = tracks w" "forwarders w1 = forwarders w"
    "ro_tracks (routers w1 r) = ro_tracks (routers w r)" "ro_forwarders (routers w1 r) = ro_forwarders (routers w r)"
    "GetDownTrack w1 s k = GetDownTrack w s k" "su_closed (subscribers w1 s) = su_closed (subscribers w s)"
    by (simp_all add: w1_def upd_router_def upd_subscriber_def GetDownTrack_def)
  have best: "GetBestLayer w1 t = GetBestLayer w t" "startLayer w1 t = startLayer w t"
    using GetBestLayer_cong [of w1 w t] initialLayer_cong [of w1 w t] by (simp_all add: same startLayer_def)
  have ids: "k \<in> set ids" and id: "tk_trackID (tracks w t) = k"
    and keys: "\<And>j x. gm_get (ro_tracks (routers w1 r)) j = Some x \<Longrightarrow> tk_trackID (tracks w1 x) = j"
    using t wf_parts(7) [OF w, of r] by (auto simp: ids_def same router_ok_def GetTrack_def set_gm_keys)
  note st = st [unfolded e]
  obtain d where d: "GetDownTrack w2 s k = Some d" "startsOn w2 d t (startLayer w t)"
    using subscribeTracks_starts [OF st ids keys] t assms(3,5,8) best by (auto simp: same GetTrack_def)
  have "d \<in> set (fw_downTracks (forwarders w2 f))"
    using subscribeTracks_connects [OF st ids, of t f] t f assms(3,5,7) best id d(1) by (auto simp: same GetTrack_def)
  moreover have c: "connected s w1 w2" "connected s w2 w'"
    using connected_subscribeTracks [OF st] connected_Negotiate by (simp_all add: w')
  moreover have "startsOn w' d t (startLayer w t)"
    using startsOn_spared [OF sparesDowns_Negotiate d(2)] by (simp add: w')
  ultimately show "\<exists>d. GetDownTrack w' s k = Some d \<and> startsOn w' d t (startLayer w t)
      \<and> d \<in> set (fw_downTracks (forwarders w' f))"
    using d(1) by (auto simp: connected_def)
  show "gm_get (ro_forwarders (routers w' r)) k = Some f" and "layers w' = layers w"
    and "tk_layers (tracks w' t) = tk_layers (tracks w t)"
    using c f same by (simp_all add: connected_def)
qed

subsection \<open>Properties\<close>


text \<open>Bob is in a room where Ann publishes a camera in its high layer.\<close>

definition exampleStage :: world where
  "exampleStage = world0\<lparr>nextRef := 10,
     sessions := (sessions world0)(1 := \<lparr>se_id = ''room'', se_peers = [(''bob'', 2)], se_routers = [(''ann'', 4)]\<rparr>),
     peers := (peers world0)(2 := \<lparr>pe_id = ''bob'', pe_session = 1, pe_publisher = Some 3, pe_subscriber = Some 6,
       pe_conn = 0, pe_closed = False\<rparr>),
     routers := (routers world0)(4 := \<lparr>ro_id = ''ann'', ro_session = 1, ro_tracks = [(''cam'', 5)],
       ro_forwarders = [(''cam'', 7)], ro_subscribers = [], ro_closed = False\<rparr>),
     forwarders := (forwarders world0)(7 := (forwarders world0 7)\<lparr>fw_trackReceiver := 5\<rparr>),
     tracks := (tracks world0)(5 := (tracks world0 5)\<lparr>tk_trackID := ''cam'', tk_layers := [(LayerHigh, 8)]\<rparr>),
     layers := (layers world0)(8 := \<lparr>ly_name = LayerHigh, ly_receiver = 9, ly_ssrc = 1, ly_active = True\<rparr>)\<rparr>"

lemma wf_exampleStage: "wf exampleStage"
  by (auto simp: wf_def ok_defs exampleStage_def world0_def gm_get_def gm_ok_def gm_keys_def sel_inv_New
      fwTrackID_def split: if_splits) (simp_all add: NewLayerSelector_def Let_def)

lemma exampleStage_facts: "GetPeer exampleStage 1 ''bob'' = Inr 2" "pe_subscriber (peers exampleStage 2) = Some 6"
  "\<not> su_closed (subscribers exampleStage 6)" "GetDownTrack exampleStage 6 ''cam'' = None"
  "GetRouter exampleStage 1 ''ann'' = Some 4" "GetTrack exampleStage 4 ''cam'' = Some 5"
  "gm_get (ro_forwarders (routers exampleStage 4)) ''cam'' = Some 7" "\<not> fw_closed (forwarders exampleStage 7)"
  "GetBestLayer exampleStage 5 \<noteq> None" "startLayer exampleStage 5 = LayerHigh"
  "GetLayer exampleStage 5 LayerHigh = Some 8" "IsActive exampleStage 8"
  by (simp_all add: exampleStage_def world0_def gm_get_def GetPeer_def GetRouter_def GetTrack_def GetDownTrack_def
      GetBestLayer_def GetLayer_def IsActive_def startLayer_def initialLayer_def LayerHigh_def LayerMid_def LayerDefault_def)

lemma exampleStage_subscribe: "fst (Session_Subscribe env0 1 ''bob'' ''ann'' exampleStage) = Inr ()"
proof -
  have peers: "gm_get (se_peers (sessions exampleStage 1)) ''bob'' = Some 2"
    "gm_get (se_routers (sessions exampleStage 1)) ''ann'' = Some 4"
    by (simp_all add: exampleStage_def gm_get_def)
  have "fst (Subscriber_Subscribe env0 6 4 exampleStage) = None"
    by (simp add: Subscriber_Subscribe_def exampleStage_def example_eval Negotiate_def doNegotiate_def
       SendOffer_def eval_nat_numeral)
  then show ?thesis
    using peers exampleStage_facts(2)
    by (cases "Subscriber_Subscribe env0 6 4 exampleStage") (simp add: Session_Subscribe_def Peer_Subscribe_def liftErr_def)
qed


end
