(* ===== verification/Protocol.thy ===== *)
theory Protocol
  imports Signaling
begin

section \<open>What a join and a leave leave behind\<close>

text \<open>
  Behaviour of \<open>signaling.go\<close> and \<open>session.go\<close> that a client of the protocol would not expect: a
  join that fails, a join under an ID that is taken, and a leave over the connection that leaves.
\<close>

subsection \<open>Failed and repeated joins\<close>

lemma AddPeer_old_peers:
  assumes "s < nextRef w" and "wf w" and "AddPeer E s peerID conn w = (Inr p, w')"
  shows "nextRef w \<le> p" and "q < nextRef w \<Longrightarrow> peers w' q = peers w q"
proof -
  obtain w1 where np: "newPeer E peerID s conn w = (Inr p, w1)"
    and w': "w' = upd_session s (\<lambda>x. x\<lparr>se_peers := gm_put peerID p (se_peers x)\<rparr>) w1"
    using assms(3) by (auto simp: AddPeer_def split: prod.splits sum.splits)
  from newPeer_good_result [OF assms(1,2) np]
  show "nextRef w \<le> p" and "q < nextRef w \<Longrightarrow> peers w' q = peers w q"
    by (auto simp: w' upd_session_def)
qed

text \<open>A join whose offer is refused leaves the peer behind. When the peer could be made but
  pion refuses the offer, the client is answered with an error; yet the peer is in the session under
  its ID, open, with all that belongs to it, and nothing removes it.\<close>

theorem failed_join_leaves_peer:
  assumes w: "wf w" and d: "decodeJoin E (rq_Params req) = Some params"
    and G: "GetOrCreateSession (SessionID params) w = (s, w1)"
    and A: "AddPeer E s (PeerID params) conn w1 = (Inr p, w2)"
    and H: "fst (Peer_HandleOffer E p (Offer params) w2) = Inl err"
  shows "fst (handleJoin E conn req w) = errorResponse (rq_ID req) JSONRPCServerError err
    \<and> GetPeer (snd (handleJoin E conn req w)) s (PeerID params) = Inr p
    \<and> \<not> pe_closed (peers (snd (handleJoin E conn req w)) p)"
proof -
  have s: "s < nextRef w1" and w1: "wf w1"
    using good_GetOrCreateSession [of w "SessionID params"] G w by (auto simp: good_def)
  have p: "complete w2 p" "GetPeer w2 s (PeerID params) = Inr p" "\<not> pe_closed (peers w2 p)"
    using AddPeer_good_result(2) [OF s w1 A refl] by (simp_all add: GetPeer_def)
  have same: "peers (snd (Peer_HandleOffer E p offer w2)) = peers w2"
    "sessions (snd (Peer_HandleOffer E p offer w2)) = sessions w2" for offer
    using p(1) by (auto simp: Peer_HandleOffer_def complete_def Publisher_HandleOffer_def Let_def call_def
        split: option.splits prod.splits)
  obtain w3 where "Peer_HandleOffer E p (Offer params) w2 = (Inl err, w3)"
    using H by (metis prod.collapse)
  then have "handleJoin E conn req w = (errorResponse (rq_ID req) JSONRPCServerError err, w3)"
    and w3: "w3 = snd (Peer_HandleOffer E p (Offer params) w2)"
    using d G A by (simp_all add: handleJoin_def serverError_def)
  then show ?thesis
    using p same [of "Offer params"] by (simp add: GetPeer_def)
qed

text \<open>Joining again loses the old peer. When a peer is added under an ID that is taken, the new
  peer takes the place of the old one, which stays exactly as it was, open if it was open, but can
  not be looked up in the session any more, so no request, no broadcast and no deletion of the
  session reaches it.\<close>

theorem rejoin_loses_peer:
  assumes w: "wf w" and s: "s < nextRef w" and old: "GetPeer w s peerID = Inr p0"
    and A: "AddPeer E s peerID conn w = (Inr p, w')"
  shows "p \<noteq> p0 \<and> GetPeer w' s peerID = Inr p \<and> peers w' p0 = peers w p0
    \<and> (\<forall>k. GetPeer w' s k \<noteq> Inr p0)"
proof -
  have p0: "gm_get (se_peers (sessions w s)) peerID = Some p0"
    using old by (simp add: GetPeer_def split: option.splits)
  have lt: "p0 < nextRef w" by (rule session_peer(1) [OF w p0])
  have p: "nextRef w \<le> p" "peers w' p0 = peers w p0"
    using AddPeer_old_peers [OF s w A] lt by simp_all
  have new: "gm_get (se_peers (sessions w' s)) peerID = Some p"
    using AddPeer_good_result(2) [OF s w A refl] by simp
  have "gm_get (se_peers (sessions w' s)) k \<noteq> Some p0" for k
  proof (cases "k = peerID")
    case True
    then show ?thesis using new p lt by simp
  next
    case False
    then have "gm_get (se_peers (sessions w' s)) k = gm_get (se_peers (sessions w s)) k"
      by (rule AddPeer_good_result(3) [OF s w A])
    moreover have "gm_get (se_peers (sessions w s)) k \<noteq> Some p0"
      using session_peer(3) [OF w p0] session_peer(3) [OF w, of s k p0] False by auto
    ultimately show ?thesis by simp
  qed
  then show ?thesis
    using p lt new by (auto simp: GetPeer_def split: option.splits)
qed

subsection \<open>Leaving\<close>

lemma Router_Close_hist: "hist (Router_Close E r w) = hist w"
proof -
  have "hist (fold (Forwarder_Close E) fs v) = hist v" "hist (fold (TrackReceiver_Close E) ts v) = hist v" for fs ts v
    by (rule same_fold, simp)+
  then show ?thesis by (simp add: Router_Close_eq upd_router_def)
qed

text \<open>A client that leaves does not get the answer. When an open peer leaves over its own
  connection, the connection is closed first, and the success response is written to it after
  that.\<close>

theorem leave_answers_too_late:
  fixes E :: env and w :: world and conn :: ref
  assumes w: "wf w" and m: "Option.bind message decodeRequest = Some req" "rq_Method req = ''leave''"
    and d: "decodeLeave (rq_Params req) = Some params" and s: "GetSession w (SessionID params) = Inr s"
    and p: "GetPeer w s (PeerID params) = Inr p" and c: "pe_conn (peers w p) = conn"
    and opn: "\<not> pe_closed (peers w p)"
  defines "resp \<equiv> encodeResponse (successResponse (rq_ID req) successTrue)"
  shows "\<exists>h err err'. hist (handleMessage E conn message w) = h @ [(CloseWS conn, err), (WriteWS conn resp, err')]"
proof -
  have g: "gm_get (se_peers (sessions w s)) (PeerID params) = Some p"
    using p by (simp add: GetPeer_def split: option.splits)
  obtain pu su where "pe_publisher (peers w p) = Some pu" "pe_subscriber (peers w p) = Some su"
    using session_peer(2) [OF w g] by (auto simp: complete_def)
  note C = Peer_Close_closes(3,4) [OF opn this, of E]
  have "hist (RemovePeer E s (PeerID params) w) = hist (Peer_Close E p w)"
    using g by (simp add: RemovePeer_def Let_def Router_Close_hist upd_session_def split: option.splits)
  also have "\<dots> = butlast (hist (Peer_Close E p w)) @ [(CloseWS conn, snd (last (hist (Peer_Close E p w))))]"
    using C c by (metis append_butlast_last_id)
  finally show ?thesis
    using m d s by (simp add: handleMessage_def handleRequest_def handleLeave_def wsConn_WriteMessage_def
        call_def Let_def resp_def)
qed

subsection \<open>Examples\<close>

text \<open>An environment in which pion refuses every offer.\<close>

definition refusing :: env where
  "refusing = env0\<lparr>callErr := (\<lambda>h e. case e of SetRemoteDescription pc sdp \<Rightarrow> Some ''bad offer'' | _ \<Rightarrow> None)\<rparr>"

theorem failed_join_leaves_peer_witness:
  "\<exists>p. GetPeer (snd (handleJoin refusing 0 joinRequest world0)) 1 ''ann'' = Inr p"
proof -
  let ?w1 = "snd (GetOrCreateSession ''room'' world0)"
  have d: "decodeJoin refusing (rq_Params joinRequest) =
      Some \<lparr>SessionID = ''room'', PeerID = ''ann'', Offer = ''offer''\<rparr>"
    by (simp add: joinRequest_def decodeJoin_def decode_eval refusing_def env0_def)
  have G: "GetOrCreateSession ''room'' world0 = (1, ?w1)"
    by (simp add: GetOrCreateSession_def newSession_def example_eval)
  have A: "fst (AddPeer refusing 1 ''ann'' 0 ?w1) = Inr 2"
    by (simp add: GetOrCreateSession_def newSession_def AddPeer_def newPeer_def newPublisher_def newSubscriber_def
        NewPeerConnection_def refusing_def example_eval eval_nat_numeral)
  then have A': "AddPeer refusing 1 ''ann'' 0 ?w1 = (Inr 2, snd (AddPeer refusing 1 ''ann'' 0 ?w1))"
    by (metis prod.collapse)
  have "pe_publisher (peers (snd (AddPeer refusing 1 ''ann'' 0 ?w1)) 2) = Some 5"
    by (simp add: GetOrCreateSession_def newSession_def AddPeer_def newPeer_def newPublisher_def newSubscriber_def
        NewPeerConnection_def refusing_def example_eval eval_nat_numeral)
  then have "fst (Peer_HandleOffer refusing 2 ''offer'' (snd (AddPeer refusing 1 ''ann'' 0 ?w1))) = Inl ''bad offer''"
    by (simp add: Peer_HandleOffer_def Publisher_HandleOffer_def call_def refusing_def Let_def)
  with failed_join_leaves_peer [OF wf_world0 d, of 1 ?w1 0 2] G A' show ?thesis by auto
qed

text \<open>The example room under its ID on the server.\<close>

definition exampleServer :: world where
  "exampleServer = exampleRoom\<lparr>sfu_sessions := [(''room'', 1)]\<rparr>"

lemma wf_exampleServer: "wf exampleServer"
  unfolding exampleServer_def
  by (rule goodD(1) [OF good_sfu_sessions wf_exampleRoom])
     (auto simp: exampleRoom_def gm_get_def gm_ok_def gm_keys_def split: if_splits)

lemma exampleServer_facts:
  "GetSession exampleServer ''room'' = Inr 1" "GetPeer exampleServer 1 ''ann'' = Inr 2"
  "pe_conn (peers exampleServer 2) = 5" "pe_closed (peers exampleServer 2) = False" "1 < nextRef exampleServer"
  by (simp_all add: exampleServer_def exampleRoom_def examplePeer_def GetSession_def GetPeer_def gm_get_def)

theorem rejoin_loses_peer_witness:
  "\<not> pe_closed (peers (snd (AddPeer env0 1 ''ann'' 9 exampleServer)) 2)
   \<and> GetPeer (snd (AddPeer env0 1 ''ann'' 9 exampleServer)) 1 ''bob'' \<noteq> Inr 2"
proof -
  obtain p where "fst (AddPeer env0 1 ''ann'' 9 exampleServer) = Inr p"
    by (simp add: AddPeer_def newPeer_def newPublisher_def newSubscriber_def NewPeerConnection_def
        exampleServer_def exampleRoom_def example_eval eval_nat_numeral)
  then have "AddPeer env0 1 ''ann'' 9 exampleServer = (Inr p, snd (AddPeer env0 1 ''ann'' 9 exampleServer))"
    by (metis prod.collapse)
  from rejoin_loses_peer [OF wf_exampleServer exampleServer_facts(5,2) this]
  show ?thesis using exampleServer_facts(4) by simp
qed

definition leaveMessage :: json where
  "leaveMessage = JObj [(''jsonrpc'', JStr ''2.0''), (''id'', JNum 7), (''method'', JStr ''leave''),
     (''params'', JObj [(''sessionId'', JStr ''room''), (''peerId'', JStr ''ann'')])]"

theorem leave_answers_too_late_witness:
  "\<exists>h err err' resp. hist (handleMessage env0 5 (Some leaveMessage) exampleServer)
     = h @ [(CloseWS 5, err), (WriteWS 5 resp, err')]"
proof -
  define req where "req = \<lparr>rq_JSONRPC = ''2.0'', rq_ID = JNum 7, rq_Method = ''leave'',
    rq_Params = Some (JObj [(''sessionId'', JStr ''room''), (''peerId'', JStr ''ann'')])\<rparr>"
  have "Option.bind (Some leaveMessage) decodeRequest = Some req"
    by (simp add: leaveMessage_def req_def decodeRequest_def decode_eval storeAny_def storeRaw_def)
  moreover have "decodeLeave (rq_Params req) = Some \<lparr>SessionID = ''room'', PeerID = ''ann''\<rparr>"
    by (simp add: req_def decodeLeave_def decode_eval)
  ultimately show ?thesis
    using leave_answers_too_late [OF wf_exampleServer, of "Some leaveMessage" req
        "\<lparr>SessionID = ''room'', PeerID = ''ann''\<rparr>" 1 2 5 env0] exampleServer_facts
    by (fastforce simp: req_def)
qed

end
